(* ===== verification/PyPrelude.thy ===== *)
theory PyPrelude
  imports Main
begin

text \<open>
  The part of Python 2.7 that every component of the repository uses: character classes,
  \<open>str\<close> operations (split, replace, rstrip, join), decimal printing and \<open>int()\<close>, list
  indexing with negative indices, and \<open>os.path.normpath\<close> / \<open>os.path.basename\<close>.
  A Python 2 \<open>str\<close> is a sequence of bytes, here a \<open>char list\<close>.
  The collections \<open>py_text\<close> (lengths and members of split or joined texts) and
  \<open>py_class\<close> (inclusions between character classes) carry the component proofs.
\<close>

named_theorems py_text
named_theorems py_class

section \<open>Character classes\<close>

abbreviation nl :: char where "nl \<equiv> CHR 0x0A"
abbreviation tab :: char where "tab \<equiv> CHR 0x09"

definition is_digit :: "char \<Rightarrow> bool" where
  "is_digit c \<longleftrightarrow> (let n = (of_char c :: nat) in 48 \<le> n \<and> n \<le> 57)"

definition is_upper :: "char \<Rightarrow> bool" where
  "is_upper c \<longleftrightarrow> (let n = (of_char c :: nat) in 65 \<le> n \<and> n \<le> 90)"

definition is_lower :: "char \<Rightarrow> bool" where
  "is_lower c \<longleftrightarrow> (let n = (of_char c :: nat) in 97 \<le> n \<and> n \<le> 122)"

definition is_alnum :: "char \<Rightarrow> bool" where
  "is_alnum c \<longleftrightarrow> is_lower c \<or> is_upper c \<or> is_digit c"

text \<open>\<open>\s\<close> of \<open>re\<close> and the white space of \<open>str.rstrip\<close>: space, tab, LF, VT, FF, CR.\<close>

definition is_space :: "char \<Rightarrow> bool" where
  "is_space c \<longleftrightarrow> (let n = (of_char c :: nat) in n = 32 \<or> 9 \<le> n \<and> n \<le> 13)"

definition is_control :: "char \<Rightarrow> bool" where
  "is_control c \<longleftrightarrow> (let n = (of_char c :: nat) in 1 \<le> n \<and> n < 32)"

lemma digit_alnum [py_class]: "is_digit c \<Longrightarrow> is_alnum c"
  by (simp add: is_alnum_def)

lemma alnum_not_space [py_class]: "is_alnum c \<Longrightarrow> \<not> is_space c"
  by (auto simp: is_alnum_def is_lower_def is_upper_def is_digit_def is_space_def Let_def)

lemma nl_space [simp]: "is_space nl" "is_space tab" "is_space (CHR '' '')"
  by (simp_all add: is_space_def)

section \<open>Indexing\<close>

text \<open>\<open>xs[i]\<close>: a negative index counts from the end, \<open>None\<close> is the \<open>IndexError\<close>.\<close>

definition py_index :: "'a list \<Rightarrow> int \<Rightarrow> 'a option" where
  "py_index xs i =
     (let n = int (length xs); j = (if i < 0 then n + i else i)
      in if 0 \<le> j \<and> j < n then Some (xs ! nat j) else None)"

text \<open>\<open>xs[:-2]\<close>: everything but the last two elements.\<close>

definition drop_last2 :: "'a list \<Rightarrow> 'a list" where
  "drop_last2 xs = butlast (butlast xs)"

text \<open>\<open>del xs[i]\<close> for an index in range.\<close>

definition del_at :: "nat \<Rightarrow> 'a list \<Rightarrow> 'a list" where
  "del_at i xs = take i xs @ drop (Suc i) xs"

lemma py_index_last [simp]: "py_index (xs @ [x]) (-1) = Some x"
  by (simp add: py_index_def nth_append)

lemma py_index_last2 [simp]: "py_index (xs @ [x, y]) (-1) = Some y"
  using py_index_last [of "xs @ [x]" y] by simp

lemma py_index_before_last [simp]: "py_index (xs @ [x, y]) (-2) = Some x"
  by (simp add: py_index_def nth_append Let_def)

lemma py_index_0 [simp]: "py_index (x # xs) 0 = Some x"
  by (simp add: py_index_def)

lemma py_index_1 [simp]: "py_index (x # y # xs) 1 = Some y"
  by (simp add: py_index_def)

lemma py_index_Nil [simp]: "py_index [] i = None"
  by (simp add: py_index_def)

lemma drop_last2_append [simp]: "drop_last2 (xs @ [x, y]) = xs"
  by (simp add: drop_last2_def butlast_append)

lemma set_del_at: "set (del_at i xs) \<subseteq> set xs"
  by (auto simp: del_at_def dest: in_set_takeD in_set_dropD)

lemma length_del_at: "i < length xs \<Longrightarrow> Suc (length (del_at i xs)) = length xs"
  by (simp add: del_at_def)

lemma map_del_at: "map f (del_at i xs) = del_at i (map f xs)"
  by (simp add: del_at_def take_map drop_map)

lemma del_at_split: "i < length xs \<Longrightarrow> xs = take i xs @ xs ! i # drop (Suc i) xs"
  by (simp add: id_take_nth_drop)

lemma distinct_del_at: "distinct xs \<Longrightarrow> distinct (del_at i xs)"
proof (cases "i < length xs")
  case True
  assume "distinct xs"
  then have "distinct (take i xs @ xs ! i # drop (Suc i) xs)"
    using del_at_split [OF True] by simp
  then show ?thesis by (simp add: del_at_def)
next
  case False
  assume "distinct xs"
  with False show ?thesis by (simp add: del_at_def)
qed

lemma set_del_at_distinct:
  assumes "distinct xs" and "i < length xs"
  shows "set (del_at i xs) = set xs - {xs ! i}"
proof -
  from assms(2) have eq: "xs = take i xs @ xs ! i # drop (Suc i) xs" by (rule del_at_split)
  with assms(1) have "distinct (take i xs @ xs ! i # drop (Suc i) xs)" by simp
  then have "xs ! i \<notin> set (take i xs) \<union> set (drop (Suc i) xs)" by simp
  moreover have "set xs = set (take i xs) \<union> {xs ! i} \<union> set (drop (Suc i) xs)"
    by (subst eq) auto
  ultimately show ?thesis by (auto simp: del_at_def)
qed

section \<open>Splitting, replacing, stripping\<close>

text \<open>
  \<open>s.split(c)\<close> is \<open>split_at (\<lambda>x. x = c) s\<close>; the general form splits at every character
  of a class, which is what a sequence of splits amounts to.
\<close>

fun split_at :: "(char \<Rightarrow> bool) \<Rightarrow> string \<Rightarrow> string list" where
  "split_at P [] = [[]]"
| "split_at P (x # xs) =
     (if P x then [] # split_at P xs
      else (case split_at P xs of [] \<Rightarrow> [[x]] | y # ys \<Rightarrow> (x # y) # ys))"

definition py_split :: "char \<Rightarrow> string \<Rightarrow> string list" where
  "py_split c s = split_at (\<lambda>x. x = c) s"

lemma split_at_nonempty [simp]: "split_at P s \<noteq> []"
  by (induction s) (auto split: list.splits)

lemma split_at_none: "list_all (\<lambda>c. \<not> P c) s \<Longrightarrow> split_at P s = [s]"
  by (induction s) auto

lemma split_at_append:
  assumes "list_all (\<lambda>c. \<not> P c) s" and "P c"
  shows "split_at P (s @ c # t) = s # split_at P t"
  using assms by (induction s) auto

lemma split_at_members: "t \<in> set (split_at P s) \<Longrightarrow> list_all (\<lambda>c. \<not> P c) t"
proof (induction s arbitrary: t)
  case Nil
  then show ?case by simp
next
  case (Cons x xs)
  obtain y ys where "split_at P xs = y # ys" by (cases "split_at P xs") auto
  with Cons show ?case by (auto split: if_splits)
qed

lemma split_at_split_at:
  "concat (map (split_at Q) (split_at P s)) = split_at (\<lambda>x. P x \<or> Q x) s"
proof (induction s)
  case Nil
  then show ?case by simp
next
  case (Cons x xs)
  obtain y ys where y: "split_at P xs = y # ys" by (cases "split_at P xs") auto
  obtain z zs where z: "split_at Q y = z # zs" by (cases "split_at Q y") auto
  from Cons y z have "split_at (\<lambda>x. P x \<or> Q x) xs = z # zs @ concat (map (split_at Q) ys)" by simp
  with y z show ?case by simp
qed

text \<open>\<open>s.replace(op, "")\<close>: occurrences found from the left, without overlap.\<close>

function py_remove :: "string \<Rightarrow> string \<Rightarrow> string" where
  "py_remove op s =
     (case s of [] \<Rightarrow> []
      | c # cs \<Rightarrow> if op \<noteq> [] \<and> take (length op) s = op then py_remove op (drop (length op) s)
                  else c # py_remove op cs)"
  by pat_completeness auto
termination
  by (relation "measure (\<lambda>(op, s). length s)") (auto simp: Suc_le_eq)

declare py_remove.simps [simp del]

lemma py_remove_Nil [simp]: "py_remove op [] = []"
  by (simp add: py_remove.simps)

lemma py_remove_Cons:
  "py_remove op (c # cs) =
     (if op \<noteq> [] \<and> take (length op) (c # cs) = op then py_remove op (drop (length op) (c # cs))
      else c # py_remove op cs)"
  by (subst py_remove.simps) simp

lemma py_remove_single: "py_remove [d] s = filter (\<lambda>c. c \<noteq> d) s"
  by (induction s) (auto simp: py_remove_Cons)

lemma set_py_remove: "set (py_remove op s) \<subseteq> set s"
proof (induction op s rule: py_remove.induct)
  case (1 op s)
  show ?case
  proof (cases s)
    case Nil
    then show ?thesis by simp
  next
    case (Cons c cs)
    show ?thesis
    proof (cases "op \<noteq> [] \<and> take (length op) s = op")
      case True
      with 1 Cons have "set (py_remove op (drop (length op) s)) \<subseteq> set (drop (length op) s)" by simp
      also have "\<dots> \<subseteq> set s" by (rule set_drop_subset)
      finally show ?thesis using True Cons by (simp add: py_remove_Cons)
    next
      case False
      with 1 Cons have "set (py_remove op cs) \<subseteq> set cs" by simp
      with False Cons show ?thesis by (auto simp: py_remove_Cons)
    qed
  qed
qed

definition rstrip :: "string \<Rightarrow> string" where
  "rstrip s = rev (dropWhile is_space (rev s))"

definition strip :: "string \<Rightarrow> string" where
  "strip s = dropWhile is_space (rstrip s)"

lemma rstrip_nl: "s \<noteq> [] \<Longrightarrow> \<not> is_space (last s) \<Longrightarrow> rstrip (s @ [nl]) = s"
  by (cases s rule: rev_cases) (simp_all add: rstrip_def)

fun py_join :: "string \<Rightarrow> string list \<Rightarrow> string" where
  "py_join sep [] = []"
| "py_join sep [s] = s"
| "py_join sep (s # t # ts) = s @ sep @ py_join sep (t # ts)"

section \<open>Decimal numbers\<close>

definition digit_char :: "nat \<Rightarrow> char" where
  "digit_char n = char_of (48 + n)"

fun str_nat :: "nat \<Rightarrow> string" where
  "str_nat n = (if n < 10 then [digit_char n] else str_nat (n div 10) @ [digit_char (n mod 10)])"

declare str_nat.simps [simp del]

definition digit_val :: "char \<Rightarrow> nat" where
  "digit_val c = of_char c - 48"

definition nat_of_digits :: "string \<Rightarrow> nat" where
  "nat_of_digits s = foldl (\<lambda>a c. 10 * a + digit_val c) 0 s"

text \<open>\<open>int(s)\<close> on a byte string: surrounding white space, an optional sign, digits.\<close>

definition py_int :: "string \<Rightarrow> int option" where
  "py_int s =
     (let t = strip s;
          neg = (take 1 t = ''-'');
          u = (if neg \<or> take 1 t = ''+'' then drop 1 t else t)
      in if u \<noteq> [] \<and> list_all is_digit u
         then Some (if neg then - int (nat_of_digits u) else int (nat_of_digits u))
         else None)"

lemma digit_val_char: "n < 10 \<Longrightarrow> digit_val (digit_char n) = n"
  by (simp add: digit_val_def digit_char_def)

lemma is_digit_digit_char: "n < 10 \<Longrightarrow> is_digit (digit_char n)"
  by (simp add: is_digit_def digit_char_def)

lemma str_nat_digits [simp]: "list_all is_digit (str_nat n)"
proof (induction n rule: str_nat.induct)
  case (1 n)
  show ?case
    by (subst str_nat.simps) (use 1 in \<open>auto simp: is_digit_digit_char\<close>)
qed

lemma str_nat_nonempty [simp]: "str_nat n \<noteq> []"
  by (subst str_nat.simps) simp

lemma nat_of_digits_snoc: "nat_of_digits (s @ [c]) = 10 * nat_of_digits s + digit_val c"
  by (simp add: nat_of_digits_def)

lemma nat_of_str_nat [simp]: "nat_of_digits (str_nat n) = n"
proof (induction n rule: str_nat.induct)
  case (1 n)
  show ?case
  proof (cases "n < 10")
    case True
    then show ?thesis by (subst str_nat.simps) (simp add: nat_of_digits_def digit_val_char)
  next
    case False
    with 1 have "nat_of_digits (str_nat (n div 10)) = n div 10" by simp
    with False show ?thesis
      by (subst str_nat.simps) (simp add: nat_of_digits_snoc digit_val_char)
  qed
qed

lemma str_nat_inject [simp]: "str_nat m = str_nat n \<longleftrightarrow> m = n"
  by (metis nat_of_str_nat)

lemma digit_not_space [py_class]: "is_digit c \<Longrightarrow> \<not> is_space c"
  by (simp add: alnum_not_space digit_alnum)

lemma digit_not_sign [py_class]:
  "is_digit c \<Longrightarrow> c \<noteq> CHR ''-''" "is_digit c \<Longrightarrow> c \<noteq> CHR ''+''"
  "is_digit c \<Longrightarrow> c \<noteq> CHR '':''" "is_digit c \<Longrightarrow> c \<noteq> CHR '')''" "is_digit c \<Longrightarrow> c \<noteq> CHR '' ''"
  by (auto simp: is_digit_def)

lemma strip_no_space: "list_all (\<lambda>c. \<not> is_space c) s \<Longrightarrow> strip s = s"
proof -
  assume "list_all (\<lambda>c. \<not> is_space c) s"
  then have all: "\<forall>c \<in> set s. \<not> is_space c" by (simp add: list_all_iff)
  then have "s \<noteq> [] \<longrightarrow> \<not> is_space (hd s) \<and> \<not> is_space (hd (rev s))"
    by (simp add: hd_rev)
  then have "dropWhile is_space (rev s) = rev s" and "dropWhile is_space s = s"
    by (auto simp add: dropWhile_eq_self_iff)
  then show ?thesis by (simp add: strip_def rstrip_def)
qed

lemma py_int_digits:
  assumes "list_all is_digit s" and "s \<noteq> []"
  shows "py_int s = Some (int (nat_of_digits s))"
proof -
  from assms(1) have "strip s = s"
    by (intro strip_no_space) (auto simp: list_all_iff dest: digit_not_space)
  moreover have "take 1 s \<noteq> ''-'' \<and> take 1 s \<noteq> ''+''"
  proof -
    obtain c cs where c: "s = c # cs" using assms(2) by (cases s) auto
    with assms(1) have "is_digit c" by simp
    with c show ?thesis by (simp add: digit_not_sign)
  qed
  ultimately show ?thesis using assms by (simp add: py_int_def)
qed

lemma py_int_str_nat [simp]: "py_int (str_nat n) = Some (int n)"
  by (simp add: py_int_digits)

lemma py_int_empty [simp]: "py_int [] = None"
  by (simp add: py_int_def strip_def rstrip_def)

section \<open>Paths\<close>

text \<open>\<open>posixpath.normpath\<close> and \<open>posixpath.basename\<close> of the standard library.\<close>

fun norm_comps :: "bool \<Rightarrow> string list \<Rightarrow> string list \<Rightarrow> string list" where
  "norm_comps rooted new [] = new"
| "norm_comps rooted new (c # cs) =
     (if c = [] \<or> c = ''.'' then norm_comps rooted new cs
      else if c \<noteq> ''..'' \<or> (\<not> rooted \<and> new = []) \<or> (new \<noteq> [] \<and> last new = ''..'')
           then norm_comps rooted (new @ [c]) cs
      else if new \<noteq> [] then norm_comps rooted (butlast new) cs
      else norm_comps rooted new cs)"

definition leading_slashes :: "string \<Rightarrow> nat" where
  "leading_slashes p =
     (if take 1 p \<noteq> ''/'' then 0
      else if take 2 p = ''//'' \<and> take 3 p \<noteq> ''///'' then 2 else 1)"

definition normpath :: "string \<Rightarrow> string" where
  "normpath p =
     (if p = [] then ''.''
      else let k = leading_slashes p;
               q = replicate k (CHR ''/'') @ py_join ''/'' (norm_comps (0 < k) [] (py_split (CHR ''/'') p))
           in if q = [] then ''.'' else q)"

definition basename :: "string \<Rightarrow> string" where
  "basename p = rev (takeWhile (\<lambda>c. c \<noteq> CHR ''/'') (rev p))"

lemma basename_no_slash: "CHR ''/'' \<notin> set (basename p)"
  by (auto simp: basename_def dest: set_takeWhileD)

lemma basename_append: "CHR ''/'' \<notin> set f \<Longrightarrow> basename (d @ CHR ''/'' # f) = f"
proof -
  assume "CHR ''/'' \<notin> set f"
  then have "\<forall>c \<in> set (rev f). c \<noteq> CHR ''/''" by auto
  then have "takeWhile (\<lambda>c. c \<noteq> CHR ''/'') (rev f @ CHR ''/'' # rev d) = rev f"
    by (subst takeWhile_append2) auto
  then show ?thesis by (simp add: basename_def)
qed

lemma basename_self: "CHR ''/'' \<notin> set f \<Longrightarrow> basename f = f"
proof -
  assume "CHR ''/'' \<notin> set f"
  then have "takeWhile (\<lambda>c. c \<noteq> CHR ''/'') (rev f) = rev f"
    by (subst takeWhile_eq_all_conv) auto
  then show ?thesis by (simp only: basename_def rev_rev_ident)
qed

lemma norm_comps_append:
  "norm_comps rooted new (cs @ ds) = norm_comps rooted (norm_comps rooted new cs) ds"
  by (induction rooted new cs rule: norm_comps.induct) auto

lemma py_join_snoc: "cs \<noteq> [] \<Longrightarrow> py_join sep (cs @ [c]) = py_join sep cs @ sep @ c"
  by (induction sep cs rule: py_join.induct) auto

lemma split_at_last:
  assumes "P c" and "list_all (\<lambda>x. \<not> P x) f"
  shows "split_at P (d @ c # f) = split_at P d @ [f]"
proof (induction d)
  case Nil
  with assms show ?case by (simp add: split_at_none)
next
  case (Cons x d)
  obtain y ys where "split_at P d = y # ys" by (cases "split_at P d") auto
  with Cons show ?case by auto
qed

text \<open>The base name of a path that ends in a proper file name is that file name.\<close>

lemma basename_normpath:
  assumes f: "f \<noteq> []" "f \<noteq> ''.''" "f \<noteq> ''..''" "CHR ''/'' \<notin> set f"
  shows "basename (normpath (d @ CHR ''/'' # f)) = f"
proof -
  let ?p = "d @ CHR ''/'' # f"
  let ?k = "leading_slashes ?p"
  let ?cs = "norm_comps (0 < ?k) [] (py_split (CHR ''/'') d)"
  have "list_all (\<lambda>x. x \<noteq> CHR ''/'') f" using f(4) by (auto simp: list_all_iff)
  then have sp: "py_split (CHR ''/'') ?p = py_split (CHR ''/'') d @ [f]"
    unfolding py_split_def by (intro split_at_last) auto
  have nc: "norm_comps (0 < ?k) [] (py_split (CHR ''/'') ?p) = ?cs @ [f]"
    using f by (simp add: sp norm_comps_append)
  have np: "normpath ?p = replicate ?k (CHR ''/'') @ py_join ''/'' (?cs @ [f])"
  proof -
    have "py_join ''/'' (?cs @ [f]) \<noteq> []"
      using f(1) by (cases "?cs = []") (auto simp: py_join_snoc)
    then show ?thesis by (simp add: normpath_def Let_def nc)
  qed
  show ?thesis
  proof (cases "?cs = []")
    case False
    then have "normpath ?p = (replicate ?k (CHR ''/'') @ py_join ''/'' ?cs) @ CHR ''/'' # f"
      by (simp add: np py_join_snoc)
    then show ?thesis by (simp only: basename_append [OF f(4)])
  next
    case True
    show ?thesis
    proof (cases ?k)
      case 0
      with True np show ?thesis using basename_self [OF f(4)] by simp
    next
      case (Suc k)
      with True np have "normpath ?p = replicate k (CHR ''/'') @ CHR ''/'' # f"
        by (simp add: replicate_app_Cons_same)
      then show ?thesis by (simp only: basename_append [OF f(4)])
    qed
  qed
qed

lemma basename_normpath_self:
  assumes f: "f \<noteq> []" "f \<noteq> ''.''" "f \<noteq> ''..''" "CHR ''/'' \<notin> set f"
  shows "basename (normpath f) = f"
proof -
  have "list_all (\<lambda>x. x \<noteq> CHR ''/'') f" using f(4) by (auto simp: list_all_iff)
  then have sp: "py_split (CHR ''/'') f = [f]"
    unfolding py_split_def by (intro split_at_none) auto
  have "leading_slashes f = 0" using f by (cases f) (auto simp: leading_slashes_def)
  with f sp have "normpath f = f" by (simp add: normpath_def)
  with f(4) show ?thesis by (simp add: basename_self)
qed

text \<open>Normalising a path brings in no new characters but slashes and dots.\<close>

lemma split_at_chars: "t \<in> set (split_at P s) \<Longrightarrow> set t \<subseteq> set s"
proof (induction s arbitrary: t)
  case Nil
  then show ?case by simp
next
  case (Cons x xs)
  obtain y ys where "split_at P xs = y # ys" by (cases "split_at P xs") auto
  with Cons show ?case by (fastforce split: if_splits)
qed

lemma norm_comps_members: "set (norm_comps rooted new cs) \<subseteq> set new \<union> set cs"
proof (induction rooted new cs rule: norm_comps.induct)
  case (2 rooted new c cs)
  then show ?case by (auto dest: in_set_butlastD)
qed simp

lemma py_join_chars: "set (py_join sep cs) \<subseteq> set sep \<union> \<Union> (set ` set cs)"
  by (induction sep cs rule: py_join.induct) auto

lemma normpath_chars: "set (normpath p) \<subseteq> set p \<union> {CHR ''/'', CHR ''.''}"
proof -
  let ?cs = "norm_comps (0 < leading_slashes p) [] (py_split (CHR ''/'') p)"
  have "\<Union> (set ` set ?cs) \<subseteq> set p"
    using norm_comps_members [of "0 < leading_slashes p" "[]" "py_split (CHR ''/'') p"]
    by (auto simp: py_split_def dest!: split_at_chars subsetD)
  moreover have "set (py_join ''/'' ?cs) \<subseteq> {CHR ''/''} \<union> \<Union> (set ` set ?cs)"
    using py_join_chars [of "''/''" ?cs] by simp
  ultimately have "set (py_join ''/'' ?cs) \<subseteq> set p \<union> {CHR ''/''}" by blast
  then show ?thesis by (auto simp: normpath_def Let_def)
qed

lemma basename_chars: "set (basename p) \<subseteq> set p"
  by (auto simp: basename_def dest: set_takeWhileD)

section \<open>Words and representations\<close>

text \<open>\<open>s.split()\<close>, \<open>repr\<close> of a byte string, and \<open>str\<close> of a list of strings or of numbers.\<close>

definition py_words :: "string \<Rightarrow> string list" where
  "py_words s = filter (\<lambda>w. w \<noteq> []) (split_at is_space s)"

definition hex_digit :: "nat \<Rightarrow> char" where
  "hex_digit n = (if n < 10 then digit_char n else char_of (87 + n))"

definition repr_char :: "char \<Rightarrow> char \<Rightarrow> string" where
  "repr_char q c =
     (if c = q \<or> c = CHR 0x5C then [CHR 0x5C, c]
      else if c = tab then CHR 0x5C # ''t''
      else if c = nl then CHR 0x5C # ''n''
      else if c = CHR 0x0D then CHR 0x5C # ''r''
      else let n = of_char c :: nat
           in if n < 32 \<or> 127 \<le> n then CHR 0x5C # CHR ''x'' # [hex_digit (n div 16), hex_digit (n mod 16)]
              else [c])"

definition py_repr :: "string \<Rightarrow> string" where
  "py_repr s =
     (let q = (if CHR 0x27 \<in> set s \<and> CHR 0x22 \<notin> set s then CHR 0x22 else CHR 0x27)
      in [q] @ concat (map (repr_char q) s) @ [q])"

definition str_strings :: "string list \<Rightarrow> string" where
  "str_strings xs = ''['' @ py_join '', '' (map py_repr xs) @ '']''"

definition str_nats :: "nat list \<Rightarrow> string" where
  "str_nats xs = ''['' @ py_join '', '' (map str_nat xs) @ '']''"

end
