(* ===== verification/PyRegex.thy ===== *)
theory PyRegex
  imports PyPrelude
begin

text \<open>
  The fragment of Python's \<open>re\<close> the scripts use: character classes, greedy repetition of a
  class, sequence, alternation, greedy optional parts, numbered groups and \<open>$\<close>.
  \<open>match_k\<close> is the backtracking matcher, with a continuation for what follows;
  \<open>reads\<close> is the declarative meaning of a pattern. \<open>re_match_iff\<close> and
  \<open>re_match_sound\<close> connect the two: \<open>re.match\<close> succeeds exactly when some reading of a
  prefix exists, and the groups it returns are those of such a reading. The lemmas of the
  last section say what the greedy matcher does on a text of a known shape; the components
  that parse lines rest on them.
\<close>

section \<open>Patterns and the matcher\<close>

datatype re =
    Eps
  | One "char \<Rightarrow> bool"
  | Many "char \<Rightarrow> bool"
  | Seq re re
  | Alt re re
  | Opt re
  | Grp nat re
  | Eol

type_synonym groups = "nat \<Rightarrow> string option"

fun lit :: "string \<Rightarrow> re" where
  "lit [] = Eps"
| "lit (c # cs) = Seq (One (\<lambda>x. x = c)) (lit cs)"

fun seqs :: "re list \<Rightarrow> re" where
  "seqs [] = Eps"
| "seqs (r # rs) = Seq r (seqs rs)"

text \<open>\<open>x+\<close> over a class, and \<open>.\<close>: any byte but the newline.\<close>

definition Many1 :: "(char \<Rightarrow> bool) \<Rightarrow> re" where
  "Many1 p = Seq (One p) (Many p)"

definition any_char :: "char \<Rightarrow> bool" where
  "any_char c \<longleftrightarrow> c \<noteq> nl"

definition or_else :: "'a option \<Rightarrow> 'a option \<Rightarrow> 'a option" where
  "or_else a b = (case a of None \<Rightarrow> b | Some x \<Rightarrow> Some x)"

lemma or_else_simps [simp]: "or_else None b = b" "or_else (Some x) b = Some x" "or_else a None = a"
  by (simp_all add: or_else_def split: option.splits)

lemma or_else_eq_None [simp]: "or_else a b = None \<longleftrightarrow> a = None \<and> b = None"
  by (auto simp: or_else_def split: option.splits)

lemma or_else_Some: "or_else a b = Some x \<longleftrightarrow> a = Some x \<or> a = None \<and> b = Some x"
  by (auto simp: or_else_def split: option.splits)

text \<open>Greedy: the longest run first, then one character less at a time.\<close>

fun star_k :: "(char \<Rightarrow> bool) \<Rightarrow> (string \<Rightarrow> 'r option) \<Rightarrow> string \<Rightarrow> 'r option" where
  "star_k p k [] = k []"
| "star_k p k (c # cs) = (if p c then or_else (star_k p k cs) (k (c # cs)) else k (c # cs))"

fun match_k :: "re \<Rightarrow> string \<Rightarrow> groups \<Rightarrow> (string \<Rightarrow> groups \<Rightarrow> 'r option) \<Rightarrow> 'r option" where
  "match_k Eps s g k = k s g"
| "match_k (One p) s g k = (case s of [] \<Rightarrow> None | c # cs \<Rightarrow> if p c then k cs g else None)"
| "match_k (Many p) s g k = star_k p (\<lambda>s'. k s' g) s"
| "match_k (Seq r q) s g k = match_k r s g (\<lambda>s' g'. match_k q s' g' k)"
| "match_k (Alt r q) s g k = or_else (match_k r s g k) (match_k q s g k)"
| "match_k (Opt r) s g k = or_else (match_k r s g k) (k s g)"
| "match_k (Grp n r) s g k =
     match_k r s g (\<lambda>s' g'. k s' (g'(n \<mapsto> take (length s - length s') s)))"
| "match_k Eol s g k = (if s = [] \<or> s = [nl] then k s g else None)"

definition re_match :: "re \<Rightarrow> string \<Rightarrow> groups option" where
  "re_match r s = match_k r s Map.empty (\<lambda>_ g. Some g)"

text \<open>The truth value of a match object, as in \<open>if blockStart:\<close>.\<close>

definition re_test :: "re \<Rightarrow> string \<Rightarrow> bool" where
  "re_test r s \<longleftrightarrow> re_match r s \<noteq> None"

text \<open>\<open>m.group(n)\<close> for a group that took part in the match.\<close>

definition group :: "groups \<Rightarrow> nat \<Rightarrow> string" where
  "group g n = (case g n of None \<Rightarrow> [] | Some s \<Rightarrow> s)"

section \<open>What a pattern means\<close>

inductive reads :: "re \<Rightarrow> string \<Rightarrow> groups \<Rightarrow> string \<Rightarrow> groups \<Rightarrow> bool" where
  reads_Eps: "reads Eps s g s g"
| reads_One: "p c \<Longrightarrow> reads (One p) (c # s) g s g"
| reads_Many: "list_all p w \<Longrightarrow> reads (Many p) (w @ s) g s g"
| reads_Seq: "reads r s g s' g' \<Longrightarrow> reads q s' g' s'' g'' \<Longrightarrow> reads (Seq r q) s g s'' g''"
| reads_Alt1: "reads r s g s' g' \<Longrightarrow> reads (Alt r q) s g s' g'"
| reads_Alt2: "reads q s g s' g' \<Longrightarrow> reads (Alt r q) s g s' g'"
| reads_Opt1: "reads r s g s' g' \<Longrightarrow> reads (Opt r) s g s' g'"
| reads_Opt0: "reads (Opt r) s g s g"
| reads_Grp: "reads r (w @ s) g s g' \<Longrightarrow> reads (Grp n r) (w @ s) g s (g'(n \<mapsto> w))"
| reads_Eol: "s = [] \<or> s = [nl] \<Longrightarrow> reads Eol s g s g"

inductive_cases reads_EpsE: "reads Eps s g s' g'"
inductive_cases reads_OneE: "reads (One p) s g s' g'"
inductive_cases reads_ManyE: "reads (Many p) s g s' g'"
inductive_cases reads_SeqE: "reads (Seq r q) s g s' g'"
inductive_cases reads_AltE: "reads (Alt r q) s g s' g'"
inductive_cases reads_OptE: "reads (Opt r) s g s' g'"
inductive_cases reads_GrpE: "reads (Grp n r) s g s' g'"
inductive_cases reads_EolE: "reads Eol s g s' g'"

lemma reads_suffix: "reads r s g s' g' \<Longrightarrow> \<exists>w. s = w @ s'"
  by (induction rule: reads.induct) force+

lemma star_k_sound:
  "star_k p k s = Some x \<Longrightarrow> \<exists>w s'. s = w @ s' \<and> list_all p w \<and> k s' = Some x"
proof (induction s)
  case Nil
  then show ?case by simp
next
  case (Cons c cs)
  show ?case
  proof (cases "p c \<and> star_k p k cs \<noteq> None")
    case True
    with Cons obtain w s' where "cs = w @ s'" "list_all p w" "k s' = Some x" by auto
    with True have "c # cs = (c # w) @ s'" "list_all p (c # w)" "k s' = Some x" by auto
    then show ?thesis by blast
  next
    case False
    with Cons.prems have "k (c # cs) = Some x" by (auto split: if_splits)
    then have "c # cs = [] @ c # cs \<and> list_all p [] \<and> k (c # cs) = Some x" by simp
    then show ?thesis by blast
  qed
qed

lemma star_k_complete: "list_all p w \<Longrightarrow> k s' \<noteq> None \<Longrightarrow> star_k p k (w @ s') \<noteq> None"
proof (induction w)
  case Nil
  then show ?case by (cases s') (simp_all del: not_None_eq)
qed (simp del: not_None_eq)

lemma match_k_sound:
  "match_k r s g k = Some x \<Longrightarrow> \<exists>s' g'. reads r s g s' g' \<and> k s' g' = Some x"
proof (induction r arbitrary: s g k)
  case (Many p)
  then obtain w s' where w: "s = w @ s'" "list_all p w" "k s' g = Some x"
    using star_k_sound [of p "\<lambda>s'. k s' g" s x] by auto
  then have "reads (Many p) s g s' g" by (simp add: reads_Many)
  with w(3) show ?case by blast
next
  case (Seq r q)
  then obtain s1 g1 where 1: "reads r s g s1 g1" "match_k q s1 g1 k = Some x" by fastforce
  with Seq.IH(2) obtain s2 g2 where "reads q s1 g1 s2 g2" "k s2 g2 = Some x" by blast
  with 1 show ?case by (blast intro: reads_Seq)
next
  case (Alt r q)
  then have "match_k r s g k = Some x \<or> match_k q s g k = Some x" by (auto simp: or_else_Some)
  with Alt.IH show ?case by (blast intro: reads_Alt1 reads_Alt2)
next
  case (Opt r)
  then have "match_k r s g k = Some x \<or> k s g = Some x" by (auto simp: or_else_Some)
  with Opt.IH show ?case by (blast intro: reads_Opt1 reads_Opt0)
next
  case (Grp n r)
  then obtain s1 g1 where 1: "reads r s g s1 g1"
    and 2: "k s1 (g1(n \<mapsto> take (length s - length s1) s)) = Some x" by fastforce
  from reads_suffix [OF 1] obtain w where w: "s = w @ s1" ..
  with 1 have "reads (Grp n r) s g s1 (g1(n \<mapsto> w))" by (auto intro: reads_Grp)
  with 2 w show ?case by auto
qed (auto intro: reads.intros split: list.splits if_splits)

lemma match_k_complete:
  "reads r s g s' g' \<Longrightarrow> k s' g' \<noteq> None \<Longrightarrow> match_k r s g k \<noteq> None"
proof (induction arbitrary: k rule: reads.induct)
  case (reads_Many p w s g)
  then show ?case by (simp add: star_k_complete del: not_None_eq)
qed (auto simp del: not_None_eq simp flip: not_None_eq)

text \<open>\<open>re.match\<close> finds a match exactly when the pattern reads some prefix of the text.\<close>

lemma re_match_iff: "re_match r s \<noteq> None \<longleftrightarrow> (\<exists>s' g. reads r s Map.empty s' g)"
proof
  assume "re_match r s \<noteq> None"
  then show "\<exists>s' g. reads r s Map.empty s' g"
    unfolding re_match_def using match_k_sound by fastforce
next
  assume "\<exists>s' g. reads r s Map.empty s' g"
  then show "re_match r s \<noteq> None"
    unfolding re_match_def by (metis match_k_complete option.distinct(1))
qed

lemma re_match_sound: "re_match r s = Some g \<Longrightarrow> \<exists>s'. reads r s Map.empty s' g"
  unfolding re_match_def using match_k_sound by fastforce

lemma re_test_iff: "re_test r s \<longleftrightarrow> (\<exists>s' g. reads r s Map.empty s' g)"
  by (simp only: re_test_def re_match_iff)

lemma reads_lit: "reads (lit w) s g s' g' \<longleftrightarrow> s = w @ s' \<and> g' = g"
  by (induction w arbitrary: s)
     (auto elim!: reads_EpsE reads_SeqE reads_OneE intro: reads.intros)

lemma reads_Seq_lit: "reads (Seq (lit w) r) s g s' g' \<longleftrightarrow> (\<exists>t. s = w @ t \<and> reads r t g s' g')"
  by (auto elim!: reads_SeqE intro: reads_Seq simp: reads_lit)

text \<open>
  Acceptance alone, without groups: the pattern reads a prefix such that the rest satisfies \<open>Q\<close>.
  Its equations turn a concrete pattern into a description of the texts it accepts.
\<close>

primrec accepts :: "re \<Rightarrow> (string \<Rightarrow> bool) \<Rightarrow> string \<Rightarrow> bool" where
  "accepts Eps Q s = Q s"
| "accepts (One p) Q s = (\<exists>c t. s = c # t \<and> p c \<and> Q t)"
| "accepts (Many p) Q s = (\<exists>w t. s = w @ t \<and> list_all p w \<and> Q t)"
| "accepts (Seq r q) Q s = accepts r (accepts q Q) s"
| "accepts (Alt r q) Q s = (accepts r Q s \<or> accepts q Q s)"
| "accepts (Opt r) Q s = (accepts r Q s \<or> Q s)"
| "accepts (Grp n r) Q s = accepts r Q s"
| "accepts Eol Q s = ((s = [] \<or> s = [nl]) \<and> Q s)"

lemma accepts_reads: "accepts r Q s \<longleftrightarrow> (\<exists>s' g'. reads r s g s' g' \<and> Q s')"
proof (induction r arbitrary: Q s g)
  case (Seq r q)
  show ?case
    unfolding accepts.simps Seq.IH(1) [of _ s g]
    using Seq.IH(2) [of Q] by (blast elim: reads_SeqE intro: reads_Seq)
next
  case (Grp n r)
  show ?case
  proof
    assume "accepts (Grp n r) Q s"
    then obtain s' g' where 1: "reads r s g s' g'" "Q s'" using Grp.IH [of Q s g] by auto
    from reads_suffix [OF 1(1)] obtain w where "s = w @ s'" ..
    with 1 have "reads (Grp n r) s g s' (g'(n \<mapsto> w))" by (auto intro: reads_Grp)
    with 1(2) show "\<exists>s' g'. reads (Grp n r) s g s' g' \<and> Q s'" by blast
  next
    assume "\<exists>s' g'. reads (Grp n r) s g s' g' \<and> Q s'"
    then show "accepts (Grp n r) Q s" using Grp.IH [of Q s g] by (auto elim!: reads_GrpE)
  qed
next
  case (Many p)
  show ?case by (auto elim!: reads_ManyE intro: reads_Many)
next
  case (Alt r q)
  show ?case
    unfolding accepts.simps Alt.IH(1) [of _ s g] Alt.IH(2) [of _ s g]
    by (blast elim: reads_AltE intro: reads_Alt1 reads_Alt2)
next
  case (Opt r)
  show ?case
    unfolding accepts.simps Opt.IH [of _ s g]
    by (blast elim: reads_OptE intro: reads_Opt1 reads_Opt0)
qed (auto elim!: reads_EpsE reads_OneE reads_EolE intro: reads.intros)

lemma re_test_accepts: "re_test r s \<longleftrightarrow> accepts r (\<lambda>_. True) s"
  by (simp add: re_test_iff accepts_reads [of r _ s Map.empty])

lemma accepts_lit: "accepts (lit w) Q s \<longleftrightarrow> (\<exists>t. s = w @ t \<and> Q t)"
  by (auto simp: accepts_reads [of _ _ _ Map.empty] reads_lit)

section \<open>The matcher on texts of a known shape\<close>

lemma match_lit [simp]: "match_k (lit w) (w @ s) g k = k s g"
  by (induction w) auto

lemma match_lit_self [simp]: "match_k (lit w) w g k = k [] g"
  using match_lit [of w "[]"] by simp

text \<open>A run that ends where the class ends, when what follows succeeds there.\<close>

lemma star_k_run:
  assumes "list_all p w" and "s = [] \<or> \<not> p (hd s)" and "k s = Some x"
  shows "star_k p k (w @ s) = Some x"
  using assms
proof (induction w)
  case Nil
  then show ?case by (cases s) auto
qed auto

text \<open>A run followed by more of the class, where what follows fails inside the rest.\<close>

lemma star_k_stop:
  assumes "list_all p w" and "\<forall>t. (\<exists>u. s = u @ t \<and> u \<noteq> [] \<and> list_all p u) \<longrightarrow> k t = None"
    and "k s = Some x"
  shows "star_k p k (w @ s) = Some x"
  using assms
proof (induction w)
  case Nil
  show ?case
  proof (cases s)
    case Nil
    with \<open>k s = Some x\<close> show ?thesis by simp
  next
    case (Cons c cs)
    have "star_k p k cs = None" if "p c"
    proof (rule ccontr)
      assume "star_k p k cs \<noteq> None"
      then obtain y where "star_k p k cs = Some y" by blast
      then obtain u t where "cs = u @ t" "list_all p u" "k t = Some y"
        using star_k_sound by metis
      then have "s = (c # u) @ t \<and> (c # u) \<noteq> [] \<and> list_all p (c # u)"
        using Cons that by simp
      with Nil.prems(2) \<open>k t = Some y\<close> show False by (metis option.distinct(1))
    qed
    with Cons \<open>k s = Some x\<close> show ?thesis by auto
  qed
qed auto

lemma star_k_none:
  assumes "\<And>u t. s = u @ t \<Longrightarrow> list_all p u \<Longrightarrow> k t = None"
  shows "star_k p k s = None"
proof (rule ccontr)
  assume "star_k p k s \<noteq> None"
  then obtain y where "star_k p k s = Some y" by blast
  then show False using star_k_sound [of p k s y] assms by (metis option.distinct(1))
qed

lemma star_k_skip: "s = [] \<or> \<not> p (hd s) \<Longrightarrow> star_k p k s = k s"
  by (cases s) auto

lemma take_length_prefix [simp]: "take (length (w @ s) - length s) (w @ s) = w"
  by simp

text \<open>
  Rules that run a sequence of patterns over a text whose parts are known, one per pattern; they
  are collected as \<open>re_run\<close>. Each says: if the rest of the sequence succeeds on the rest of the
  text, so does the whole.
\<close>

named_theorems re_run

lemma run_nil [re_run]: "k s g = Some x \<Longrightarrow> match_k (seqs []) s g k = Some x"
  by simp

lemma run_lit [re_run]:
  "match_k (seqs rs) s g k = Some x \<Longrightarrow> match_k (seqs (lit w # rs)) (w @ s) g k = Some x"
  by simp

lemma run_many [re_run]:
  "list_all p w \<Longrightarrow> s = [] \<or> \<not> p (hd s) \<Longrightarrow> match_k (seqs rs) s g k = Some x \<Longrightarrow>
   match_k (seqs (Many p # rs)) (w @ s) g k = Some x"
  by (simp add: star_k_run)

lemma run_group_many [re_run]:
  "list_all p w \<Longrightarrow> s = [] \<or> \<not> p (hd s) \<Longrightarrow> match_k (seqs rs) s (g(n \<mapsto> w)) k = Some x \<Longrightarrow>
   match_k (seqs (Grp n (Many p) # rs)) (w @ s) g k = Some x"
  by (simp add: star_k_run)

lemma run_group_lit_many [re_run]:
  assumes "list_all p w" and "s = [] \<or> \<not> p (hd s)"
    and "match_k (seqs rs) s (g(n \<mapsto> v @ w)) k = Some x"
  shows "match_k (seqs (Grp n (Seq (lit v) (Many p)) # rs)) ((v @ w) @ s) g k = Some x"
proof -
  let ?k = "\<lambda>s'. match_k (seqs rs) s' (g(n \<mapsto> take (length ((v @ w) @ s) - length s') ((v @ w) @ s))) k"
  have "?k s = Some x" using assms(3) by (simp only: take_length_prefix)
  then have "star_k p ?k (w @ s) = Some x" using assms(1,2) by (intro star_k_run) auto
  then show ?thesis by simp
qed

text \<open>A group over a class that could run on, but where the rest fails if it does.\<close>

lemma run_group_stop:
  assumes "list_all p w"
    and "\<And>u t g'. s = u @ t \<Longrightarrow> u \<noteq> [] \<Longrightarrow> list_all p u \<Longrightarrow> match_k (seqs rs) t g' k = None"
    and "match_k (seqs rs) s (g(n \<mapsto> w)) k = Some x"
  shows "match_k (seqs (Grp n (Many p) # rs)) (w @ s) g k = Some x"
proof -
  let ?k = "\<lambda>s'. match_k (seqs rs) s' (g(n \<mapsto> take (length (w @ s) - length s') (w @ s))) k"
  have "?k s = Some x" using assms(3) by (simp only: take_length_prefix)
  with assms(1,2) have "star_k p ?k (w @ s) = Some x" by (intro star_k_stop) auto
  then show ?thesis by simp
qed

lemma run_opt [re_run]:
  "match_k (seqs (r # rs)) s g k = Some x \<Longrightarrow> match_k (seqs (Opt r # rs)) s g k = Some x"
  by simp

lemma run_opt_skip:
  "match_k r s g (\<lambda>s' g'. match_k (seqs rs) s' g' k) = None \<Longrightarrow> match_k (seqs rs) s g k = Some x \<Longrightarrow>
   match_k (seqs (Opt r # rs)) s g k = Some x"
  by simp

lemma lit_fails: "s = [] \<or> hd s \<noteq> c \<Longrightarrow> match_k (lit (c # w)) s g k = None"
  by (cases s) auto

lemma many_then_fails:
  assumes "\<And>u t g'. s = u @ t \<Longrightarrow> list_all p u \<Longrightarrow> match_k (seqs rs) t g' k = None"
  shows "match_k (seqs (Many p # rs)) s g k = None"
  using assms by (auto intro!: star_k_none)

end
