(* ===== verification/ReportFiles.thy ===== *)
theory ReportFiles
  imports PyRegex
begin

text \<open>
  What \<open>scripts/tsanOutputParser.py\<close> and \<open>scripts/valgrindOutputParser.py\<close> share: the file
  system they write to, lines of an open file, \<open>writeResult2File\<close>, the search for the last
  complete block (\<open>checkBlockIntegrity\<close>), the bounded line loop, and the numbered
  \<open>.race\<close> files. The locale \<open>line_loop\<close> is the interface between a parser (its step and its
  invariant) and the loop that drives it; \<open>race_sink\<close> is the interface between a parser and
  the numbered files, with what it promises about files already written.
\<close>

section \<open>Files\<close>

type_synonym fs = "string \<Rightarrow> string option"

definition fs_create :: "string \<Rightarrow> fs \<Rightarrow> fs" where
  "fs_create name d = d(name \<mapsto> [])"

definition fs_append :: "string \<Rightarrow> string \<Rightarrow> fs \<Rightarrow> fs" where
  "fs_append name s d = d(name \<mapsto> (case d name of None \<Rightarrow> [] | Some t \<Rightarrow> t) @ s)"

text \<open>The lines of a text file, each with its newline; the last may have none.\<close>

fun lines_of :: "string \<Rightarrow> string list" where
  "lines_of [] = []"
| "lines_of (c # cs) =
     (if c = nl then [nl] # lines_of cs
      else (case lines_of cs of [] \<Rightarrow> [[c]] | l # ls \<Rightarrow> (c # l) # ls))"

lemma concat_lines_of [simp]: "concat (lines_of s) = s"
  by (induction s) (auto split: list.splits)

lemma lines_of_line:
  "nl \<notin> set l \<Longrightarrow> lines_of (l @ nl # s) = (l @ [nl]) # lines_of s"
  by (induction l) auto

lemma lines_of_concat:
  assumes "\<forall>l \<in> set ls. nl \<notin> set l"
  shows "lines_of (concat (map (\<lambda>l. l @ [nl]) ls)) = map (\<lambda>l. l @ [nl]) ls"
  using assms by (induction ls) (simp_all add: lines_of_line)

lemma lines_of_lines:
  "\<forall>l \<in> set ls. \<exists>m. l = m @ [nl] \<and> nl \<notin> set m \<Longrightarrow> lines_of (concat ls) = ls"
  by (induction ls) (auto simp: lines_of_line)

section \<open>Writing results\<close>

fun writeResult2File :: "string \<Rightarrow> string list \<Rightarrow> fs \<Rightarrow> fs" where
  "writeResult2File fout [] d = d"
| "writeResult2File fout (entry # es) d = writeResult2File fout es (fs_append fout entry d)"

definition race_name :: "string \<Rightarrow> nat \<Rightarrow> string" where
  "race_name out n = out @ str_nat n @ ''.race''"

text \<open>
  The block the parsers repeat: open \<open>out + str(outFileNo) + ".race"\<close> for writing, then
  \<open>writeResult2File\<close> for each list in turn.
\<close>

fun write_lists :: "string \<Rightarrow> string list list \<Rightarrow> fs \<Rightarrow> fs" where
  "write_lists fout [] d = d"
| "write_lists fout (l # ls) d = write_lists fout ls (writeResult2File fout l d)"

definition write_race :: "string \<Rightarrow> nat \<Rightarrow> string list list \<Rightarrow> fs \<Rightarrow> fs" where
  "write_race out n ls d = write_lists (race_name out n) ls (fs_create (race_name out n) d)"

lemma race_name_inject [simp]: "race_name out m = race_name out n \<longleftrightarrow> m = n"
  by (simp add: race_name_def)

lemma writeResult2File_same:
  "d fout = Some t \<Longrightarrow> writeResult2File fout es d fout = Some (t @ concat es)"
  by (induction es arbitrary: d t) (simp_all add: fs_append_def)

lemma writeResult2File_other: "name \<noteq> fout \<Longrightarrow> writeResult2File fout es d name = d name"
  by (induction es arbitrary: d) (simp_all add: fs_append_def)

lemma write_lists_same:
  "d fout = Some t \<Longrightarrow> write_lists fout ls d fout = Some (t @ concat (concat ls))"
  by (induction ls arbitrary: d t) (simp_all add: writeResult2File_same)

lemma write_lists_other: "name \<noteq> fout \<Longrightarrow> write_lists fout ls d name = d name"
  by (induction ls arbitrary: d) (simp_all add: writeResult2File_other)

lemma write_race_same [simp]: "write_race out n ls d (race_name out n) = Some (concat (concat ls))"
  by (simp add: write_race_def fs_create_def write_lists_same)

lemma write_race_other: "name \<noteq> race_name out n \<Longrightarrow> write_race out n ls d name = d name"
  by (simp add: write_race_def fs_create_def write_lists_other)

lemma write_race_upd: "write_race out n ls d = d(race_name out n \<mapsto> concat (concat ls))"
  by (rule ext) (simp add: write_race_other)

text \<open>
  A sink of numbered outputs: storing number \<open>n\<close> leaves every other name alone. The client's
  facts are about a run that has stored the numbers below \<open>n\<close>: all satisfy \<open>good\<close>, and no
  other name has changed.
\<close>

locale race_sink =
  fixes name :: "nat \<Rightarrow> 'n"
    and store :: "nat \<Rightarrow> 'c \<Rightarrow> ('n \<Rightarrow> 'v option) \<Rightarrow> ('n \<Rightarrow> 'v option)"
    and content :: "'c \<Rightarrow> 'v"
  assumes name_inj: "name m = name n \<Longrightarrow> m = n"
    and store_same: "store n c d (name n) = Some (content c)"
    and store_other: "x \<noteq> name n \<Longrightarrow> store n c d x = d x"
begin

lemma stored_step:
  assumes "\<forall>m < n. \<exists>v. d (name m) = Some v \<and> good v" and "good (content c)"
  shows "\<forall>m < Suc n. \<exists>v. store n c d (name m) = Some v \<and> good v"
proof (intro allI impI)
  fix m
  assume "m < Suc n"
  then consider "m = n" | "m < n" by linarith
  then show "\<exists>v. store n c d (name m) = Some v \<and> good v"
  proof cases
    case 1
    with assms(2) show ?thesis by (simp add: store_same)
  next
    case 2
    then have "name m \<noteq> name n" using name_inj by blast
    with 2 assms(1) show ?thesis by (simp add: store_other)
  qed
qed

lemma untouched_step:
  assumes "\<forall>x. x \<notin> name ` {..<n} \<longrightarrow> d x = d0 x"
  shows "\<forall>x. x \<notin> name ` {..<Suc n} \<longrightarrow> store n c d x = d0 x"
  using assms by (auto simp: store_other lessThan_Suc)

lemma earlier_kept: "m \<noteq> n \<Longrightarrow> store n c d (name m) = d (name m)"
  using name_inj store_other by metis

end

interpretation races: race_sink "race_name out" "write_race out" "\<lambda>ls. concat (concat ls)"
  for out
  by unfold_locales (simp_all add: write_race_other)

section \<open>The last complete block\<close>

text \<open>
  \<open>for i, line in enumerate(fp, 1): if i >= baseIndex: if end.match(line): boudaryIndex = i\<close>.
\<close>

fun last_block :: "re \<Rightarrow> nat \<Rightarrow> nat \<Rightarrow> string list \<Rightarrow> nat \<Rightarrow> nat" where
  "last_block end_re base i [] bound = bound"
| "last_block end_re base i (l # ls) bound =
     last_block end_re base (Suc i) ls (if base \<le> i \<and> re_test end_re l then i else bound)"

lemma last_block_snoc:
  "last_block e base i (ls @ [l]) b =
     (if base \<le> i + length ls \<and> re_test e l then i + length ls else last_block e base i ls b)"
  by (induction ls arbitrary: i b) auto

lemma last_block_none:
  "\<forall>l \<in> set ls. \<not> re_test e l \<Longrightarrow> last_block e base i ls b = b"
  by (induction ls arbitrary: i b) auto

lemma last_block_append:
  "last_block e base i (ls @ ms) b = last_block e base (i + length ls) ms (last_block e base i ls b)"
  by (induction ls arbitrary: i b) auto

lemma last_block_range:
  "last_block e base i ls b = b \<or>
   i \<le> last_block e base i ls b \<and> last_block e base i ls b < i + length ls"
proof (induction ls arbitrary: i b)
  case Nil
  then show ?case by simp
next
  case (Cons l ls)
  show ?case using Cons.IH [of "Suc i" i] Cons.IH [of "Suc i" b] by auto
qed

section \<open>The bounded line loop\<close>

text \<open>
  \<open>for i, line in enumerate(fp, 1)\<close> with \<open>continue\<close> below \<open>baseIndex\<close> and \<open>break\<close> from
  \<open>boudaryIndex\<close> on; the step is the rest of the loop's body.
\<close>

fun line_scan :: "(nat \<Rightarrow> string \<Rightarrow> 's \<Rightarrow> 's) \<Rightarrow> nat \<Rightarrow> nat \<Rightarrow> nat \<Rightarrow> string list \<Rightarrow> 's \<Rightarrow> 's" where
  "line_scan step base bound i [] st = st"
| "line_scan step base bound i (l # ls) st =
     (if i < base then line_scan step base bound (Suc i) ls st
      else if bound \<le> i then st
      else line_scan step base bound (Suc i) ls (step i l st))"

text \<open>How many lines the loop has taken from the file when it ends.\<close>

fun lines_taken :: "nat \<Rightarrow> nat \<Rightarrow> nat \<Rightarrow> string list \<Rightarrow> nat" where
  "lines_taken base bound i [] = 0"
| "lines_taken base bound i (l # ls) =
     (if \<not> i < base \<and> bound \<le> i then 1 else Suc (lines_taken base bound (Suc i) ls))"

lemma line_scan_stop: "base \<le> i \<Longrightarrow> bound \<le> i \<Longrightarrow> line_scan step base bound i ls st = st"
  by (cases ls) auto

text \<open>An empty window: nothing between \<open>baseIndex\<close> and an equal boundary.\<close>

lemma line_scan_empty: "line_scan step base base i ls st = st"
  by (induction ls arbitrary: i) auto

lemma last_block_below: "i + length ls \<le> base \<Longrightarrow> last_block e base i ls b = b"
  by (induction ls arbitrary: i b) auto

lemma lines_taken_to_end:
  "i \<le> bound \<Longrightarrow> base \<le> i \<Longrightarrow> i + length ls = Suc bound \<Longrightarrow> lines_taken base bound i ls = length ls"
  by (induction ls arbitrary: i) (auto simp: not_less)

lemma line_scan_append:
  "i + length ls \<le> bound \<Longrightarrow>
     line_scan step base bound i (ls @ ms) st =
     line_scan step base bound (i + length ls) ms (line_scan step base bound i ls st)"
  by (induction ls arbitrary: i st) auto

text \<open>What lies at or behind the boundary is not looked at.\<close>

lemma line_scan_take:
  "base \<le> bound \<Longrightarrow> line_scan step base bound i (take (bound - i) ls) st = line_scan step base bound i ls st"
proof (induction ls arbitrary: i st)
  case Nil
  then show ?case by simp
next
  case (Cons l ls)
  show ?case
  proof (cases "bound \<le> i")
    case True
    with Cons.prems show ?thesis by simp
  next
    case False
    then have "bound - i = Suc (bound - Suc i)" by simp
    with False Cons show ?thesis by simp
  qed
qed

locale line_loop =
  fixes step :: "nat \<Rightarrow> string \<Rightarrow> 's \<Rightarrow> 's" and inv :: "'s \<Rightarrow> bool"
  assumes step_inv: "inv st \<Longrightarrow> inv (step i l st)"
begin

lemma scan_inv: "inv st \<Longrightarrow> inv (line_scan step base bound i ls st)"
  by (induction ls arbitrary: i st) (auto simp: step_inv)

end

section \<open>Frames\<close>

text \<open>The output format: \<open>function (file:line)\<close> and a newline.\<close>

definition frame_text :: "string \<Rightarrow> string \<Rightarrow> string \<Rightarrow> string" where
  "frame_text f file line = f @ '' ('' @ file @ line @ '')'' @ [nl]"

text \<open>The plain loop over all lines, without bounds.\<close>

fun run_lines :: "(nat \<Rightarrow> string \<Rightarrow> 's \<Rightarrow> 's) \<Rightarrow> nat \<Rightarrow> string list \<Rightarrow> 's \<Rightarrow> 's" where
  "run_lines step i [] st = st"
| "run_lines step i (l # ls) st = run_lines step (Suc i) ls (step i l st)"

lemma run_lines_append:
  "run_lines step i (ls @ ms) st = run_lines step (i + length ls) ms (run_lines step i ls st)"
  by (induction ls arbitrary: i st) auto

lemma line_scan_run_lines:
  "i + length ls \<le> bound \<Longrightarrow> base \<le> i \<Longrightarrow> line_scan step base bound i ls st = run_lines step i ls st"
  by (induction ls arbitrary: i st) auto

text \<open>With the boundary at the last block break, exactly the lines before it are processed.\<close>

lemma last_block_at:
  "re_test e b \<Longrightarrow> \<forall>m \<in> set ms. \<not> re_test e m \<Longrightarrow> last_block e 0 1 (ls @ b # ms) 0 = Suc (length ls)"
  by (simp add: last_block_append last_block_none)

lemma scan_before: "line_scan step 0 (Suc (length ls)) 1 (ls @ ms) st = run_lines step 1 ls st"
proof -
  have "line_scan step 0 (Suc (length ls)) 1 (ls @ ms) st =
        line_scan step 0 (Suc (length ls)) (Suc (length ls)) ms (line_scan step 0 (Suc (length ls)) 1 ls st)"
    by (subst line_scan_append) simp_all
  then show ?thesis by (simp add: line_scan_run_lines line_scan_stop)
qed

lemma scan_without_block:
  assumes "\<forall>m \<in> set ls. \<not> re_test e m"
  shows "line_scan step 0 (last_block e 0 1 ls 0) 1 ls st = st"
  using assms by (simp add: last_block_none line_scan_stop)

end
