(* ===== verification/TsanParser.thy ===== *)
theory TsanParser
  imports ReportFiles
begin

text \<open>
  \<open>scripts/tsanOutputParser.py\<close>: ThreadSanitizer's report, line by line, into numbered
  \<open>.race\<close> files. \<open>sync_step\<close>, \<open>con_step\<close> and \<open>overnight_step\<close> are the bodies of the three
  line loops; \<open>runNormalSyncLoop\<close>, \<open>runNormalConAnalysis\<close> and \<open>runOverNight\<close> the three modes;
  \<open>tsan_main\<close> the dispatch. The debug log is kept as the list of its messages.
\<close>

section \<open>Regular expressions (lines 22 to 35)\<close>

definition cls_func :: "char \<Rightarrow> bool" where
  "cls_func c \<longleftrightarrow> is_alnum c \<or> c \<in> set ''_:~''"

definition cls_sig :: "char \<Rightarrow> bool" where
  "cls_sig c \<longleftrightarrow> is_alnum c \<or> c \<in> set ''*, _&()''"

definition cls_path :: "char \<Rightarrow> bool" where
  "cls_path c \<longleftrightarrow> is_alnum c \<or> c \<in> set ''_~./-''"

definition regCallStackLine :: re where
  "regCallStackLine = seqs
     [Many is_space, lit ''#'', Many is_digit, lit '' '',
      Grp 1 (Many cls_func), Opt (Grp 2 (Many cls_sig)), lit '' '',
      Grp 3 (Many cls_path), Grp 4 (Seq (lit '':'') (Many is_digit)),
      Opt (Grp 5 (Seq (lit '':'') (Many is_digit))), lit '' '', Many any_char]"

definition regWriteStart :: re where
  "regWriteStart = seqs [Many is_space, Grp 1 (Alt (lit ''Write'') (lit ''Previous write'')), Many any_char]"

definition regReadStart :: re where
  "regReadStart = seqs [Many is_space, Grp 1 (Alt (lit ''Read'') (lit ''Previous read'')), Many any_char]"

definition regBlockStart :: re where
  "regBlockStart = seqs [lit ''WARNING: ThreadSanitizer: data race'', Many any_char, Eol]"

definition regBlockBreak :: re where
  "regBlockBreak = seqs [lit ''=================='', Many is_space, Eol]"

definition regLineBreak :: re where
  "regLineBreak = seqs [Many is_space, Eol]"

definition regBlockEnd :: re where
  "regBlockEnd = seqs [lit ''SUMMARY: ThreadSanitizer: data race'', Many any_char, Eol]"

section \<open>State and arguments\<close>

record args =
  mode :: string
  outputtype :: string
  raceReportIn :: string
  raceReportOut :: string

record parse_state =
  flagBlockStart :: bool
  flagReadStart :: bool
  outFileNo :: nat
  files :: fs
  plog :: "string list"

record con_state = parse_state +
  resultList :: "string list"

record sync_state = parse_state +
  flagWriteStart :: bool
  writeResultList :: "string list"
  readResultList :: "string list"

definition debug :: "string \<Rightarrow> 'a parse_state_scheme \<Rightarrow> 'a parse_state_scheme" where
  "debug msg st = st\<lparr>plog := plog st @ [msg]\<rparr>"

definition line_msg :: "nat \<Rightarrow> string \<Rightarrow> string" where
  "line_msg i what = ''Line '' @ str_nat i @ '': '' @ what"

text \<open>\<open>checkBlockIntegrity\<close>: the last block break at or after \<open>baseIndex\<close>.\<close>

definition checkBlockIntegrity :: "nat \<Rightarrow> string list \<Rightarrow> nat" where
  "checkBlockIntegrity baseIndex lines = last_block regBlockBreak baseIndex 1 lines baseIndex"

definition intercepted :: "string \<Rightarrow> bool" where
  "intercepted fileName \<longleftrightarrow>
     fileName = ''tsan_interceptors.cc'' \<or> fileName = ''sanitizer_common_interceptors.inc''
     \<or> fileName = ''tsan_new_delete.cc''"

definition frame_file :: "groups \<Rightarrow> string" where
  "frame_file g = basename (normpath (group g 3))"

definition frame_entry :: "groups \<Rightarrow> string" where
  "frame_entry g = group g 1 @ '' '' @ ''('' @ frame_file g @ group g 4 @ '')'' @ [nl]"

section \<open>The loop bodies\<close>

text \<open>Flushing \<open>resultList\<close> to the next file: lines 99 to 104, 265 to 270.\<close>

definition con_flush :: "args \<Rightarrow> con_state \<Rightarrow> con_state" where
  "con_flush a st =
     (if 0 < length (resultList st)
      then st\<lparr>files := write_race (raceReportOut a) (outFileNo st) [resultList st] (files st),
              outFileNo := Suc (outFileNo st), resultList := []\<rparr>
      else st)"

definition overnight_step :: "args \<Rightarrow> nat \<Rightarrow> string \<Rightarrow> con_state \<Rightarrow> con_state" where
  "overnight_step a i line st =
     (if re_test regBlockStart line then
        debug (line_msg i ''Block Start'') st\<lparr>flagBlockStart := True\<rparr>
      else if re_test regReadStart line then
        debug (line_msg i ''Read Start'') st\<lparr>flagReadStart := True, flagBlockStart := True\<rparr>
      else (case re_match regCallStackLine line of
        Some g \<Rightarrow>
          (if flagReadStart st \<and> flagBlockStart st
           then debug (line_msg i ''Writing Content'') st\<lparr>resultList := resultList st @ [frame_entry g]\<rparr>
           else st)
      | None \<Rightarrow>
          if re_test regLineBreak line then
            (con_flush a (debug (line_msg i ''Line Break'') st))\<lparr>flagReadStart := False\<rparr>
          else if re_test regBlockEnd line then
            con_flush a (debug (line_msg i ''Block Ends'') st\<lparr>flagBlockStart := False, flagReadStart := False\<rparr>)
          else st))"

definition con_step :: "args \<Rightarrow> nat \<Rightarrow> string \<Rightarrow> con_state \<Rightarrow> con_state" where
  "con_step a i line st =
     (if re_test regBlockStart line then
        debug (line_msg i ''Block Start'') st\<lparr>flagBlockStart := True\<rparr>
      else if re_test regReadStart line then
        debug (line_msg i ''Read Start'') st\<lparr>flagReadStart := True, flagBlockStart := True\<rparr>
      else (case re_match regCallStackLine line of
        Some g \<Rightarrow>
          (if flagReadStart st \<and> flagBlockStart st
           then if intercepted (frame_file g) then st
                else debug (line_msg i ''Writing Content'') st\<lparr>resultList := resultList st @ [frame_entry g]\<rparr>
           else st)
      | None \<Rightarrow>
          if re_test regLineBreak line then
            (con_flush a (debug (line_msg i ''Line Break'') st))\<lparr>flagReadStart := False\<rparr>
          else if re_test regBlockEnd line then
            con_flush a (debug (line_msg i ''Block Ends'') st\<lparr>flagBlockStart := False, flagReadStart := False\<rparr>)
          else st))"

text \<open>
  \<open>runNormalSyncLoop\<close>: the call-stack branch first serves a read stack, then a write stack;
  an intercepted file leaves the branch at once (\<open>continue\<close>), which is the \<open>True\<close> of the pair.
\<close>

definition sync_read_frame :: "args \<Rightarrow> nat \<Rightarrow> groups \<Rightarrow> sync_state \<Rightarrow> bool \<times> sync_state" where
  "sync_read_frame a i g st =
     (if flagReadStart st \<and> flagBlockStart st then
        if intercepted (frame_file g) then
          (True, if outputtype a \<noteq> ''verifier''
                 then st\<lparr>flagReadStart := False, flagBlockStart := False\<rparr> else st)
        else let st1 = debug (line_msg i ''Writing Content'') st
             in (False, if length (readResultList st1) = 0
                        then st1\<lparr>readResultList := readResultList st1 @ [frame_entry g]\<rparr> else st1)
      else (False, st))"

definition sync_write_frame :: "args \<Rightarrow> nat \<Rightarrow> groups \<Rightarrow> sync_state \<Rightarrow> sync_state" where
  "sync_write_frame a i g st =
     (if flagWriteStart st \<and> flagBlockStart st then
        if intercepted (frame_file g) then
          (if outputtype a \<noteq> ''verifier''
           then st\<lparr>flagWriteStart := False, flagBlockStart := False\<rparr> else st)
        else let st1 = debug (line_msg i ''Writing Content'') st
             in (if length (writeResultList st1) = 0
                 then st1\<lparr>writeResultList := writeResultList st1 @ [frame_entry g]\<rparr> else st1)
      else st)"

definition sync_flush :: "args \<Rightarrow> sync_state \<Rightarrow> sync_state" where
  "sync_flush a st =
     (if 0 < length (writeResultList st) \<and> 0 < length (readResultList st)
      then st\<lparr>files := write_race (raceReportOut a) (outFileNo st)
                         [writeResultList st, readResultList st] (files st),
              outFileNo := Suc (outFileNo st), writeResultList := [], readResultList := []\<rparr>
      else st)"

definition sync_step :: "args \<Rightarrow> nat \<Rightarrow> string \<Rightarrow> sync_state \<Rightarrow> sync_state" where
  "sync_step a i line st =
     (if re_test regBlockStart line then
        debug (line_msg i ''Block Start'') st\<lparr>flagBlockStart := True\<rparr>
      else if re_test regWriteStart line then
        debug (line_msg i ''Write Start'') st
          \<lparr>flagWriteStart := True, flagReadStart := False, flagBlockStart := True\<rparr>
      else if re_test regReadStart line then
        debug (line_msg i ''Read Start'') st\<lparr>flagReadStart := True, flagBlockStart := True\<rparr>
      else (case re_match regCallStackLine line of
        Some g \<Rightarrow>
          (case sync_read_frame a i g st of
             (True, st1) \<Rightarrow> st1
           | (False, st1) \<Rightarrow> sync_write_frame a i g st1)
      | None \<Rightarrow>
          if re_test regLineBreak line then
            (sync_flush a (debug (line_msg i ''Line Break'') st))\<lparr>flagReadStart := False, flagWriteStart := False\<rparr>
          else if re_test regBlockBreak line then
            st\<lparr>flagReadStart := False, flagWriteStart := False, flagBlockStart := False,
               writeResultList := [], readResultList := []\<rparr>
          else if re_test regBlockEnd line then
            sync_flush a (debug (line_msg i ''Block Ends'') st
              \<lparr>flagBlockStart := False, flagReadStart := False, flagWriteStart := False\<rparr>)
          else st))"

section \<open>The modes\<close>

definition con_init :: "fs \<Rightarrow> con_state" where
  "con_init d = \<lparr>flagBlockStart = False, flagReadStart = False, outFileNo = 0, files = d, plog = [],
                 resultList = []\<rparr>"

definition sync_init :: "fs \<Rightarrow> sync_state" where
  "sync_init d = \<lparr>flagBlockStart = False, flagReadStart = False, outFileNo = 0, files = d, plog = [],
                  flagWriteStart = False, writeResultList = [], readResultList = []\<rparr>"

definition boundary_msg :: "nat \<Rightarrow> string" where
  "boundary_msg b = ''End boudary is '' @ str_nat b"

definition input_error :: string where
  "input_error = ''Error: Input file does not exist!'' @ [nl]"

datatype 's run = Exits string nat | Returns 's

definition runNormalSyncLoop :: "args \<Rightarrow> fs \<Rightarrow> sync_state run" where
  "runNormalSyncLoop a d =
     (case d (raceReportIn a) of
        None \<Rightarrow> Exits input_error 1
      | Some text \<Rightarrow>
          let fp = lines_of text;
              boudaryIndex = checkBlockIntegrity 0 fp
          in Returns (line_scan (sync_step a) 0 boudaryIndex 1 fp
                        (debug (boundary_msg boudaryIndex) (sync_init d))))"

definition runNormalConAnalysis :: "args \<Rightarrow> fs \<Rightarrow> con_state run" where
  "runNormalConAnalysis a d =
     (case d (raceReportIn a) of
        None \<Rightarrow> Exits input_error 1
      | Some text \<Rightarrow>
          let fp = lines_of text;
              boudaryIndex = checkBlockIntegrity 0 fp
          in Returns (line_scan (con_step a) 0 boudaryIndex 1 fp
                        (debug (boundary_msg boudaryIndex) (con_init d))))"

text \<open>
  \<open>runOverNight\<close> never returns. One pass of its \<open>while True\<close> works on the lines the file
  holds at that moment (it may have grown by whole lines). The file object keeps its position: the
  boundary search of a pass starts where the line loop of the pass before stopped, and
  counts lines from 1 there; only after it comes \<open>fp.seek(0)\<close>.
\<close>

record overnight_state =
  baseIndex :: nat
  position :: nat
  parse :: con_state

definition overnight_pass :: "args \<Rightarrow> string list \<Rightarrow> overnight_state \<Rightarrow> overnight_state" where
  "overnight_pass a fp st =
     (let boudaryIndex = checkBlockIntegrity (baseIndex st) (drop (position st) fp);
          p0 = debug (boundary_msg boudaryIndex) (parse st);
          p1 = line_scan (overnight_step a) (baseIndex st) boudaryIndex 1 fp p0
      in \<lparr>baseIndex = (if \<not> flagBlockStart p1 \<and> \<not> flagReadStart p1 then boudaryIndex else baseIndex st),
          position = lines_taken (baseIndex st) boudaryIndex 1 fp,
          parse = p1\<rparr>)"

fun overnight_passes :: "args \<Rightarrow> string list list \<Rightarrow> overnight_state \<Rightarrow> overnight_state" where
  "overnight_passes a [] st = st"
| "overnight_passes a (fp # fps) st = overnight_passes a fps (overnight_pass a fp st)"

text \<open>The state after the passes over the given contents of the input file.\<close>

definition runOverNight :: "args \<Rightarrow> string list list \<Rightarrow> fs \<Rightarrow> overnight_state run" where
  "runOverNight a snapshots d =
     (case d (raceReportIn a) of
        None \<Rightarrow> Exits input_error 1
      | Some _ \<Rightarrow> Returns (overnight_passes a snapshots
                            \<lparr>baseIndex = 0, position = 0, parse = con_init d\<rparr>))"

datatype tsan_result =
    Overnight "overnight_state run"
  | ConAnalysis "con_state run"
  | SyncLoop "sync_state run"
  | BadMode string nat

definition tsan_main :: "args \<Rightarrow> string list list \<Rightarrow> fs \<Rightarrow> tsan_result" where
  "tsan_main a snapshots d =
     (if mode a = ''overnight'' then Overnight (runOverNight a snapshots d)
      else if mode a = ''normal'' then
        if outputtype a = ''conanalysis'' then ConAnalysis (runNormalConAnalysis a d)
        else SyncLoop (runNormalSyncLoop a d)
      else BadMode (''Error: Unrecognizable mode'' @ [nl]) 1)"

section \<open>What a call-stack line gives\<close>

definition cls_file :: "char \<Rightarrow> bool" where
  "cls_file c \<longleftrightarrow> cls_path c \<and> c \<noteq> CHR ''/''"

text \<open>A line of the output: function, file and line of a frame outside the interceptors.\<close>

definition tsan_frame :: "bool \<Rightarrow> string \<Rightarrow> bool" where
  "tsan_frame skip s \<longleftrightarrow>
     (\<exists>f file ds. s = frame_text f file ('':'' @ ds) \<and> list_all cls_func f \<and> list_all cls_file file
        \<and> list_all is_digit ds \<and> (skip \<longrightarrow> \<not> intercepted file))"

lemma callstack_groups:
  assumes "re_match regCallStackLine l = Some g"
  shows "list_all cls_func (group g 1)" and "list_all cls_path (group g 3)"
    and "\<exists>ds. list_all is_digit ds \<and> group g 4 = '':'' @ ds"
proof -
  from re_match_sound [OF assms] obtain s' where r: "reads regCallStackLine l Map.empty s' g" ..
  have "list_all cls_func (group g 1) \<and> list_all cls_path (group g 3)
        \<and> (\<exists>ds. list_all is_digit ds \<and> group g 4 = '':'' @ ds)"
    using r unfolding regCallStackLine_def
    by (auto elim!: reads_SeqE reads_EpsE reads_ManyE reads_GrpE reads_OptE reads_OneE
        simp: group_def)
  then show "list_all cls_func (group g 1)" and "list_all cls_path (group g 3)"
    and "\<exists>ds. list_all is_digit ds \<and> group g 4 = '':'' @ ds" by auto
qed

lemma frame_file_class:
  assumes "re_match regCallStackLine l = Some g"
  shows "list_all cls_file (frame_file g)"
proof -
  have "set (frame_file g) \<subseteq> set (group g 3) \<union> {CHR ''/'', CHR ''.''}"
    unfolding frame_file_def using basename_chars normpath_chars by blast
  moreover have "CHR ''/'' \<notin> set (frame_file g)"
    by (simp add: frame_file_def basename_no_slash)
  moreover have "cls_path (CHR ''.'')" by (simp add: cls_path_def)
  moreover have "\<forall>c \<in> set (group g 3). cls_path c"
    using callstack_groups(2) [OF assms] by (simp add: list_all_iff)
  ultimately show ?thesis by (auto simp: list_all_iff cls_file_def)
qed

lemma frame_entry_frame:
  assumes "re_match regCallStackLine l = Some g" and "skip \<longrightarrow> \<not> intercepted (frame_file g)"
  shows "tsan_frame skip (frame_entry g)"
proof -
  from callstack_groups(3) [OF assms(1)] obtain ds
    where "list_all is_digit ds" "group g 4 = '':'' @ ds" by blast
  with assms callstack_groups(1) [OF assms(1)] frame_file_class [OF assms(1)]
  show ?thesis unfolding tsan_frame_def frame_entry_def frame_text_def
    by (intro exI [of _ "group g 1"] exI [of _ "frame_file g"] exI [of _ ds]) simp
qed

section \<open>Invariants of the line loops\<close>

text \<open>
  What holds of the output at any moment: the files below \<open>outFileNo\<close> have good contents and
  no other file differs from the start.
\<close>

definition outputs_ok :: "string \<Rightarrow> (string \<Rightarrow> bool) \<Rightarrow> fs \<Rightarrow> nat \<Rightarrow> fs \<Rightarrow> bool" where
  "outputs_ok out good d0 n d \<longleftrightarrow>
     (\<forall>m < n. \<exists>v. d (race_name out m) = Some v \<and> good v)
     \<and> (\<forall>x. x \<notin> race_name out ` {..<n} \<longrightarrow> d x = d0 x)"

lemma outputs_ok_init: "outputs_ok out good d 0 d"
  by (simp add: outputs_ok_def)

lemma outputs_ok_step:
  "outputs_ok out good d0 n d \<Longrightarrow> good (concat (concat ls)) \<Longrightarrow>
   outputs_ok out good d0 (Suc n) (write_race out n ls d)"
  unfolding outputs_ok_def
  by (intro conjI races.stored_step races.untouched_step) simp_all

definition frame_pair :: "string \<Rightarrow> bool" where
  "frame_pair v \<longleftrightarrow> (\<exists>w r. v = w @ r \<and> tsan_frame True w \<and> tsan_frame True r)"

definition frame_stack :: "bool \<Rightarrow> string \<Rightarrow> bool" where
  "frame_stack skip v \<longleftrightarrow> (\<exists>es. es \<noteq> [] \<and> v = concat es \<and> list_all (tsan_frame skip) es)"

definition sync_ok :: "args \<Rightarrow> fs \<Rightarrow> sync_state \<Rightarrow> bool" where
  "sync_ok a d0 st \<longleftrightarrow>
     length (writeResultList st) \<le> 1 \<and> length (readResultList st) \<le> 1
     \<and> list_all (tsan_frame True) (writeResultList st) \<and> list_all (tsan_frame True) (readResultList st)
     \<and> outputs_ok (raceReportOut a) frame_pair d0 (outFileNo st) (files st)"

definition con_ok :: "bool \<Rightarrow> args \<Rightarrow> fs \<Rightarrow> con_state \<Rightarrow> bool" where
  "con_ok skip a d0 st \<longleftrightarrow>
     list_all (tsan_frame skip) (resultList st)
     \<and> outputs_ok (raceReportOut a) (frame_stack skip) d0 (outFileNo st) (files st)"

lemma debug_sel [simp]:
  "flagBlockStart (debug m st) = flagBlockStart st" "flagReadStart (debug m st) = flagReadStart st"
  "outFileNo (debug m st) = outFileNo st" "files (debug m st) = files st"
  by (simp_all add: debug_def)

lemma debug_sync_sel [simp]:
  "flagWriteStart (debug m st) = flagWriteStart st" "writeResultList (debug m st) = writeResultList st"
  "readResultList (debug m st) = readResultList st"
  by (simp_all add: debug_def)

lemma debug_con_sel [simp]: "resultList (debug m st) = resultList st"
  by (simp add: debug_def)

lemma singleton_list: "length xs \<le> 1 \<Longrightarrow> 0 < length xs \<Longrightarrow> \<exists>x. xs = [x]"
  by (cases xs) auto

lemma sync_flush_ok:
  assumes "sync_ok a d0 st"
  shows "sync_ok a d0 (sync_flush a st)"
proof (cases "0 < length (writeResultList st) \<and> 0 < length (readResultList st)")
  case True
  with assms obtain w r where "writeResultList st = [w]" "readResultList st = [r]"
    using singleton_list unfolding sync_ok_def by metis
  moreover from assms calculation have "frame_pair (w @ r)"
    unfolding frame_pair_def sync_ok_def by auto
  ultimately show ?thesis using assms
    by (auto simp: sync_ok_def sync_flush_def intro!: outputs_ok_step)
next
  case False
  then have "sync_flush a st = st" by (simp only: sync_flush_def if_False)
  with assms show ?thesis by simp
qed

lemma con_flush_ok:
  assumes "con_ok skip a d0 st"
  shows "con_ok skip a d0 (con_flush a st)"
proof (cases "0 < length (resultList st)")
  case True
  with assms have "frame_stack skip (concat (resultList st))"
    unfolding con_ok_def frame_stack_def by blast
  with assms show ?thesis
    by (auto simp: con_ok_def con_flush_def intro!: outputs_ok_step)
next
  case False
  with assms show ?thesis by (simp add: con_flush_def)
qed

lemma sync_read_frame_ok:
  assumes "sync_ok a d0 st" and "re_match regCallStackLine l = Some g"
  shows "sync_ok a d0 (snd (sync_read_frame a i g st))"
  using assms frame_entry_frame [OF assms(2), of True]
  by (auto simp: sync_ok_def sync_read_frame_def Let_def)

lemma sync_write_frame_ok:
  assumes "sync_ok a d0 st" and "re_match regCallStackLine l = Some g"
  shows "sync_ok a d0 (sync_write_frame a i g st)"
  using assms frame_entry_frame [OF assms(2), of True]
  by (auto simp: sync_ok_def sync_write_frame_def Let_def)

lemma sync_ok_flags:
  "sync_ok a d0 (debug m st) = sync_ok a d0 st"
  "sync_ok a d0 (st\<lparr>flagBlockStart := b\<rparr>) = sync_ok a d0 st"
  "sync_ok a d0 (st\<lparr>flagReadStart := b\<rparr>) = sync_ok a d0 st"
  "sync_ok a d0 (st\<lparr>flagWriteStart := b\<rparr>) = sync_ok a d0 st"
  by (simp_all add: sync_ok_def)

lemma con_ok_flags:
  "con_ok skip a d0 (debug m st) = con_ok skip a d0 st"
  "con_ok skip a d0 (st\<lparr>flagBlockStart := b\<rparr>) = con_ok skip a d0 st"
  "con_ok skip a d0 (st\<lparr>flagReadStart := b\<rparr>) = con_ok skip a d0 st"
  by (simp_all add: con_ok_def)

lemma sync_ok_clear: "sync_ok a d0 st \<Longrightarrow> sync_ok a d0 (st\<lparr>writeResultList := [], readResultList := []\<rparr>)"
  by (simp add: sync_ok_def)

lemma sync_step_ok:
  assumes "sync_ok a d0 st"
  shows "sync_ok a d0 (sync_step a i l st)"
proof (cases "re_match regCallStackLine l")
  case None
  with assms show ?thesis
    by (auto simp: sync_step_def sync_ok_flags sync_ok_clear intro!: sync_flush_ok)
next
  case (Some g)
  obtain stop st1 where st1: "sync_read_frame a i g st = (stop, st1)" by fastforce
  with sync_read_frame_ok [OF assms Some, of i] have "sync_ok a d0 st1" by simp
  with assms Some st1 show ?thesis
    by (cases stop) (auto simp: sync_step_def sync_ok_flags intro!: sync_write_frame_ok)
qed

lemma con_step_ok:
  assumes "con_ok True a d0 st"
  shows "con_ok True a d0 (con_step a i l st)"
proof (cases "re_match regCallStackLine l")
  case None
  with assms show ?thesis by (auto simp: con_step_def con_ok_flags intro!: con_flush_ok)
next
  case (Some g)
  with assms frame_entry_frame [OF Some, of True] show ?thesis
    by (auto simp: con_step_def con_ok_flags) (simp_all add: con_ok_def)
qed

lemma overnight_step_ok:
  assumes "con_ok False a d0 st"
  shows "con_ok False a d0 (overnight_step a i l st)"
proof (cases "re_match regCallStackLine l")
  case None
  with assms show ?thesis by (auto simp: overnight_step_def con_ok_flags intro!: con_flush_ok)
next
  case (Some g)
  with assms frame_entry_frame [OF Some, of False] show ?thesis
    by (auto simp: overnight_step_def con_ok_flags) (simp_all add: con_ok_def)
qed

interpretation sync_loop: line_loop "sync_step a" "sync_ok a d0" for a d0
  by unfold_locales (rule sync_step_ok)

interpretation con_loop: line_loop "con_step a" "con_ok True a d0" for a d0
  by unfold_locales (rule con_step_ok)

interpretation overnight_loop: line_loop "overnight_step a" "con_ok False a d0" for a d0
  by unfold_locales (rule overnight_step_ok)

lemma sync_ok_init: "sync_ok a d (debug m (sync_init d))"
  by (simp add: sync_ok_def sync_init_def outputs_ok_init debug_def)

lemma con_ok_init: "con_ok skip a d (con_init d)" "con_ok skip a d (debug m (con_init d))"
  by (simp_all add: con_ok_def con_init_def outputs_ok_init debug_def)

lemma run_sync_ok: "runNormalSyncLoop a d = Returns st \<Longrightarrow> sync_ok a d st"
  by (auto simp: runNormalSyncLoop_def Let_def split: option.splits
      intro!: sync_loop.scan_inv sync_ok_init)

lemma run_con_ok: "runNormalConAnalysis a d = Returns st \<Longrightarrow> con_ok True a d st"
  by (auto simp: runNormalConAnalysis_def Let_def split: option.splits
      intro!: con_loop.scan_inv con_ok_init)

lemma overnight_pass_ok:
  "con_ok False a d0 (parse st) \<Longrightarrow> con_ok False a d0 (parse (overnight_pass a fp st))"
  by (simp add: overnight_pass_def Let_def overnight_loop.scan_inv con_ok_flags)

lemma overnight_passes_ok:
  "con_ok False a d0 (parse st) \<Longrightarrow> con_ok False a d0 (parse (overnight_passes a fps st))"
  by (induction fps arbitrary: st) (simp_all add: overnight_pass_ok)

section \<open>Kinds of lines\<close>

text \<open>The branch of \<open>runNormalSyncLoop\<close> a line takes.\<close>

datatype line_kind =
  KBlockStart | KWrite | KRead | KFrame groups | KBlank | KBreak | KEnd | KOther

definition sync_kind :: "string \<Rightarrow> line_kind" where
  "sync_kind l =
     (if re_test regBlockStart l then KBlockStart
      else if re_test regWriteStart l then KWrite
      else if re_test regReadStart l then KRead
      else (case re_match regCallStackLine l of
        Some g \<Rightarrow> KFrame g
      | None \<Rightarrow> if re_test regLineBreak l then KBlank
                else if re_test regBlockBreak l then KBreak
                else if re_test regBlockEnd l then KEnd else KOther))"

lemma sync_kind_step:
  "sync_kind l = KBlockStart \<Longrightarrow>
     sync_step a i l st = debug (line_msg i ''Block Start'') st\<lparr>flagBlockStart := True\<rparr>"
  "sync_kind l = KWrite \<Longrightarrow>
     sync_step a i l st = debug (line_msg i ''Write Start'') st
       \<lparr>flagWriteStart := True, flagReadStart := False, flagBlockStart := True\<rparr>"
  "sync_kind l = KRead \<Longrightarrow>
     sync_step a i l st = debug (line_msg i ''Read Start'') st\<lparr>flagReadStart := True, flagBlockStart := True\<rparr>"
  "sync_kind l = KFrame g \<Longrightarrow>
     sync_step a i l st = (case sync_read_frame a i g st of
             (True, st1) \<Rightarrow> st1 | (False, st1) \<Rightarrow> sync_write_frame a i g st1)"
  "sync_kind l = KBlank \<Longrightarrow>
     sync_step a i l st = (sync_flush a (debug (line_msg i ''Line Break'') st))
       \<lparr>flagReadStart := False, flagWriteStart := False\<rparr>"
  "sync_kind l = KBreak \<Longrightarrow>
     sync_step a i l st = st\<lparr>flagReadStart := False, flagWriteStart := False, flagBlockStart := False,
               writeResultList := [], readResultList := []\<rparr>"
  "sync_kind l = KEnd \<Longrightarrow>
     sync_step a i l st = sync_flush a (debug (line_msg i ''Block Ends'') st
              \<lparr>flagBlockStart := False, flagReadStart := False, flagWriteStart := False\<rparr>)"
  "sync_kind l = KOther \<Longrightarrow> sync_step a i l st = st"
  by (auto simp: sync_kind_def sync_step_def split: if_splits option.splits)

definition is_frame :: "string \<Rightarrow> bool" where
  "is_frame l \<longleftrightarrow> (\<exists>g. sync_kind l = KFrame g)"

text \<open>
  The part of the state that reaches the output, and what a flush does to it. A stack leaves it
  flushed, with the top frame added to the list of its access when that list was empty; the
  entry condition is that the other access is not being read.
\<close>

definition sync_data :: "sync_state \<Rightarrow> string list \<times> string list \<times> nat \<times> fs" where
  "sync_data st = (writeResultList st, readResultList st, outFileNo st, files st)"

fun flush_data :: "string \<Rightarrow> string list \<times> string list \<times> nat \<times> fs
    \<Rightarrow> string list \<times> string list \<times> nat \<times> fs" where
  "flush_data out (w, r, n, d) =
     (if w \<noteq> [] \<and> r \<noteq> [] then ([], [], Suc n, write_race out n [w, r] d) else (w, r, n, d))"

definition top_frame :: "string \<Rightarrow> string list \<Rightarrow> string list" where
  "top_frame e l = (if l = [] then [e] else l)"

lemma sync_data_flush: "sync_data (sync_flush a st) = flush_data (raceReportOut a) (sync_data st)"
  by (simp add: sync_flush_def sync_data_def)

lemma sync_data_flags [simp]:
  "sync_data (debug m st) = sync_data st"
  "sync_data (st\<lparr>flagBlockStart := b\<rparr>) = sync_data st" "sync_data (st\<lparr>flagReadStart := b\<rparr>) = sync_data st"
  "sync_data (st\<lparr>flagWriteStart := b\<rparr>) = sync_data st"
  by (simp_all add: sync_data_def)

lemma write_stack_tail:
  assumes "list_all is_frame ls" and "writeResultList st \<noteq> []" and "\<not> flagReadStart st"
  shows "sync_data (run_lines (sync_step a) i ls st) = sync_data st"
  using assms
proof (induction ls arbitrary: i st)
  case Nil
  then show ?case by simp
next
  case (Cons l ls)
  from Cons.prems(1) obtain g where g: "sync_kind l = KFrame g" by (auto simp: is_frame_def)
  let ?st = "sync_step a i l st"
  have "sync_data ?st = sync_data st \<and> writeResultList ?st \<noteq> [] \<and> \<not> flagReadStart ?st"
    using Cons.prems
    by (auto simp: sync_kind_step(4) [OF g] sync_read_frame_def sync_write_frame_def Let_def sync_data_def)
  with Cons.IH [of ?st "Suc i"] Cons.prems(1) show ?case by simp
qed

lemma read_stack_tail:
  assumes "list_all is_frame ls" and "readResultList st \<noteq> []" and "\<not> flagWriteStart st"
  shows "sync_data (run_lines (sync_step a) i ls st) = sync_data st"
  using assms
proof (induction ls arbitrary: i st)
  case Nil
  then show ?case by simp
next
  case (Cons l ls)
  from Cons.prems(1) obtain g where g: "sync_kind l = KFrame g" by (auto simp: is_frame_def)
  let ?st = "sync_step a i l st"
  have "sync_data ?st = sync_data st \<and> readResultList ?st \<noteq> [] \<and> \<not> flagWriteStart ?st"
    using Cons.prems
    by (auto simp: sync_kind_step(4) [OF g] sync_read_frame_def sync_write_frame_def Let_def sync_data_def)
  with Cons.IH [of ?st "Suc i"] Cons.prems(1) show ?case by simp
qed

lemma write_stack:
  assumes "sync_kind h = KWrite" and "sync_kind l = KFrame g" and "\<not> intercepted (frame_file g)"
    and "list_all is_frame ls" and "sync_kind b = KBlank"
  shows "sync_data (run_lines (sync_step a) i (h # l # ls @ [b]) st) =
      flush_data (raceReportOut a)
        (top_frame (frame_entry g) (writeResultList st), readResultList st, outFileNo st, files st)"
    and "\<not> flagWriteStart (run_lines (sync_step a) i (h # l # ls @ [b]) st)"
proof -
  let ?st1 = "sync_step a (Suc i) l (sync_step a i h st)"
  have "sync_data ?st1 = (top_frame (frame_entry g) (writeResultList st), readResultList st, outFileNo st, files st)
      \<and> writeResultList ?st1 \<noteq> [] \<and> \<not> flagReadStart ?st1"
    using assms(3)
    by (simp add: sync_kind_step(2) [OF assms(1)] sync_kind_step(4) [OF assms(2)] sync_data_def
        sync_read_frame_def sync_write_frame_def Let_def top_frame_def)
  with write_stack_tail [OF assms(4), of ?st1 a "Suc (Suc i)"]
  show "sync_data (run_lines (sync_step a) i (h # l # ls @ [b]) st) =
      flush_data (raceReportOut a)
        (top_frame (frame_entry g) (writeResultList st), readResultList st, outFileNo st, files st)"
    by (simp add: run_lines_append sync_kind_step(5) [OF assms(5)] sync_data_flush del: flush_data.simps)
  show "\<not> flagWriteStart (run_lines (sync_step a) i (h # l # ls @ [b]) st)"
    by (simp add: run_lines_append sync_kind_step(5) [OF assms(5)])
qed

lemma read_stack:
  assumes "sync_kind h = KRead" and "sync_kind l = KFrame g" and "\<not> intercepted (frame_file g)"
    and "list_all is_frame ls" and "sync_kind b = KBlank" and "\<not> flagWriteStart st"
  shows "sync_data (run_lines (sync_step a) i (h # l # ls @ [b]) st) =
      flush_data (raceReportOut a)
        (writeResultList st, top_frame (frame_entry g) (readResultList st), outFileNo st, files st)"
proof -
  let ?st1 = "sync_step a (Suc i) l (sync_step a i h st)"
  have "sync_data ?st1 = (writeResultList st, top_frame (frame_entry g) (readResultList st), outFileNo st, files st)
      \<and> readResultList ?st1 \<noteq> [] \<and> \<not> flagWriteStart ?st1"
    using assms(3,6)
    by (simp add: sync_kind_step(3) [OF assms(1)] sync_kind_step(4) [OF assms(2)] sync_data_def
        sync_read_frame_def sync_write_frame_def Let_def top_frame_def)
  with read_stack_tail [OF assms(4), of ?st1 a "Suc (Suc i)"]
  show ?thesis
    by (simp add: run_lines_append sync_kind_step(5) [OF assms(5)] sync_data_flush del: flush_data.simps)
qed

end
