(* ===== verification/TsanReport.thy ===== *)
theory TsanReport
  imports TsanParser
begin

text \<open>
  The text of a ThreadSanitizer report, and what \<open>scripts/tsanOutputParser.py\<close> makes of it: which
  kind each line has, what the files contain, where processing stops, and the pass that
  overnight mode loses.
\<close>

section \<open>Lines of a report\<close>

record src_frame =
  fr_func :: string
  fr_sig :: string
  fr_path :: string
  fr_line :: string
  fr_col :: string
  fr_rest :: string

definition src_frame_ok :: "src_frame \<Rightarrow> bool" where
  "src_frame_ok fr \<longleftrightarrow>
     list_all cls_func (fr_func fr)
     \<and> list_all cls_sig (fr_sig fr) \<and> (fr_sig fr = [] \<or> \<not> cls_func (hd (fr_sig fr)))
     \<and> fr_path fr \<noteq> [] \<and> hd (fr_path fr) = CHR ''/'' \<and> list_all cls_path (fr_path fr)
     \<and> list_all is_digit (fr_line fr)
     \<and> (fr_col fr = [] \<or> hd (fr_col fr) = CHR '':'' \<and> list_all is_digit (tl (fr_col fr)))
     \<and> nl \<notin> set (fr_rest fr)"

text \<open>\<open>    #0 function(signature) /path/file:line:column (module+offset)\<close>.\<close>

definition stack_line :: "nat \<Rightarrow> src_frame \<Rightarrow> string" where
  "stack_line n fr = ''    #'' @ str_nat n @ '' '' @ fr_func fr @ fr_sig fr @ '' '' @ fr_path fr
     @ '':'' @ fr_line fr @ fr_col fr @ '' '' @ fr_rest fr @ [nl]"

definition src_frame_text :: "src_frame \<Rightarrow> string" where
  "src_frame_text fr = frame_text (fr_func fr) (basename (normpath (fr_path fr))) ('':'' @ fr_line fr)"

lemma class_edges [simp]:
  "\<not> is_space (CHR ''#'')" "\<not> is_digit (CHR '' '')" "\<not> cls_func (CHR '' '')" "\<not> cls_path (CHR '':'')"
  "\<not> is_digit (CHR '':'')" "\<not> cls_sig (CHR ''/'')" "cls_sig (CHR '' '')"
  by (simp_all add: is_space_def is_digit_def cls_func_def cls_path_def cls_sig_def is_alnum_def
      is_lower_def is_upper_def)

lemma callstack_tail:
  assumes "fr_col fr = [] \<or> hd (fr_col fr) = CHR '':'' \<and> list_all is_digit (tl (fr_col fr))"
  shows "\<exists>g'. match_k (seqs [Opt (Grp 5 (Seq (lit '':'') (Many is_digit))), lit '' '', Many any_char])
           (fr_col fr @ '' '' @ rest) g (\<lambda>_ g. Some g) = Some g'
         \<and> g' 1 = g 1 \<and> g' 3 = g 3 \<and> g' 4 = g 4"
proof -
  have rest: "\<exists>s. match_k (seqs [Many any_char]) rest g2 (\<lambda>_ g. Some g) = Some g2" for g2 :: groups
  proof -
    have "match_k (seqs [Many any_char]) (takeWhile any_char rest @ dropWhile any_char rest) g2
            (\<lambda>_ g. Some g) = Some g2"
      using hd_dropWhile [of any_char rest]
      by (intro run_many) (auto simp: list_all_iff dest: set_takeWhileD)
    then show ?thesis by simp
  qed
  show ?thesis
  proof (cases "fr_col fr")
    case Nil
    then have "match_k (seqs [Opt (Grp 5 (Seq (lit '':'') (Many is_digit))), lit '' '', Many any_char])
           (fr_col fr @ '' '' @ rest) g (\<lambda>_ g. Some g) = Some g"
      using rest by auto
    then show ?thesis by auto
  next
    case (Cons c ds)
    with assms have c: "fr_col fr = '':'' @ ds" "list_all is_digit ds" by auto
    have "match_k (seqs [Opt (Grp 5 (Seq (lit '':'') (Many is_digit))), lit '' '', Many any_char])
           (('':'' @ ds) @ '' '' @ rest) g (\<lambda>_ g. Some g) = Some (g(5 \<mapsto> '':'' @ ds))"
      using c(2) rest by (intro run_opt run_group_lit_many run_lit) auto
    with c(1) show ?thesis by auto
  qed
qed

lemma callstack_line:
  assumes ok: "src_frame_ok fr"
  shows "\<exists>g. re_match regCallStackLine (stack_line n fr) = Some g
     \<and> group g 1 = fr_func fr \<and> group g 3 = fr_path fr \<and> group g 4 = '':'' @ fr_line fr"
proof -
  let ?rest = "fr_rest fr @ [nl]"
  let ?g = "Map.empty(1 \<mapsto> fr_func fr, 2 \<mapsto> fr_sig fr, 3 \<mapsto> fr_path fr, 4 \<mapsto> '':'' @ fr_line fr) :: groups"
  obtain g' where tail: "match_k (seqs [Opt (Grp 5 (Seq (lit '':'') (Many is_digit))), lit '' '', Many any_char])
      (fr_col fr @ '' '' @ ?rest) ?g (\<lambda>_ g. Some g) = Some g'"
    and g': "g' 1 = ?g 1" "g' 3 = ?g 3" "g' 4 = ?g 4"
    using callstack_tail [of fr ?rest ?g] ok unfolding src_frame_ok_def by blast
  obtain p where p: "fr_path fr = CHR ''/'' # p" using ok by (cases "fr_path fr") (auto simp: src_frame_ok_def)
  have after_line: "fr_col fr @ '' '' @ ?rest = [] \<or> \<not> is_digit (hd (fr_col fr @ '' '' @ ?rest))"
    using ok by (cases "fr_col fr") (auto simp: src_frame_ok_def)
  let ?from_path = "fr_path fr @ ('':'' @ fr_line fr) @ fr_col fr @ '' '' @ ?rest"
  have from4: "match_k (seqs [Grp 4 (Seq (lit '':'') (Many is_digit)),
      Opt (Grp 5 (Seq (lit '':'') (Many is_digit))), lit '' '', Many any_char])
      (('':'' @ fr_line fr) @ fr_col fr @ '' '' @ ?rest)
      (Map.empty(1 \<mapsto> fr_func fr, 2 \<mapsto> fr_sig fr, 3 \<mapsto> fr_path fr)) (\<lambda>_ g. Some g) = Some g'"
  proof (rule run_group_lit_many)
    show "list_all is_digit (fr_line fr)" using ok by (simp add: src_frame_ok_def)
  qed (fact after_line, fact tail)
  have from3: "match_k (seqs [Grp 3 (Many cls_path), Grp 4 (Seq (lit '':'') (Many is_digit)),
      Opt (Grp 5 (Seq (lit '':'') (Many is_digit))), lit '' '', Many any_char]) ?from_path
      (Map.empty(1 \<mapsto> fr_func fr, 2 \<mapsto> fr_sig fr)) (\<lambda>_ g. Some g) = Some g'"
  proof (rule run_group_many)
    show "list_all cls_path (fr_path fr)" using ok by (simp add: src_frame_ok_def)
  qed (simp, fact from4)
  have from2: "match_k (seqs [Grp 2 (Many cls_sig), lit '' '', Grp 3 (Many cls_path),
      Grp 4 (Seq (lit '':'') (Many is_digit)), Opt (Grp 5 (Seq (lit '':'') (Many is_digit))), lit '' '',
      Many any_char]) (fr_sig fr @ '' '' @ ?from_path) (Map.empty(1 \<mapsto> fr_func fr)) (\<lambda>_ g. Some g) = Some g'"
  proof (rule run_group_stop)
    show "list_all cls_sig (fr_sig fr)" using ok by (simp add: src_frame_ok_def)
  next
    fix u t and h :: groups
    assume u: "'' '' @ ?from_path = u @ t" "u \<noteq> []" "list_all cls_sig u"
    then have "u = '' ''" using p
      by (cases u; cases "tl u") auto
    with u(1) p have "hd t \<noteq> CHR '' ''" by auto
    then show "match_k (seqs [lit '' '', Grp 3 (Many cls_path), Grp 4 (Seq (lit '':'') (Many is_digit)),
        Opt (Grp 5 (Seq (lit '':'') (Many is_digit))), lit '' '', Many any_char]) t h (\<lambda>_ g. Some g) = None"
      by (cases t) auto
  next
    show "match_k (seqs [lit '' '', Grp 3 (Many cls_path), Grp 4 (Seq (lit '':'') (Many is_digit)),
        Opt (Grp 5 (Seq (lit '':'') (Many is_digit))), lit '' '', Many any_char]) ('' '' @ ?from_path)
        (Map.empty(1 \<mapsto> fr_func fr, 2 \<mapsto> fr_sig fr)) (\<lambda>_ g. Some g) = Some g'"
      using from3 by (rule run_lit)
  qed
  have after_func: "\<not> cls_func (hd (fr_sig fr @ '' '' @ ?from_path))"
    using ok by (cases "fr_sig fr") (auto simp: src_frame_ok_def)
  have "match_k regCallStackLine (''    '' @ ''#'' @ str_nat n @ '' '' @ fr_func fr @ fr_sig fr @ '' '' @ ?from_path)
      Map.empty (\<lambda>_ g. Some g) = Some g'"
    unfolding regCallStackLine_def
  proof (rule run_many, simp, simp, rule run_lit, rule run_many)
    show "list_all is_digit (str_nat n)" by simp
    show "match_k (seqs [lit '' '', Grp 1 (Many cls_func), Opt (Grp 2 (Many cls_sig)), lit '' '',
       Grp 3 (Many cls_path), Grp 4 (Seq (lit '':'') (Many is_digit)),
       Opt (Grp 5 (Seq (lit '':'') (Many is_digit))), lit '' '', Many any_char])
       ('' '' @ fr_func fr @ fr_sig fr @ '' '' @ ?from_path) Map.empty (\<lambda>_ g. Some g) = Some g'"
    proof (rule run_lit, rule run_group_many)
      show "list_all cls_func (fr_func fr)" using ok by (simp add: src_frame_ok_def)
    qed (rule disjI2, fact after_func, rule run_opt, fact from2)
  qed simp
  then have "re_match regCallStackLine (stack_line n fr) = Some g'"
    by (simp add: re_match_def stack_line_def)
  with g' show ?thesis by (auto simp: group_def)
qed

section \<open>What the patterns accept\<close>

lemma run_unique:
  assumes "u @ x = v @ y" and "list_all p u" and "list_all p v"
    and "x \<noteq> []" "\<not> p (hd x)" and "y \<noteq> []" "\<not> p (hd y)"
  shows "u = v \<and> x = y"
proof -
  have tw: "takeWhile p (w @ z) = w" if "list_all p w" "z \<noteq> [] \<and> \<not> p (hd z)" for w z
  proof -
    from that(2) obtain c cs where "z = c # cs" by (cases z) auto
    with that show ?thesis by (simp add: takeWhile_tail list_all_iff)
  qed
  from tw [of u x] tw [of v y] assms have "u = v" by simp
  with assms(1) show ?thesis by simp
qed

lemma any_tail: "(\<exists>w u. t = w @ u \<and> list_all any_char w \<and> accepts Eps (\<lambda>_. True) u) = True"
  by (auto intro: exI [of _ "[]"])

lemma two_words:
  "(\<exists>w t. l = w @ t \<and> P w \<and> ((\<exists>u. t = a @ u \<and> True) \<or> (\<exists>u. t = b @ u \<and> True))) \<longleftrightarrow>
   (\<exists>pre w t. l = pre @ w @ t \<and> P pre \<and> w \<in> {a, b})"
  by blast

lemma write_start_iff:
  "re_test regWriteStart l \<longleftrightarrow>
     (\<exists>pre w t. l = pre @ w @ t \<and> list_all is_space pre \<and> w \<in> {''Write'', ''Previous write''})"
  unfolding re_test_accepts regWriteStart_def seqs.simps accepts.simps(3-7) accepts_lit any_tail
    two_words
  by (rule refl)

lemma read_start_iff:
  "re_test regReadStart l \<longleftrightarrow>
     (\<exists>pre w t. l = pre @ w @ t \<and> list_all is_space pre \<and> w \<in> {''Read'', ''Previous read''})"
  unfolding re_test_accepts regReadStart_def seqs.simps accepts.simps(3-7) accepts_lit any_tail
    two_words
  by (rule refl)

lemma line_break_iff: "re_test regLineBreak l \<longleftrightarrow> list_all is_space l"
  unfolding re_test_accepts regLineBreak_def
  by (auto simp del: lit.simps simp add: accepts_lit)

lemma block_break_iff:
  "re_test regBlockBreak l \<longleftrightarrow> (\<exists>t. l = ''=================='' @ t \<and> list_all is_space t)"
  unfolding re_test_accepts regBlockBreak_def
  by (auto simp del: lit.simps simp add: accepts_lit)

lemma block_start_iff:
  "re_test regBlockStart l \<longleftrightarrow>
     (\<exists>t u. l = ''WARNING: ThreadSanitizer: data race'' @ t @ u \<and> list_all any_char t \<and> (u = [] \<or> u = [nl]))"
  unfolding re_test_accepts regBlockStart_def
  by (simp del: lit.simps add: accepts_lit) blast

lemma block_end_iff:
  "re_test regBlockEnd l \<longleftrightarrow>
     (\<exists>t u. l = ''SUMMARY: ThreadSanitizer: data race'' @ t @ u \<and> list_all any_char t \<and> (u = [] \<or> u = [nl]))"
  unfolding re_test_accepts regBlockEnd_def
  by (simp del: lit.simps add: accepts_lit) blast

lemma callstack_shape:
  "re_match regCallStackLine l = Some g \<Longrightarrow> \<exists>pre t. l = pre @ ''#'' @ t \<and> list_all is_space pre"
proof -
  assume "re_match regCallStackLine l = Some g"
  from re_match_sound [OF this] obtain s' where "reads regCallStackLine l Map.empty s' g" ..
  then show ?thesis
    unfolding regCallStackLine_def seqs.simps
    by (elim reads_SeqE reads_ManyE) (simp only: reads_lit, blast)
qed

section \<open>The kinds of the lines of a report\<close>

definition separator :: string where
  "separator = ''=================='' @ [nl]"

definition warning_line :: "string \<Rightarrow> string" where
  "warning_line t = ''WARNING: ThreadSanitizer: data race'' @ t @ [nl]"

definition summary_line :: "string \<Rightarrow> string" where
  "summary_line t = ''SUMMARY: ThreadSanitizer: data race'' @ t @ [nl]"

definition access_line :: "string \<Rightarrow> string \<Rightarrow> string" where
  "access_line w t = ''  '' @ w @ t @ [nl]"

lemma starts_no_space:
  assumes "l = pre @ x" and "list_all is_space pre" and "l \<noteq> []" and "\<not> is_space (hd l)"
  shows "l = x"
  using assms by (cases pre) auto

lemma not_access_line:
  assumes "l \<noteq> []" and "\<not> is_space (hd l)" and "hd l \<notin> {CHR ''W'', CHR ''R'', CHR ''P''}"
  shows "\<not> re_test regWriteStart l" and "\<not> re_test regReadStart l"
  using assms starts_no_space [OF _ _ assms(1,2)]
  unfolding write_start_iff read_start_iff by fastforce+

lemma not_callstack:
  assumes "l \<noteq> []" and "\<not> is_space (hd l)" and "hd l \<noteq> CHR ''#''"
  shows "re_match regCallStackLine l = None"
proof (rule ccontr)
  assume "re_match regCallStackLine l \<noteq> None"
  then obtain pre t where "l = pre @ ''#'' @ t" "list_all is_space pre"
    using callstack_shape by blast
  from starts_no_space [OF this assms(1,2)] assms(3) show False by simp
qed

lemma kind_sep: "sync_kind separator = KBreak"
  unfolding separator_def
proof -
  let ?l = "''=================='' @ [nl]"
  have l: "?l \<noteq> []" "\<not> is_space (hd ?l)" "hd ?l \<notin> {CHR ''W'', CHR ''R'', CHR ''P''}" "hd ?l \<noteq> CHR ''#''"
    by (simp_all add: is_space_def)
  have "\<not> re_test regBlockStart ?l" unfolding block_start_iff by simp
  moreover have "\<not> re_test regLineBreak ?l" unfolding line_break_iff by (simp add: is_space_def)
  moreover have "re_test regBlockBreak ?l" unfolding block_break_iff by (intro exI [of _ "[nl]"]) simp
  ultimately show "sync_kind (''=================='' @ [nl]) = KBreak"
    using not_access_line [OF l(1-3)] not_callstack [OF l(1,2,4)]
    unfolding sync_kind_def by simp
qed

lemma kind_warn:
  assumes "nl \<notin> set t"
  shows "sync_kind (warning_line t) = KBlockStart"
  unfolding warning_line_def
proof -
  have "re_test regBlockStart (''WARNING: ThreadSanitizer: data race'' @ t @ [nl])"
    unfolding block_start_iff using assms
    by (intro exI [of _ t] exI [of _ "[nl]"]) (auto simp: list_all_iff any_char_def)
  then show "sync_kind (''WARNING: ThreadSanitizer: data race'' @ t @ [nl]) = KBlockStart" unfolding sync_kind_def by simp
qed

lemma kind_summary:
  assumes "nl \<notin> set t"
  shows "sync_kind (summary_line t) = KEnd"
  unfolding summary_line_def
proof -
  let ?l = "''SUMMARY: ThreadSanitizer: data race'' @ t @ [nl]"
  have l: "?l \<noteq> []" "\<not> is_space (hd ?l)" "hd ?l \<notin> {CHR ''W'', CHR ''R'', CHR ''P''}" "hd ?l \<noteq> CHR ''#''"
    by (simp_all add: is_space_def)
  have "\<not> re_test regBlockStart ?l" unfolding block_start_iff by simp
  moreover have "\<not> re_test regLineBreak ?l" unfolding line_break_iff by (simp add: is_space_def)
  moreover have "\<not> re_test regBlockBreak ?l" unfolding block_break_iff by simp
  moreover have "re_test regBlockEnd ?l"
    unfolding block_end_iff using assms
    by (intro exI [of _ t] exI [of _ "[nl]"]) (auto simp: list_all_iff any_char_def)
  ultimately show "sync_kind (''SUMMARY: ThreadSanitizer: data race'' @ t @ [nl]) = KEnd"
    using not_access_line [OF l(1-3)] not_callstack [OF l(1,2,4)]
    unfolding sync_kind_def by simp
qed

lemma kind_blank: "sync_kind [nl] = KBlank"
proof -
  have "\<not> re_test regBlockStart [nl]" unfolding block_start_iff by simp
  moreover have "\<not> re_test regWriteStart [nl]" "\<not> re_test regReadStart [nl]"
    unfolding write_start_iff read_start_iff by (auto simp: Cons_eq_append_conv)
  moreover have "re_match regCallStackLine [nl] = None"
    using callstack_shape [of "[nl]"] by (cases "re_match regCallStackLine [nl]") (auto simp: Cons_eq_append_conv)
  moreover have "re_test regLineBreak [nl]" unfolding line_break_iff by simp
  ultimately show ?thesis unfolding sync_kind_def by simp
qed

lemma indented_not_block_start: "\<not> re_test regBlockStart (CHR '' '' # l)"
  unfolding block_start_iff by simp

lemma kind_write:
  assumes "w \<in> {''Write'', ''Previous write''}"
  shows "sync_kind (access_line w t) = KWrite"
  unfolding access_line_def
proof -
  have "re_test regWriteStart (''  '' @ w @ t @ [nl])"
    unfolding write_start_iff using assms by (intro exI [of _ "''  ''"] exI [of _ w] exI [of _ "t @ [nl]"]) simp
  then show "sync_kind (''  '' @ w @ t @ [nl]) = KWrite"
    unfolding sync_kind_def using indented_not_block_start by simp
qed

lemma kind_read:
  assumes w: "w \<in> {''Read'', ''Previous read''}"
  shows "sync_kind (access_line w t) = KRead"
  unfolding access_line_def
proof -
  have "re_test regReadStart (''  '' @ w @ t @ [nl])"
    unfolding read_start_iff using w by (intro exI [of _ "''  ''"] exI [of _ w] exI [of _ "t @ [nl]"]) simp
  moreover have "\<not> re_test regWriteStart (''  '' @ w @ t @ [nl])"
  proof
    assume "re_test regWriteStart (''  '' @ w @ t @ [nl])"
    then obtain pre v u where eq: "''  '' @ w @ t @ [nl] = pre @ v @ u" "list_all is_space pre"
      and v: "v \<in> {''Write'', ''Previous write''}" unfolding write_start_iff by blast
    have "''  '' = pre \<and> w @ t @ [nl] = v @ u"
      using eq w v by (intro run_unique [of _ _ _ _ is_space]) (auto simp: is_space_def)
    with w v show False by auto
  qed
  ultimately show "sync_kind (''  '' @ w @ t @ [nl]) = KRead"
    unfolding sync_kind_def using indented_not_block_start by simp
qed

lemma stack_line_not_access:
  "\<not> re_test regWriteStart (stack_line n fr)" "\<not> re_test regReadStart (stack_line n fr)"
proof -
  have no: "stack_line n fr \<noteq> pre @ w @ t"
    if "list_all is_space pre" "w \<noteq> []" "hd w \<notin> {CHR ''#''}" "\<not> is_space (hd w)" for pre w t
  proof
    assume "stack_line n fr = pre @ w @ t"
    moreover obtain x where "stack_line n fr = ''    '' @ ''#'' @ x" by (simp add: stack_line_def)
    ultimately have "''    '' @ ''#'' @ x = pre @ w @ t" by simp
    then have "''    '' = pre \<and> ''#'' @ x = w @ t"
      using that by (intro run_unique [of _ _ _ _ is_space]) auto
    with that show False by (cases w) auto
  qed
  show "\<not> re_test regWriteStart (stack_line n fr)"
  proof
    assume "re_test regWriteStart (stack_line n fr)"
    then obtain pre w t where eq: "stack_line n fr = pre @ w @ t" "list_all is_space pre"
      and w: "w \<in> {''Write'', ''Previous write''}" unfolding write_start_iff by blast
    from w have "w \<noteq> []" "hd w \<notin> {CHR ''#''}" "\<not> is_space (hd w)" by (auto simp: is_space_def)
    from no [OF eq(2) this] eq(1) show False by blast
  qed
  show "\<not> re_test regReadStart (stack_line n fr)"
  proof
    assume "re_test regReadStart (stack_line n fr)"
    then obtain pre w t where eq: "stack_line n fr = pre @ w @ t" "list_all is_space pre"
      and w: "w \<in> {''Read'', ''Previous read''}" unfolding read_start_iff by blast
    from w have "w \<noteq> []" "hd w \<notin> {CHR ''#''}" "\<not> is_space (hd w)" by (auto simp: is_space_def)
    from no [OF eq(2) this] eq(1) show False by blast
  qed
qed

lemma kind_stack_line:
  assumes "src_frame_ok fr"
  obtains g where "sync_kind (stack_line n fr) = KFrame g" "frame_entry g = src_frame_text fr"
    "frame_file g = basename (normpath (fr_path fr))"
proof -
  from callstack_line [OF assms, of n] obtain g where g: "re_match regCallStackLine (stack_line n fr) = Some g"
    "group g 1 = fr_func fr" "group g 3 = fr_path fr" "group g 4 = '':'' @ fr_line fr" by blast
  have "\<not> re_test regBlockStart (stack_line n fr)"
    unfolding stack_line_def using indented_not_block_start by simp
  with g stack_line_not_access have "sync_kind (stack_line n fr) = KFrame g"
    unfolding sync_kind_def by simp
  moreover from g have "frame_entry g = src_frame_text fr"
    by (simp add: frame_entry_def src_frame_text_def frame_text_def frame_file_def)
  moreover from g have "frame_file g = basename (normpath (fr_path fr))" by (simp add: frame_file_def)
  ultimately show ?thesis by (rule that)
qed

section \<open>Whole reports\<close>

text \<open>
  A report: a warning, two accesses with their stacks, a summary, between two separators. The
  first access is the one ThreadSanitizer saw last; the other is introduced by \<open>Previous\<close>.
\<close>

datatype race_kind = WriteRead | ReadWrite | WriteWrite

record race_report =
  rr_kind :: race_kind
  rr_warning :: string
  rr_head1 :: string
  rr_stack1 :: "src_frame list"
  rr_head2 :: string
  rr_stack2 :: "src_frame list"
  rr_summary :: string

fun stack_lines :: "nat \<Rightarrow> src_frame list \<Rightarrow> string list" where
  "stack_lines n [] = []"
| "stack_lines n (fr # frs) = stack_line n fr # stack_lines (Suc n) frs"

definition head1 :: "race_kind \<Rightarrow> string" where
  "head1 k = (case k of ReadWrite \<Rightarrow> ''Read'' | _ \<Rightarrow> ''Write'')"

definition head2 :: "race_kind \<Rightarrow> string" where
  "head2 k = (case k of WriteRead \<Rightarrow> ''Previous read'' | _ \<Rightarrow> ''Previous write'')"

definition report_body :: "race_report \<Rightarrow> string list" where
  "report_body r =
     [separator, warning_line (rr_warning r)]
     @ (access_line (head1 (rr_kind r)) (rr_head1 r) # stack_lines 0 (rr_stack1 r) @ [[nl]])
     @ (access_line (head2 (rr_kind r)) (rr_head2 r) # stack_lines 0 (rr_stack2 r) @ [[nl]])
     @ [summary_line (rr_summary r)]"

definition stack_ok :: "src_frame list \<Rightarrow> bool" where
  "stack_ok frs \<longleftrightarrow> frs \<noteq> [] \<and> list_all src_frame_ok frs
     \<and> \<not> intercepted (basename (normpath (fr_path (hd frs))))"

definition report_ok :: "race_report \<Rightarrow> bool" where
  "report_ok r \<longleftrightarrow> stack_ok (rr_stack1 r) \<and> stack_ok (rr_stack2 r)
     \<and> nl \<notin> set (rr_warning r) \<and> nl \<notin> set (rr_head1 r) \<and> nl \<notin> set (rr_head2 r)
     \<and> nl \<notin> set (rr_summary r)"

text \<open>What the back end wants of a report: the top frame of the write, then that of the read.\<close>

definition report_output :: "race_report \<Rightarrow> string option" where
  "report_output r =
     (case rr_kind r of
        WriteRead \<Rightarrow> Some (src_frame_text (hd (rr_stack1 r)) @ src_frame_text (hd (rr_stack2 r)))
      | ReadWrite \<Rightarrow> Some (src_frame_text (hd (rr_stack2 r)) @ src_frame_text (hd (rr_stack1 r)))
      | WriteWrite \<Rightarrow> None)"

fun numbered_files :: "string \<Rightarrow> nat \<Rightarrow> string list \<Rightarrow> fs \<Rightarrow> fs" where
  "numbered_files out n [] d = d"
| "numbered_files out n (v # vs) d = numbered_files out (Suc n) vs (d(race_name out n \<mapsto> v))"

definition idle :: "sync_state \<Rightarrow> bool" where
  "idle st \<longleftrightarrow> writeResultList st = [] \<and> readResultList st = []"

lemma stack_lines_frames: "list_all src_frame_ok frs \<Longrightarrow> list_all is_frame (stack_lines n frs)"
proof (induction frs arbitrary: n)
  case (Cons fr frs)
  then obtain g where "sync_kind (stack_line n fr) = KFrame g" using kind_stack_line [of fr n] by auto
  with Cons show ?case by (auto simp: is_frame_def)
qed simp

lemma stack_ok_split:
  assumes "stack_ok frs"
  obtains l ls g where "stack_lines n frs = l # ls" "sync_kind l = KFrame g" "list_all is_frame ls"
    "frame_entry g = src_frame_text (hd frs)" "\<not> intercepted (frame_file g)"
proof -
  from assms obtain fr frs' where frs: "frs = fr # frs'" by (cases frs) (auto simp: stack_ok_def)
  with assms obtain g where "sync_kind (stack_line n fr) = KFrame g" "frame_entry g = src_frame_text fr"
    "frame_file g = basename (normpath (fr_path fr))"
    using kind_stack_line [of fr n] by (auto simp: stack_ok_def)
  with assms frs show ?thesis
    by (intro that [of "stack_line n fr" "stack_lines (Suc n) frs'" g])
       (auto simp: stack_ok_def stack_lines_frames)
qed

section \<open>Running over reports\<close>

lemma sync_data_body:
  assumes "report_ok r" and "idle st"
  obtains st' where "run_lines (sync_step a) i (report_body r) st = st'"
    "outFileNo st' = outFileNo st + (case report_output r of None \<Rightarrow> 0 | Some _ \<Rightarrow> 1)"
    "files st' = (case report_output r of None \<Rightarrow> files st
                  | Some v \<Rightarrow> (files st)(race_name (raceReportOut a) (outFileNo st) \<mapsto> v))"
proof -
  let ?run = "run_lines (sync_step a)"
  let ?h1 = "access_line (head1 (rr_kind r)) (rr_head1 r)"
  let ?h2 = "access_line (head2 (rr_kind r)) (rr_head2 r)"
  from assms(1) have ok: "stack_ok (rr_stack1 r)" "stack_ok (rr_stack2 r)"
    "nl \<notin> set (rr_warning r)" "nl \<notin> set (rr_summary r)" by (simp_all add: report_ok_def)
  obtain l1 ls1 g1 where 1: "stack_lines 0 (rr_stack1 r) = l1 # ls1" "sync_kind l1 = KFrame g1"
    "list_all is_frame ls1" "frame_entry g1 = src_frame_text (hd (rr_stack1 r))" "\<not> intercepted (frame_file g1)"
    using stack_ok_split [OF ok(1)] .
  obtain l2 ls2 g2 where 2: "stack_lines 0 (rr_stack2 r) = l2 # ls2" "sync_kind l2 = KFrame g2"
    "list_all is_frame ls2" "frame_entry g2 = src_frame_text (hd (rr_stack2 r))" "\<not> intercepted (frame_file g2)"
    using stack_ok_split [OF ok(2)] .
  define st1 where "st1 = ?run i [separator, warning_line (rr_warning r)] st"
  define st2 where "st2 = ?run (Suc (Suc i)) (?h1 # l1 # ls1 @ [[nl]]) st1"
  define j where "j = Suc (Suc i) + length (?h1 # l1 # ls1 @ [[nl]])"
  define st3 where "st3 = ?run j (?h2 # l2 # ls2 @ [[nl]]) st2"
  define m where "m = j + length (?h2 # l2 # ls2 @ [[nl]])"
  have run: "?run i (report_body r) st
      = sync_step a m (summary_line (rr_summary r)) st3"
    unfolding report_body_def 1(1) 2(1) run_lines_append st1_def [symmetric]
    by (simp add: st1_def st2_def st3_def j_def m_def run_lines_append)
  have d1: "sync_data st1 = ([], [], outFileNo st, files st)"
    using assms(2) by (simp add: st1_def idle_def sync_kind_step(6) [OF kind_sep]
        sync_kind_step(1) [OF kind_warn [OF ok(3)]] sync_data_def)
  have f1: "\<not> flagWriteStart st1"
    by (simp add: st1_def sync_kind_step(6) [OF kind_sep] sync_kind_step(1) [OF kind_warn [OF ok(3)]])
  have sum: "sync_data (sync_step a m (summary_line (rr_summary r)) st3)
      = flush_data (raceReportOut a) (sync_data st3)"
    by (simp add: sync_kind_step(7) [OF kind_summary [OF ok(4)]] sync_data_flush)
  have d3: "sync_data st3 = (case rr_kind r of
      WriteRead \<Rightarrow> ([], [], Suc (outFileNo st), write_race (raceReportOut a) (outFileNo st)
                     [[frame_entry g1], [frame_entry g2]] (files st))
    | ReadWrite \<Rightarrow> ([], [], Suc (outFileNo st), write_race (raceReportOut a) (outFileNo st)
                     [[frame_entry g2], [frame_entry g1]] (files st))
    | WriteWrite \<Rightarrow> ([frame_entry g1], [], outFileNo st, files st))"
  proof (cases "rr_kind r")
    case WriteRead
    have k: "sync_kind ?h1 = KWrite" "sync_kind ?h2 = KRead"
      using WriteRead kind_write [of "''Write''"] kind_read [of "''Previous read''"]
      by (auto simp: head1_def head2_def)
    have "sync_data st2 = ([frame_entry g1], [], outFileNo st, files st)" "\<not> flagWriteStart st2"
      using write_stack [OF k(1) 1(2,5,3) kind_blank, of a "Suc (Suc i)" st1] d1
      unfolding st2_def by (simp_all add: sync_data_def top_frame_def)
    with read_stack [OF k(2) 2(2,5,3) kind_blank, of st2 a j] WriteRead show ?thesis
      unfolding st3_def by (simp add: sync_data_def top_frame_def)
  next
    case ReadWrite
    have k: "sync_kind ?h1 = KRead" "sync_kind ?h2 = KWrite"
      using ReadWrite kind_read [of "''Read''"] kind_write [of "''Previous write''"]
      by (auto simp: head1_def head2_def)
    have "sync_data st2 = ([], [frame_entry g1], outFileNo st, files st)"
      using read_stack [OF k(1) 1(2,5,3) kind_blank f1, of a "Suc (Suc i)"] d1
      unfolding st2_def by (simp add: sync_data_def top_frame_def)
    with write_stack(1) [OF k(2) 2(2,5,3) kind_blank, of a j st2] ReadWrite show ?thesis
      unfolding st3_def by (simp add: sync_data_def top_frame_def)
  next
    case WriteWrite
    have k: "sync_kind ?h1 = KWrite" "sync_kind ?h2 = KWrite"
      using WriteWrite kind_write [of "''Write''"] kind_write [of "''Previous write''"]
      by (auto simp: head1_def head2_def)
    have "sync_data st2 = ([frame_entry g1], [], outFileNo st, files st)"
      using write_stack(1) [OF k(1) 1(2,5,3) kind_blank, of a "Suc (Suc i)" st1] d1
      unfolding st2_def by (simp add: sync_data_def top_frame_def)
    with write_stack(1) [OF k(2) 2(2,5,3) kind_blank, of a j st2] WriteWrite show ?thesis
      unfolding st3_def by (simp add: sync_data_def top_frame_def)
  qed
  show ?thesis
    using sum d3 1(4) 2(4)
    by (intro that [OF refl]; cases "rr_kind r")
       (simp_all add: run report_output_def sync_data_def write_race_upd)
qed

definition report_lines :: "race_report \<Rightarrow> string list" where
  "report_lines r = report_body r @ [separator]"

lemma reports_run:
  assumes "list_all report_ok rs" and "idle st"
  shows "idle (run_lines (sync_step a) i (concat (map report_lines rs)) st)
     \<and> outFileNo (run_lines (sync_step a) i (concat (map report_lines rs)) st)
         = outFileNo st + length (List.map_filter report_output rs)
     \<and> files (run_lines (sync_step a) i (concat (map report_lines rs)) st)
         = numbered_files (raceReportOut a) (outFileNo st) (List.map_filter report_output rs) (files st)"
  using assms
proof (induction rs arbitrary: i st)
  case Nil
  then show ?case by (simp add: List.map_filter_simps)
next
  case (Cons r rs)
  from Cons.prems have ok: "report_ok r" "list_all report_ok rs" by simp_all
  obtain st1 where 1: "run_lines (sync_step a) i (report_body r) st = st1"
    "outFileNo st1 = outFileNo st + (case report_output r of None \<Rightarrow> 0 | Some _ \<Rightarrow> 1)"
    "files st1 = (case report_output r of None \<Rightarrow> files st
                  | Some v \<Rightarrow> (files st)(race_name (raceReportOut a) (outFileNo st) \<mapsto> v))"
    using sync_data_body [OF ok(1) Cons.prems(2)] .
  define st2 where "st2 = run_lines (sync_step a) i (report_lines r) st"
  have st2: "st2 = sync_step a (i + length (report_body r)) separator st1"
    by (simp add: st2_def report_lines_def run_lines_append 1(1))
  have "idle st2" "outFileNo st2 = outFileNo st1" "files st2 = files st1"
    by (simp_all add: st2 sync_kind_step(6) [OF kind_sep] idle_def)
  moreover have "run_lines (sync_step a) i (concat (map report_lines (r # rs))) st
      = run_lines (sync_step a) (i + length (report_lines r)) (concat (map report_lines rs)) st2"
    by (simp add: run_lines_append st2_def)
  ultimately show ?case
    using Cons.IH [OF ok(2), of st2 "i + length (report_lines r)"] 1(2,3)
    by (cases "report_output r") (simp_all add: List.map_filter_simps fun_upd_def)
qed

lemma numbered_files_other:
  "x \<notin> race_name out ` {n..<n + length vs} \<Longrightarrow> numbered_files out n vs d x = d x"
proof (induction vs arbitrary: n d)
  case (Cons v vs)
  then have "x \<noteq> race_name out n" "x \<notin> race_name out ` {Suc n..<Suc n + length vs}" by auto
  with Cons.IH [of "Suc n"] show ?case by simp
qed simp

lemma numbered_files_nth:
  "i < length vs \<Longrightarrow> numbered_files out n vs d (race_name out (n + i)) = Some (vs ! i)"
proof (induction vs arbitrary: n d i)
  case (Cons v vs)
  show ?case
  proof (cases i)
    case 0
    have "race_name out n \<notin> race_name out ` {Suc n..<Suc n + length vs}" by auto
    with 0 show ?thesis by (simp add: numbered_files_other)
  next
    case (Suc j)
    with Cons.IH [of j "Suc n"] Cons.prems show ?thesis by simp
  qed
qed simp

lemma class_no_nl: "list_all p s \<Longrightarrow> \<not> p nl \<Longrightarrow> nl \<notin> set s"
  by (auto simp: list_all_iff)

lemma nl_classes [simp]: "\<not> is_digit nl" "\<not> cls_func nl" "\<not> cls_sig nl" "\<not> cls_path nl"
  by (simp_all add: is_digit_def cls_func_def cls_path_def cls_sig_def is_alnum_def
      is_lower_def is_upper_def)

lemma stack_lines_no_nl:
  "list_all src_frame_ok frs \<Longrightarrow> l \<in> set (stack_lines n frs) \<Longrightarrow> \<exists>m. l = m @ [nl] \<and> nl \<notin> set m"
proof (induction frs arbitrary: n)
  case (Cons fr frs)
  from Cons.prems(1) have ok: "src_frame_ok fr" by simp
  then have "nl \<notin> set (fr_line fr)" "nl \<notin> set (tl (fr_col fr))" "nl \<notin> set (fr_path fr)"
    "nl \<notin> set (fr_func fr)" "nl \<notin> set (fr_sig fr)" "nl \<notin> set (fr_rest fr)"
    unfolding src_frame_ok_def
    by (auto dest!: class_no_nl)
  moreover have "nl \<notin> set (str_nat n)" by (rule class_no_nl [OF str_nat_digits]) simp
  moreover have "nl \<notin> set (fr_col fr)"
    using ok calculation(2) by (cases "fr_col fr") (auto simp: src_frame_ok_def)
  ultimately have "\<exists>m. stack_line n fr = m @ [nl] \<and> nl \<notin> set m"
    by (intro exI [of _ "''    #'' @ str_nat n @ '' '' @ fr_func fr @ fr_sig fr @ '' '' @ fr_path fr
          @ '':'' @ fr_line fr @ fr_col fr @ '' '' @ fr_rest fr"]) (simp add: stack_line_def)
  with Cons show ?case by auto
qed simp

lemma report_lines_no_nl:
  assumes "report_ok r" and "l \<in> set (report_lines r)"
  shows "\<exists>m. l = m @ [nl] \<and> nl \<notin> set m"
proof -
  have frs: "list_all src_frame_ok (rr_stack1 r)" "list_all src_frame_ok (rr_stack2 r)"
    using assms(1) by (simp_all add: report_ok_def stack_ok_def)
  have acc: "\<exists>m. access_line w t = m @ [nl] \<and> nl \<notin> set m"
    if "nl \<notin> set w" "nl \<notin> set t" for w t
    using that by (intro exI [of _ "''  '' @ w @ t"]) (simp add: access_line_def)
  have "nl \<notin> set (head1 k)" "nl \<notin> set (head2 k)" for k
    by (cases k; simp add: head1_def head2_def)+
  with assms(1) have heads:
    "\<exists>m. access_line (head1 (rr_kind r)) (rr_head1 r) = m @ [nl] \<and> nl \<notin> set m"
    "\<exists>m. access_line (head2 (rr_kind r)) (rr_head2 r) = m @ [nl] \<and> nl \<notin> set m"
    by (auto intro!: acc simp: report_ok_def)
  have "\<exists>m. separator = m @ [nl] \<and> nl \<notin> set m"
    by (intro exI [of _ "''==================''"]) (simp add: separator_def)
  moreover have "\<exists>m. warning_line (rr_warning r) = m @ [nl] \<and> nl \<notin> set m"
    using assms(1) by (intro exI [of _ "''WARNING: ThreadSanitizer: data race'' @ rr_warning r"])
      (simp add: warning_line_def report_ok_def)
  moreover have "\<exists>m. summary_line (rr_summary r) = m @ [nl] \<and> nl \<notin> set m"
    using assms(1) by (intro exI [of _ "''SUMMARY: ThreadSanitizer: data race'' @ rr_summary r"])
      (simp add: summary_line_def report_ok_def)
  ultimately show ?thesis
    using assms(2) heads stack_lines_no_nl [OF frs(1)] stack_lines_no_nl [OF frs(2)]
    unfolding report_lines_def report_body_def by (auto simp del: ex_simps)
qed

section \<open>Sync mode on the text of reports\<close>

lemma separator_is_break: "re_test regBlockBreak separator"
  unfolding block_break_iff separator_def by (intro exI [of _ "[nl]"]) simp

lemma run_sync_lines:
  assumes "d (raceReportIn a) = Some text" and "lines_of text = ls @ b # ms"
    and "re_test regBlockBreak b" and "\<forall>m \<in> set ms. \<not> re_test regBlockBreak m"
  shows "runNormalSyncLoop a d
    = Returns (run_lines (sync_step a) 1 ls (debug (boundary_msg (Suc (length ls))) (sync_init d)))"
proof -
  show ?thesis
    unfolding runNormalSyncLoop_def checkBlockIntegrity_def assms(1,2) last_block_at [OF assms(3,4)]
      option.case Let_def scan_before by (rule refl)
qed

lemma reports_end:
  assumes "rs \<noteq> []"
  obtains ls where "concat (map report_lines rs) = ls @ [separator]"
proof -
  obtain rs' r where "rs = rs' @ [r]" using assms by (cases rs rule: rev_cases) auto
  then have "concat (map report_lines rs) = (concat (map report_lines rs') @ report_body r) @ [separator]"
    by (simp add: report_lines_def)
  then show ?thesis by (rule that)
qed

lemma run_sync_reports:
  assumes ok: "list_all report_ok rs"
    and content: "d (raceReportIn a) = Some (concat (concat (map report_lines rs)))"
  obtains st where "runNormalSyncLoop a d = Returns st"
    "outFileNo st = length (List.map_filter report_output rs)"
    "files st = numbered_files (raceReportOut a) 0 (List.map_filter report_output rs) d"
proof (cases "rs = []")
  case True
  with content show ?thesis
    by (intro that [of "debug (boundary_msg 0) (sync_init d)"])
       (simp_all add: runNormalSyncLoop_def checkBlockIntegrity_def sync_init_def List.map_filter_simps)
next
  case False
  then obtain ls where ls: "concat (map report_lines rs) = ls @ [separator]" using reports_end by blast
  have "\<forall>l \<in> set (concat (map report_lines rs)). \<exists>m. l = m @ [nl] \<and> nl \<notin> set m"
    using ok report_lines_no_nl by (auto simp: list_all_iff)
  then have "lines_of (concat (concat (map report_lines rs))) = ls @ [separator]"
    using lines_of_lines [of "concat (map report_lines rs)"] ls by simp
  then have run: "runNormalSyncLoop a d
    = Returns (run_lines (sync_step a) 1 ls (debug (boundary_msg (Suc (length ls))) (sync_init d)))"
    using content separator_is_break by (intro run_sync_lines [of _ _ _ _ separator "[]"]) simp_all
  define st0 where "st0 = debug (boundary_msg (Suc (length ls))) (sync_init d)"
  define st where "st = run_lines (sync_step a) 1 ls st0"
  have st0: "idle st0" "outFileNo st0 = 0" "files st0 = d"
    by (simp_all add: st0_def idle_def) (simp_all add: sync_init_def)
  have sep: "outFileNo (run_lines (sync_step a) 1 (ls @ [separator]) st0) = outFileNo st
      \<and> files (run_lines (sync_step a) 1 (ls @ [separator]) st0) = files st"
    unfolding st_def by (simp add: run_lines_append sync_kind_step(6) [OF kind_sep])
  show ?thesis
  proof (rule that)
    show "runNormalSyncLoop a d = Returns st" using run by (simp add: st_def st0_def)
  qed (use reports_run [OF ok st0(1), of a 1] sep st0 ls in simp_all)
qed


text \<open>Two reports, one of a write and a read and one of two writes, and their files.\<close>

definition example_frame :: "string \<Rightarrow> string \<Rightarrow> src_frame" where
  "example_frame f line = \<lparr>fr_func = f, fr_sig = [], fr_path = ''/src/worker.c'', fr_line = line,
     fr_col = '':13'', fr_rest = ''(httpd+0x5)''\<rparr>"

definition example_report :: "race_kind \<Rightarrow> race_report" where
  "example_report k = \<lparr>rr_kind = k, rr_warning = '' (pid=7)'', rr_head1 = '' of size 8'',
     rr_stack1 = [example_frame ''start'' ''1083''], rr_head2 = '' of size 8'',
     rr_stack2 = [example_frame ''join'' ''1173''], rr_summary = []\<rparr>"

definition example_args :: args where
  "example_args = \<lparr>mode = ''normal'', outputtype = ''syncloop'', raceReportIn = ''in'', raceReportOut = ''o''\<rparr>"

definition example_fs :: fs where
  "example_fs = [''in'' \<mapsto> concat (concat (map report_lines [example_report WriteWrite, example_report WriteRead]))]"

lemma example_path: "basename (normpath ''/src/worker.c'') = ''worker.c''"
  using basename_normpath [of "''worker.c''" "''/src''"] by simp

lemma example_frame_ok: "list_all cls_func f \<Longrightarrow> list_all is_digit line \<Longrightarrow> src_frame_ok (example_frame f line)"
  by (simp add: src_frame_ok_def example_frame_def cls_path_def is_alnum_def is_lower_def is_digit_def)

lemma example_report_ok: "report_ok (example_report k)"
proof -
  have "list_all cls_func ''start'' \<and> list_all cls_func ''join'' \<and> list_all is_digit ''1083''
      \<and> list_all is_digit ''1173''"
    by (simp add: cls_func_def is_alnum_def is_lower_def is_digit_def)
  then have "src_frame_ok (example_frame ''start'' ''1083'')" "src_frame_ok (example_frame ''join'' ''1173'')"
    by (simp_all add: example_frame_ok)
  moreover have "\<not> intercepted (basename (normpath (fr_path (example_frame f line))))" for f line
    by (simp add: example_frame_def example_path intercepted_def)
  ultimately show ?thesis by (simp add: report_ok_def stack_ok_def example_report_def)
qed

lemma example_output:
  "List.map_filter report_output [example_report WriteWrite, example_report WriteRead]
   = [''start (worker.c:1083)'' @ [nl] @ ''join (worker.c:1173)'' @ [nl]]"
  by (simp add: List.map_filter_simps report_output_def example_report_def example_frame_def
      src_frame_text_def frame_text_def example_path)


end
