(* ===== verification/TsanProperties.thy ===== *)
theory TsanProperties
  imports TsanReport
begin

text \<open>
  The properties of \<open>scripts/tsanOutputParser.py\<close> beyond the output for well-formed reports: what the
  files contain for any input at all, in each mode; where processing stops; the stack that
  \<open>conanalysis\<close> output records; the dispatch; and the growth that overnight mode does not see.
\<close>

section \<open>Any input\<close>

lemma sync_ok_outputs:
  assumes "sync_ok a d st"
  shows "(\<forall>n < outFileNo st. \<exists>w r. files st (race_name (raceReportOut a) n) = Some (w @ r)
            \<and> tsan_frame True w \<and> tsan_frame True r)
    \<and> (\<forall>x. x \<notin> race_name (raceReportOut a) ` {..<outFileNo st} \<longrightarrow> files st x = d x)"
  using assms unfolding sync_ok_def outputs_ok_def frame_pair_def by blast

lemma con_ok_outputs:
  assumes "con_ok skip a d st"
  shows "(\<forall>n < outFileNo st. \<exists>es. es \<noteq> [] \<and> files st (race_name (raceReportOut a) n) = Some (concat es)
            \<and> list_all (tsan_frame skip) es)
    \<and> (\<forall>x. x \<notin> race_name (raceReportOut a) ` {..<outFileNo st} \<longrightarrow> files st x = d x)"
  using assms unfolding con_ok_def outputs_ok_def frame_stack_def by blast

text \<open>
  C2: whatever the input, sync mode only writes files that hold exactly two frames, each of
  the form \<open>function (file:line)\<close> with a file outside the interceptors and no slash in it; they are
  numbered without a gap, and no other file changes.
\<close>

theorem sync_files:
  assumes "runNormalSyncLoop a d = Returns st"
  shows "(\<forall>n < outFileNo st. \<exists>w r. files st (race_name (raceReportOut a) n) = Some (w @ r)
            \<and> tsan_frame True w \<and> tsan_frame True r)
    \<and> (\<forall>x. x \<notin> race_name (raceReportOut a) ` {..<outFileNo st} \<longrightarrow> files st x = d x)"
  using run_sync_ok [OF assms] by (rule sync_ok_outputs)

lemma sync_files_witness:
  "\<exists>st. runNormalSyncLoop example_args example_fs = Returns st \<and> outFileNo st = 1
     \<and> (\<exists>w r. files st (race_name ''o'' 0) = Some (w @ r) \<and> tsan_frame True w \<and> tsan_frame True r)"
proof -
  obtain st where st: "runNormalSyncLoop example_args example_fs = Returns st" "outFileNo st = 1"
    using run_sync_reports [of "[example_report WriteWrite, example_report WriteRead]" example_fs example_args]
    unfolding example_output by (auto simp: example_report_ok example_fs_def example_args_def)
  from sync_files [OF st(1)] st show ?thesis by (auto simp: example_args_def)
qed

text \<open>
  C3: whatever the input, \<open>conanalysis\<close> mode only writes files that hold a non-empty sequence of frames
  outside the interceptors, numbered without a gap, and no other file changes.
\<close>

theorem con_files:
  assumes "runNormalConAnalysis a d = Returns st"
  shows "(\<forall>n < outFileNo st. \<exists>es. es \<noteq> [] \<and> files st (race_name (raceReportOut a) n) = Some (concat es)
            \<and> list_all (tsan_frame True) es)
    \<and> (\<forall>x. x \<notin> race_name (raceReportOut a) ` {..<outFileNo st} \<longrightarrow> files st x = d x)"
  using run_con_ok [OF assms] by (rule con_ok_outputs)

text \<open>Lines of a small report, for the witnesses of the other modes.\<close>

definition small_report :: "string \<Rightarrow> string list" where
  "small_report f = [''Read'' @ [nl], ''#0 '' @ f @ '' /a.c:1 m'' @ [nl], [nl],
     ''SUMMARY: ThreadSanitizer: data race'' @ [nl]]"

definition small_fs :: fs where
  "small_fs = [''in'' \<mapsto> concat (small_report ''f'' @ [separator])]"

definition small_con :: con_state where
  "small_con = run_lines (con_step example_args) 1 (small_report ''f'')
     (debug (boundary_msg 5) (con_init small_fs))"

lemma small_lines: "lines_of (concat (small_report ''f'' @ [separator])) = small_report ''f'' @ [separator]"
  by (rule lines_of_lines) (simp add: small_report_def separator_def)

lemma run_con_lines:
  assumes "d (raceReportIn a) = Some text" and "lines_of text = ls @ b # ms"
    and "re_test regBlockBreak b" and "\<forall>m \<in> set ms. \<not> re_test regBlockBreak m"
  shows "runNormalConAnalysis a d
    = Returns (run_lines (con_step a) 1 ls (debug (boundary_msg (Suc (length ls))) (con_init d)))"
  unfolding runNormalConAnalysis_def checkBlockIntegrity_def assms(1,2) last_block_at [OF assms(3,4)]
    option.case Let_def scan_before by (rule refl)

lemma small_con_run: "runNormalConAnalysis example_args small_fs = Returns small_con"
proof -
  have len: "Suc (length (small_report ''f'')) = 5" by (simp add: small_report_def)
  have "small_fs (raceReportIn example_args) = Some (concat (small_report ''f'' @ [separator]))"
    by (simp only: small_fs_def example_args_def args.select_convs) (simp del: concat_append)
  then show ?thesis
    using run_con_lines [of small_fs example_args _ "small_report ''f''" separator "[]"]
      small_lines separator_is_break
    unfolding small_con_def len by simp
qed

lemma small_con_files: "outFileNo small_con = 1"
  by code_simp

lemma con_files_witness:
  "outFileNo small_con = 1 \<and> (\<exists>es. es \<noteq> [] \<and> files small_con (race_name ''o'' 0) = Some (concat es)
     \<and> list_all (tsan_frame True) es)"
  using con_files [OF small_con_run] small_con_files by (auto simp: example_args_def)

section \<open>Where processing stops\<close>

text \<open>
  C4: both normal modes process the lines before the last block break of the file, one step per line
  in order, and nothing from that break on: a report still being written is left alone. Without any
  block break no line is processed.
\<close>

theorem normal_boundary:
  assumes "d (raceReportIn a) = Some text"
  shows "(lines_of text = ls @ b # ms \<and> re_test regBlockBreak b
            \<and> (\<forall>m \<in> set ms. \<not> re_test regBlockBreak m) \<longrightarrow>
          runNormalSyncLoop a d = Returns (run_lines (sync_step a) 1 ls
              (debug (boundary_msg (Suc (length ls))) (sync_init d)))
          \<and> runNormalConAnalysis a d = Returns (run_lines (con_step a) 1 ls
              (debug (boundary_msg (Suc (length ls))) (con_init d))))
    \<and> ((\<forall>m \<in> set (lines_of text). \<not> re_test regBlockBreak m) \<longrightarrow>
          runNormalSyncLoop a d = Returns (debug (boundary_msg 0) (sync_init d))
          \<and> runNormalConAnalysis a d = Returns (debug (boundary_msg 0) (con_init d)))"
proof (intro conjI impI)
  assume "lines_of text = ls @ b # ms \<and> re_test regBlockBreak b
            \<and> (\<forall>m \<in> set ms. \<not> re_test regBlockBreak m)"
  then show "runNormalSyncLoop a d = Returns (run_lines (sync_step a) 1 ls
              (debug (boundary_msg (Suc (length ls))) (sync_init d)))"
    and "runNormalConAnalysis a d = Returns (run_lines (con_step a) 1 ls
              (debug (boundary_msg (Suc (length ls))) (con_init d)))"
    using run_sync_lines [of d a, OF assms] run_con_lines [of d a, OF assms] by blast+
next
  assume none: "\<forall>m \<in> set (lines_of text). \<not> re_test regBlockBreak m"
  then have bound: "checkBlockIntegrity 0 (lines_of text) = 0"
    unfolding checkBlockIntegrity_def by (rule last_block_none)
  show "runNormalSyncLoop a d = Returns (debug (boundary_msg 0) (sync_init d))"
    and "runNormalConAnalysis a d = Returns (debug (boundary_msg 0) (con_init d))"
    unfolding runNormalSyncLoop_def runNormalConAnalysis_def assms option.case Let_def bound
      line_scan_empty by (rule refl)+
qed

lemma normal_boundary_witness:
  "runNormalSyncLoop example_args small_fs = Returns (run_lines (sync_step example_args) 1
     (small_report ''f'') (debug (boundary_msg (Suc (length (small_report ''f'')))) (sync_init small_fs)))"
proof -
  have "small_fs (raceReportIn example_args) = Some (concat (small_report ''f'' @ [separator]))"
    by (simp only: small_fs_def example_args_def args.select_convs) (simp del: concat_append)
  from normal_boundary [of small_fs example_args, OF this, of "small_report ''f''" separator "[]"]
  show ?thesis using separator_is_break small_lines by (metis empty_iff list.set(1))
qed

section \<open>The stack that conanalysis mode keeps\<close>

definition con_kind :: "string \<Rightarrow> line_kind" where
  "con_kind l =
     (if re_test regBlockStart l then KBlockStart
      else if re_test regReadStart l then KRead
      else (case re_match regCallStackLine l of
        Some g \<Rightarrow> KFrame g
      | None \<Rightarrow> if re_test regLineBreak l then KBlank
                else if re_test regBlockEnd l then KEnd else KOther))"

lemma con_kind_step:
  "con_kind l = KRead \<Longrightarrow>
     con_step a i l st = debug (line_msg i ''Read Start'') st\<lparr>flagReadStart := True, flagBlockStart := True\<rparr>"
  "con_kind l = KFrame g \<Longrightarrow>
     con_step a i l st =
       (if flagReadStart st \<and> flagBlockStart st
        then if intercepted (frame_file g) then st
             else debug (line_msg i ''Writing Content'') st\<lparr>resultList := resultList st @ [frame_entry g]\<rparr>
        else st)"
  "con_kind l = KBlank \<Longrightarrow>
     con_step a i l st = (con_flush a (debug (line_msg i ''Line Break'') st))\<lparr>flagReadStart := False\<rparr>"
  by (auto simp: con_kind_def con_step_def split: if_splits option.splits)

definition kept_entries :: "groups list \<Rightarrow> string list" where
  "kept_entries gs = map frame_entry (filter (\<lambda>g. \<not> intercepted (frame_file g)) gs)"

lemma con_stack_lines:
  assumes "list_all2 (\<lambda>l g. con_kind l = KFrame g) ls gs" and "flagReadStart st" and "flagBlockStart st"
  shows "resultList (run_lines (con_step a) i ls st) = resultList st @ kept_entries gs
    \<and> outFileNo (run_lines (con_step a) i ls st) = outFileNo st
    \<and> files (run_lines (con_step a) i ls st) = files st"
  using assms
proof (induction arbitrary: i st rule: list_all2_induct)
  case Nil
  then show ?case by (simp add: kept_entries_def)
next
  case (Cons l ls g gs)
  let ?st = "con_step a i l st"
  have "flagReadStart ?st" "flagBlockStart ?st" "outFileNo ?st = outFileNo st" "files ?st = files st"
    "resultList ?st = resultList st @ kept_entries [g]"
    using Cons.prems by (simp_all add: con_kind_step(2) [OF Cons.hyps(1)] kept_entries_def)
  with Cons.IH [of ?st "Suc i"] show ?case by (simp add: kept_entries_def)
qed

text \<open>
  C5: in \<open>conanalysis\<close> mode a read stack (its header, any number of frames, a blank line) becomes one new
  file holding all its frames outside the interceptors, in order; when every frame is intercepted no
  file is written. The list of frames is empty again afterwards.
\<close>

theorem con_read_stack:
  assumes "con_kind h = KRead" and "list_all2 (\<lambda>l g. con_kind l = KFrame g) ls gs"
    and "con_kind b = KBlank" and "resultList st = []"
  shows "resultList (run_lines (con_step a) i (h # ls @ [b]) st) = []
    \<and> outFileNo (run_lines (con_step a) i (h # ls @ [b]) st)
        = outFileNo st + (if kept_entries gs = [] then 0 else 1)
    \<and> files (run_lines (con_step a) i (h # ls @ [b]) st)
        = (if kept_entries gs = [] then files st
           else (files st)(race_name (raceReportOut a) (outFileNo st) \<mapsto> concat (kept_entries gs)))"
proof -
  define st1 where "st1 = con_step a i h st"
  define st2 where "st2 = run_lines (con_step a) (Suc i) ls st1"
  have "flagReadStart st1" "flagBlockStart st1" "resultList st1 = []" "outFileNo st1 = outFileNo st"
    "files st1 = files st"
    using assms(4) by (simp_all add: st1_def con_kind_step(1) [OF assms(1)])
  with con_stack_lines [OF assms(2), of st1 a "Suc i"]
  have st2: "resultList st2 = kept_entries gs" "outFileNo st2 = outFileNo st" "files st2 = files st"
    by (simp_all add: st2_def)
  have "run_lines (con_step a) i (h # ls @ [b]) st = con_step a (Suc i + length ls) b st2"
    by (simp add: run_lines_append st1_def st2_def)
  with st2 show ?thesis
    by (simp add: con_kind_step(3) [OF assms(3)] con_flush_def write_race_upd)
qed

lemma con_read_stack_witness:
  "files (run_lines (con_step example_args) 1
      [''Read'' @ [nl], ''#0 f /a.c:1 m'' @ [nl], [nl]] (con_init Map.empty)) (race_name ''o'' 0)
      = Some (''f (a.c:1)'' @ [nl])"
proof -
  have f: "(case con_kind (''#0 f /a.c:1 m'' @ [nl]) of KFrame g \<Rightarrow> frame_entry g = ''f (a.c:1)'' @ [nl]
       \<and> \<not> intercepted (frame_file g) | _ \<Rightarrow> False)" by code_simp
  then obtain g where g: "con_kind (''#0 f /a.c:1 m'' @ [nl]) = KFrame g" "frame_entry g = ''f (a.c:1)'' @ [nl]"
    "\<not> intercepted (frame_file g)" by (auto split: line_kind.splits)
  have "(case con_kind (''Read'' @ [nl]) of KRead \<Rightarrow> True | _ \<Rightarrow> False)"
    "(case con_kind [nl] of KBlank \<Rightarrow> True | _ \<Rightarrow> False)" by code_simp+
  then have "con_kind (''Read'' @ [nl]) = KRead" "con_kind [nl] = KBlank" by (auto split: line_kind.splits)
  from con_read_stack [OF this(1) _ this(2), of "[''#0 f /a.c:1 m'' @ [nl]]" "[g]" "con_init Map.empty" example_args 1]
  show ?thesis using g
    by (simp add: kept_entries_def con_init_def example_args_def)
qed

section \<open>Overnight mode\<close>

text \<open>
  C6: overnight mode, after any number of passes over any contents of the input, has only
  written files that hold a non-empty sequence of frames (interceptors included), numbered without
  a gap, and has changed no other file.
\<close>

theorem overnight_files:
  assumes "runOverNight a snapshots d = Returns st"
  shows "(\<forall>n < outFileNo (parse st). \<exists>es. es \<noteq> []
            \<and> files (parse st) (race_name (raceReportOut a) n) = Some (concat es)
            \<and> list_all (tsan_frame False) es)
    \<and> (\<forall>x. x \<notin> race_name (raceReportOut a) ` {..<outFileNo (parse st)} \<longrightarrow> files (parse st) x = d x)"
proof -
  have "con_ok False a d (parse st)"
    using assms by (auto simp: runOverNight_def con_ok_init intro!: overnight_passes_ok split: option.splits)
  then show ?thesis by (rule con_ok_outputs)
qed

definition small_old :: "string list" where
  "small_old = small_report ''f'' @ [separator]"

definition small_new :: "string list" where
  "small_new = [''Read'' @ [nl], ''#0 g /a.c:1 m'' @ [nl], [nl], separator]"

definition small_night :: overnight_state where
  "small_night = overnight_pass example_args small_old \<lparr>baseIndex = 0, position = 0, parse = con_init small_fs\<rparr>"

lemma small_night_run: "runOverNight example_args [small_old] small_fs = Returns small_night"
  by (simp add: runOverNight_def small_night_def small_fs_def example_args_def)

lemma small_night_index: "baseIndex small_night = 5 \<and> position small_night = 5 \<and> outFileNo (parse small_night) = 1"
  by code_simp

lemma overnight_files_witness:
  "outFileNo (parse small_night) = 1 \<and> (\<exists>es. es \<noteq> []
     \<and> files (parse small_night) (race_name ''o'' 0) = Some (concat es) \<and> list_all (tsan_frame False) es)"
  using overnight_files [OF small_night_run] small_night_index by (auto simp: example_args_def)

lemma lines_taken_window:
  "i \<le> b \<Longrightarrow> i + length ls = Suc b \<Longrightarrow> lines_taken b b i (ls @ ms) = length ls"
proof (induction ls arbitrary: i)
  case Nil
  then show ?case by simp
next
  case (Cons l ls)
  show ?case
  proof (cases "i = b")
    case True
    with Cons.prems show ?thesis by simp
  next
    case False
    with Cons.prems Cons.IH [of "Suc i"] show ?thesis by simp
  qed
qed

definition con_run_of :: "string list \<Rightarrow> con_state" where
  "con_run_of ls = line_scan (con_step example_args) 0 (checkBlockIntegrity 0 ls) 1 ls (con_init Map.empty)"

text \<open>
  C7: after a pass that consumed the file up to its end, a pass over the grown file processes nothing
  as long as fewer lines were added than the file had: the search for the new boundary starts behind
  the old lines but compares line numbers counted from 1 with the old boundary. The state
  is the same but for a log message, whatever reports were added.
\<close>

theorem overnight_growth_missed:
  assumes "baseIndex st = length old" and "position st = length old" and "0 < length old"
    and "length new < length old"
  shows "overnight_pass a (old @ new) st = st\<lparr>parse := debug (boundary_msg (length old)) (parse st)\<rparr>"
proof -
  have "last_block regBlockBreak (length old) 1 new (length old) = length old"
    using assms(4) by (intro last_block_below) simp
  then have bound: "checkBlockIntegrity (baseIndex st) (drop (position st) (old @ new)) = length old"
    using assms(1,2) by (simp add: checkBlockIntegrity_def)
  have "lines_taken (length old) (length old) 1 (old @ new) = length old"
    using lines_taken_window [of 1 "length old" old new] assms(3) by simp
  with bound show ?thesis
    by (cases st) (use assms(1,2) in \<open>simp add: overnight_pass_def line_scan_empty debug_def Let_def\<close>)
qed

lemma overnight_growth_missed_witness:
  "outFileNo (parse (overnight_pass example_args (small_old @ small_new) small_night)) = 1
   \<and> outFileNo (con_run_of (small_old @ small_new)) = 2"
proof -
  have len: "length small_old = 5" "length small_new = 4"
    by (simp_all add: small_old_def small_new_def small_report_def)
  have "overnight_pass example_args (small_old @ small_new) small_night
      = small_night\<lparr>parse := debug (boundary_msg (length small_old)) (parse small_night)\<rparr>"
    using small_night_index len by (intro overnight_growth_missed) simp_all
  moreover have "outFileNo (con_run_of (small_old @ small_new)) = 2" by code_simp
  ultimately show ?thesis using small_night_index by simp
qed

section \<open>Dispatch and errors\<close>

text \<open>
  An unknown mode ends with exit code 1 and its message, whatever the file system holds; in a known
  mode a missing input ends with exit code 1 and the message on the input; with the input there, a
  normal mode returns.
\<close>

lemma tsan_dispatch:
  "(mode a \<notin> {''overnight'', ''normal''} \<longrightarrow>
      tsan_main a snapshots d = BadMode (''Error: Unrecognizable mode'' @ [nl]) 1)
   \<and> (mode a = ''normal'' \<longrightarrow>
      (if d (raceReportIn a) = None
       then tsan_main a snapshots d = (if outputtype a = ''conanalysis''
              then ConAnalysis (Exits input_error 1) else SyncLoop (Exits input_error 1))
       else \<exists>c s. tsan_main a snapshots d = (if outputtype a = ''conanalysis''
              then ConAnalysis (Returns c) else SyncLoop (Returns s))))
   \<and> (mode a = ''overnight'' \<and> d (raceReportIn a) = None \<longrightarrow>
      tsan_main a snapshots d = Overnight (Exits input_error 1))"
  by (auto simp: tsan_main_def runOverNight_def runNormalConAnalysis_def runNormalSyncLoop_def Let_def)

end
