(* ===== verification/ValgrindParser.thy ===== *)
theory ValgrindParser
  imports TsanParser
begin

text \<open>
  \<open>scripts/valgrindOutputParser.py\<close>: Helgrind's report, line by line, into numbered \<open>.race\<close> files.
  Arguments, log and file access are those of \<open>TsanParser\<close>; a name with the suffix \<open>_vg\<close> is this script's
  version of a function both scripts have. The state adds the second write and the pending flag,
  with which two writes are paired.
\<close>

section \<open>Regular expressions (lines 22 to 41)\<close>

definition cls_func_vg :: "char \<Rightarrow> bool" where
  "cls_func_vg c \<longleftrightarrow> is_alnum c \<or> c \<in> set ''_:~<> ()*,&''"

definition cls_sig_vg :: "char \<Rightarrow> bool" where
  "cls_sig_vg c \<longleftrightarrow> is_alnum c \<or> c \<in> set ''*_, ()&''"

definition cls_addr_vg :: "char \<Rightarrow> bool" where
  "cls_addr_vg c \<longleftrightarrow> is_digit c \<or> c \<in> set ''ABCDEFx''"

definition cls_file_vg :: "char \<Rightarrow> bool" where
  "cls_file_vg c \<longleftrightarrow> is_alnum c \<or> c = CHR ''_'' \<or> c = CHR ''.''"

definition regCallStackLine_vg :: re where
  "regCallStackLine_vg = seqs
     [lit ''=='', Many is_digit, lit ''=='', Many is_space, Grp 1 (Alt (lit ''at'') (lit ''by'')), lit '' '',
      Many cls_addr_vg, lit '': '', Grp 2 (Many cls_func_vg),
      Opt (Grp 3 (seqs [lit ''('', Many cls_sig_vg, lit '')''])), lit '' '',
      Grp 4 (seqs [lit ''('', Many cls_file_vg, lit '':'', Many is_digit, lit '')''])]"

definition regWriteStart_vg :: re where
  "regWriteStart_vg = seqs [lit ''=='', Many is_digit, lit ''== '',
     Grp 1 (Alt (lit ''Possible data race during write'') (lit ''This conflicts with a previous write'')),
     Many any_char, Eol]"

definition regReadStart_vg :: re where
  "regReadStart_vg = seqs [lit ''=='', Many is_digit, lit ''== '',
     Grp 1 (Alt (lit ''Possible data race during read'') (lit ''This conflicts with a previous read'')),
     Many any_char, Eol]"

definition regBlockStart_vg :: re where
  "regBlockStart_vg = seqs [lit ''=='', Many is_digit, lit ''== '', Many1 (\<lambda>c. c = CHR ''-''), Eol]"

definition regLineBreak_vg :: re where
  "regLineBreak_vg = seqs [lit ''=='', Many is_digit, lit ''=='', Many is_space, Eol]"

definition regReadEnd_vg :: re where
  "regReadEnd_vg = seqs [lit ''=='', Many is_digit, lit ''==  Address'', Many any_char, Eol]"

section \<open>The parser\<close>

definition checkBlockIntegrity_vg :: "nat \<Rightarrow> string list \<Rightarrow> nat" where
  "checkBlockIntegrity_vg base lines = last_block regLineBreak_vg base 1 lines base"

record vg_state = sync_state +
  writeResultList2 :: "string list"
  pendingWriteFlag :: bool

definition wrapper :: string where
  "wrapper = ''mythread_wrapper''"

definition frame_entry_vg :: "groups \<Rightarrow> string" where
  "frame_entry_vg g = group g 2 @ '' '' @ group g 4 @ [nl]"

text \<open>The call-stack branch, lines 115 to 136: the read part, then the write part.\<close>

definition vg_read_frame :: "nat \<Rightarrow> groups \<Rightarrow> vg_state \<Rightarrow> vg_state" where
  "vg_read_frame i g st =
     (if flagReadStart st \<and> flagBlockStart st then
        if group g 2 \<noteq> wrapper then
          if length (readResultList st) = 0
          then debug (line_msg i ''Writing Content'') st\<lparr>readResultList := readResultList st @ [frame_entry_vg g]\<rparr>
          else st
        else st\<lparr>flagReadStart := False\<rparr>
      else st)"

definition vg_write_frame :: "nat \<Rightarrow> groups \<Rightarrow> vg_state \<Rightarrow> vg_state" where
  "vg_write_frame i g st =
     (if flagWriteStart st \<and> flagBlockStart st then
        if group g 2 \<noteq> wrapper then
          if length (writeResultList st) = 0
          then debug (line_msg i ''Writing Content'') st\<lparr>writeResultList := writeResultList st @ [frame_entry_vg g]\<rparr>
          else if 0 < length (writeResultList st) \<and> pendingWriteFlag st \<and> length (writeResultList2 st) = 0
          then debug (line_msg i ''Writing Content'') st\<lparr>writeResultList2 := writeResultList2 st @ [frame_entry_vg g]\<rparr>
          else st
        else st\<lparr>flagWriteStart := False\<rparr>
      else st)"

text \<open>The line-break branch without its last two assignments, lines 150 to 172.\<close>

definition vg_flush :: "args \<Rightarrow> nat \<Rightarrow> vg_state \<Rightarrow> vg_state" where
  "vg_flush a i st =
     (if 0 < length (writeResultList st) then
        if 0 < length (readResultList st) then
          debug (line_msg i ''Flush to file'')
            st\<lparr>files := write_race (raceReportOut a) (outFileNo st) [writeResultList st, readResultList st] (files st),
               outFileNo := Suc (outFileNo st), pendingWriteFlag := False,
               writeResultList := [], readResultList := []\<rparr>
        else if 0 < length (writeResultList2 st) then
          debug (line_msg i ''Flush to file'')
            st\<lparr>files := write_race (raceReportOut a) (outFileNo st) [writeResultList st, writeResultList2 st] (files st),
               outFileNo := Suc (outFileNo st), pendingWriteFlag := False,
               writeResultList := [], writeResultList2 := []\<rparr>
        else st\<lparr>pendingWriteFlag := True\<rparr>
      else st)"

definition vg_step :: "args \<Rightarrow> nat \<Rightarrow> string \<Rightarrow> vg_state \<Rightarrow> vg_state" where
  "vg_step a i line st =
     (if re_test regBlockStart_vg line then
        debug (line_msg i ''Block Start'') st
          \<lparr>flagBlockStart := True, writeResultList := [], readResultList := [],
           flagReadStart := False, flagWriteStart := False\<rparr>
      else if re_test regReadStart_vg line then
        debug (line_msg i ''Read Start'') st\<lparr>flagReadStart := True, flagBlockStart := True\<rparr>
      else if re_test regWriteStart_vg line then
        debug (line_msg i ''Write Start'') st\<lparr>flagWriteStart := True, flagBlockStart := True\<rparr>
      else if re_test regReadEnd_vg line then
        debug (line_msg i ''Read End'') st\<lparr>flagReadStart := False, flagWriteStart := False\<rparr>
      else (case re_match regCallStackLine_vg line of
        Some g \<Rightarrow> vg_write_frame i g (vg_read_frame i g (debug (line_msg i ''Call Stack Line'') st))
      | None \<Rightarrow>
          if re_test regLineBreak_vg line then
            (vg_flush a i (debug (line_msg i ''Line Break'') st))\<lparr>flagReadStart := False, flagWriteStart := False\<rparr>
          else st))"

definition vg_init :: "string list \<Rightarrow> fs \<Rightarrow> vg_state" where
  "vg_init messages d =
     \<lparr>flagBlockStart = False, flagReadStart = False, outFileNo = 0, files = d, plog = messages,
      flagWriteStart = False, writeResultList = [], readResultList = [],
      writeResultList2 = [], pendingWriteFlag = False\<rparr>"

definition runNormalSyncLoop_vg :: "args \<Rightarrow> string list \<Rightarrow> fs \<Rightarrow> vg_state run" where
  "runNormalSyncLoop_vg a messages d =
     (case d (raceReportIn a) of
        None \<Rightarrow> Exits input_error 1
      | Some text \<Rightarrow>
          let fp = lines_of text;
              boudaryIndex = checkBlockIntegrity_vg 0 fp
          in Returns (line_scan (vg_step a) 0 boudaryIndex 1 fp
                        (debug (boundary_msg boudaryIndex) (vg_init messages d))))"

text \<open>
  \<open>main\<close> refers to \<open>runOverNight\<close> and \<open>runNormalConAnalysis\<close>, which this script does not define: Python
  raises \<open>NameError\<close> there.
\<close>

datatype vg_result = NameError string | VgSync "vg_state run" | VgBadMode string nat

definition main_vg :: "args \<Rightarrow> fs \<Rightarrow> vg_result" where
  "main_vg a d =
     (if mode a = ''overnight'' then NameError ''runOverNight''
      else if mode a = ''normal'' then
        if outputtype a = ''conanalysis'' then NameError ''runNormalConAnalysis''
        else VgSync (runNormalSyncLoop_vg a [''Enter syncloop parsing:''] d)
      else VgBadMode (''Error: Unrecognizable mode'' @ [nl]) 1)"

section \<open>The invariant\<close>

text \<open>A frame of the output: a function that is not the thread wrapper, then \<open>(file:line)\<close>.\<close>

definition vg_frame :: "string \<Rightarrow> bool" where
  "vg_frame s \<longleftrightarrow>
     (\<exists>f file ds. s = f @ '' ('' @ file @ '':'' @ ds @ '')'' @ [nl] \<and> list_all cls_func_vg f
        \<and> f \<noteq> wrapper \<and> list_all cls_file_vg file \<and> list_all is_digit ds)"

lemma callstack_groups_vg:
  assumes "re_match regCallStackLine_vg l = Some g"
  shows "list_all cls_func_vg (group g 2)"
    and "\<exists>file ds. list_all cls_file_vg file \<and> list_all is_digit ds \<and> group g 4 = ''('' @ file @ '':'' @ ds @ '')''"
proof -
  from re_match_sound [OF assms] obtain s' where r: "reads regCallStackLine_vg l Map.empty s' g" ..
  have "list_all cls_func_vg (group g 2)
      \<and> (\<exists>file ds. list_all cls_file_vg file \<and> list_all is_digit ds \<and> group g 4 = ''('' @ file @ '':'' @ ds @ '')'')"
    using r unfolding regCallStackLine_vg_def
    by (auto elim!: reads_SeqE reads_EpsE reads_ManyE reads_GrpE reads_OptE reads_OneE reads_AltE
        simp: group_def)
  then show "list_all cls_func_vg (group g 2)"
    and "\<exists>file ds. list_all cls_file_vg file \<and> list_all is_digit ds \<and> group g 4 = ''('' @ file @ '':'' @ ds @ '')''"
    by auto
qed

lemma frame_entry_vg_frame:
  assumes "re_match regCallStackLine_vg l = Some g" and "group g 2 \<noteq> wrapper"
  shows "vg_frame (frame_entry_vg g)"
proof -
  from callstack_groups_vg(2) [OF assms(1)] obtain fl ds
    where "list_all cls_file_vg fl" "list_all is_digit ds" "group g 4 = ''('' @ fl @ '':'' @ ds @ '')''" by blast
  with assms(2) callstack_groups_vg(1) [OF assms(1)] show ?thesis
    unfolding vg_frame_def frame_entry_vg_def
    by (intro exI [of _ "group g 2"] exI [of _ fl] exI [of _ ds]) simp
qed

definition vg_pair :: "string \<Rightarrow> bool" where
  "vg_pair v \<longleftrightarrow> (\<exists>w r. v = w @ r \<and> vg_frame w \<and> vg_frame r)"

definition at_most_one :: "string list \<Rightarrow> bool" where
  "at_most_one l \<longleftrightarrow> l = [] \<or> (\<exists>e. l = [e] \<and> vg_frame e)"

definition vg_ok :: "args \<Rightarrow> fs \<Rightarrow> vg_state \<Rightarrow> bool" where
  "vg_ok a d0 st \<longleftrightarrow>
     at_most_one (writeResultList st) \<and> at_most_one (readResultList st) \<and> at_most_one (writeResultList2 st)
     \<and> outputs_ok (raceReportOut a) vg_pair d0 (outFileNo st) (files st)"

lemma debug_vg_sel [simp]:
  "writeResultList2 (debug m st) = writeResultList2 st" "pendingWriteFlag (debug m st) = pendingWriteFlag st"
  by (simp_all add: debug_def)

lemma at_most_one_simps [simp]: "at_most_one []" "at_most_one [e] \<longleftrightarrow> vg_frame e"
  by (simp_all add: at_most_one_def)

lemma vg_ok_flags:
  "vg_ok a d0 (debug m st) = vg_ok a d0 st"
  "vg_ok a d0 (st\<lparr>flagBlockStart := b\<rparr>) = vg_ok a d0 st"
  "vg_ok a d0 (st\<lparr>flagReadStart := b\<rparr>) = vg_ok a d0 st"
  "vg_ok a d0 (st\<lparr>flagWriteStart := b\<rparr>) = vg_ok a d0 st"
  "vg_ok a d0 (st\<lparr>pendingWriteFlag := b\<rparr>) = vg_ok a d0 st"
  by (simp_all add: vg_ok_def)

lemma pair_of_frames:
  "at_most_one ws \<Longrightarrow> at_most_one rs \<Longrightarrow> ws \<noteq> [] \<Longrightarrow> rs \<noteq> [] \<Longrightarrow> vg_pair (concat (concat [ws, rs]))"
  unfolding at_most_one_def vg_pair_def by (elim disjE exE conjE; simp) blast

lemma vg_flush_ok:
  assumes "vg_ok a d0 st"
  shows "vg_ok a d0 (vg_flush a i st)"
  using assms
  by (auto simp: vg_flush_def vg_ok_flags) (auto simp: vg_ok_def intro!: outputs_ok_step pair_of_frames)

lemma vg_read_frame_ok:
  "vg_ok a d0 st \<Longrightarrow> re_match regCallStackLine_vg l = Some g \<Longrightarrow> vg_ok a d0 (vg_read_frame i g st)"
  by (auto simp: vg_read_frame_def vg_ok_flags) (simp add: vg_ok_def frame_entry_vg_frame)

lemma vg_write_frame_ok:
  "vg_ok a d0 st \<Longrightarrow> re_match regCallStackLine_vg l = Some g \<Longrightarrow> vg_ok a d0 (vg_write_frame i g st)"
  by (auto simp: vg_write_frame_def vg_ok_flags) (simp_all add: vg_ok_def frame_entry_vg_frame)

lemma vg_ok_block_start:
  "vg_ok a d0 st \<Longrightarrow> vg_ok a d0 (debug m st\<lparr>flagBlockStart := True, writeResultList := [],
     readResultList := [], flagReadStart := False, flagWriteStart := False\<rparr>)"
  by (simp add: vg_ok_def)

lemma vg_step_ok:
  assumes "vg_ok a d0 st"
  shows "vg_ok a d0 (vg_step a i l st)"
proof (cases "re_test regBlockStart_vg l")
  case True
  with vg_ok_block_start [OF assms] show ?thesis by (simp add: vg_step_def)
next
  case False
  with assms show ?thesis
    by (cases "re_match regCallStackLine_vg l")
       (auto simp: vg_step_def vg_ok_flags intro!: vg_flush_ok vg_write_frame_ok vg_read_frame_ok)
qed

interpretation vg_loop: line_loop "vg_step a" "vg_ok a d0" for a d0
  by unfold_locales (rule vg_step_ok)

lemma vg_ok_init: "vg_ok a d (vg_init messages d)"
  by (simp add: vg_ok_def vg_init_def outputs_ok_init)

lemma run_vg_ok: "runNormalSyncLoop_vg a messages d = Returns st \<Longrightarrow> vg_ok a d st"
  by (auto simp: runNormalSyncLoop_vg_def Let_def vg_ok_flags vg_ok_init
      split: option.splits intro!: vg_loop.scan_inv)

end
