(* ===== verification/ValgrindProperties.thy ===== *)
theory ValgrindProperties
  imports ValgrindParser
begin

text \<open>
  The properties of \<open>scripts/valgrindOutputParser.py\<close>: what its files contain for any input, the pair it
  writes for each block of Helgrind's report, the stale second write, and the modes it does not have.
\<close>

definition example_vg_args :: args where
  "example_vg_args = \<lparr>mode = ''normal'', outputtype = ''syncloop'', raceReportIn = ''in'', raceReportOut = ''o''\<rparr>"

section \<open>Any input\<close>

text \<open>
  C8: whatever the input, the Helgrind parser only writes files that hold exactly two frames, each of the
  form \<open>function (file:line)\<close> with a function other than the thread wrapper, numbered without a gap,
  and no other file changes.
\<close>

theorem valgrind_files:
  assumes "runNormalSyncLoop_vg a messages d = Returns st"
  shows "(\<forall>n < outFileNo st. \<exists>w r. files st (race_name (raceReportOut a) n) = Some (w @ r)
            \<and> vg_frame w \<and> vg_frame r)
    \<and> (\<forall>x. x \<notin> race_name (raceReportOut a) ` {..<outFileNo st} \<longrightarrow> files st x = d x)"
  using run_vg_ok [OF assms] unfolding vg_ok_def outputs_ok_def vg_pair_def by blast

section \<open>The branch a line takes\<close>

datatype vg_kind = VBlockStart | VRead | VWrite | VReadEnd | VFrame groups | VBlank | VOther

definition vg_kind :: "string \<Rightarrow> vg_kind" where
  "vg_kind l =
     (if re_test regBlockStart_vg l then VBlockStart
      else if re_test regReadStart_vg l then VRead
      else if re_test regWriteStart_vg l then VWrite
      else if re_test regReadEnd_vg l then VReadEnd
      else (case re_match regCallStackLine_vg l of
        Some g \<Rightarrow> VFrame g
      | None \<Rightarrow> if re_test regLineBreak_vg l then VBlank else VOther))"

lemma vg_kind_step:
  "vg_kind l = VBlockStart \<Longrightarrow> vg_step a i l st = debug (line_msg i ''Block Start'') st
          \<lparr>flagBlockStart := True, writeResultList := [], readResultList := [],
           flagReadStart := False, flagWriteStart := False\<rparr>"
  "vg_kind l = VRead \<Longrightarrow>
     vg_step a i l st = debug (line_msg i ''Read Start'') st\<lparr>flagReadStart := True, flagBlockStart := True\<rparr>"
  "vg_kind l = VWrite \<Longrightarrow>
     vg_step a i l st = debug (line_msg i ''Write Start'') st\<lparr>flagWriteStart := True, flagBlockStart := True\<rparr>"
  "vg_kind l = VFrame g \<Longrightarrow>
     vg_step a i l st = vg_write_frame i g (vg_read_frame i g (debug (line_msg i ''Call Stack Line'') st))"
  "vg_kind l = VBlank \<Longrightarrow>
     vg_step a i l st = (vg_flush a i (debug (line_msg i ''Line Break'') st))
       \<lparr>flagReadStart := False, flagWriteStart := False\<rparr>"
  "vg_kind l = VOther \<Longrightarrow> vg_step a i l st = st"
  by (auto simp: vg_kind_def vg_step_def split: if_splits option.splits)

text \<open>The lines under an access header: frames and remarks such as the locks held.\<close>

definition stack_part :: "string \<Rightarrow> bool" where
  "stack_part l \<longleftrightarrow> vg_kind l = VOther \<or> (\<exists>g. vg_kind l = VFrame g)"

fun vg_top :: "string list \<Rightarrow> groups option" where
  "vg_top [] = None"
| "vg_top (l # ls) = (case vg_kind l of VFrame g \<Rightarrow> Some g | _ \<Rightarrow> vg_top ls)"

definition vg_stack :: "string list \<Rightarrow> groups \<Rightarrow> bool" where
  "vg_stack ls g \<longleftrightarrow> list_all stack_part ls \<and> vg_top ls = Some g \<and> group g 2 \<noteq> wrapper"

text \<open>The data behind the output, and the condition under which a frame adds nothing to it.\<close>

definition vg_data :: "vg_state \<Rightarrow> string list \<times> string list \<times> string list \<times> bool \<times> nat \<times> fs" where
  "vg_data st = (writeResultList st, writeResultList2 st, readResultList st, pendingWriteFlag st, outFileNo st, files st)"

definition settled :: "vg_state \<Rightarrow> bool" where
  "settled st \<longleftrightarrow> (flagReadStart st \<longrightarrow> readResultList st \<noteq> [])
     \<and> (flagWriteStart st \<longrightarrow> writeResultList st \<noteq> [] \<and> (pendingWriteFlag st \<longrightarrow> writeResultList2 st \<noteq> []))"

lemma vg_data_flags [simp]:
  "vg_data (debug m st) = vg_data st"
  "vg_data (st\<lparr>flagBlockStart := b\<rparr>) = vg_data st" "vg_data (st\<lparr>flagReadStart := b\<rparr>) = vg_data st"
  "vg_data (st\<lparr>flagWriteStart := b\<rparr>) = vg_data st"
  by (simp_all add: vg_data_def)

lemma settled_frame:
  "settled st \<Longrightarrow> settled (vg_write_frame i g (vg_read_frame i g st))
     \<and> vg_data (vg_write_frame i g (vg_read_frame i g st)) = vg_data st"
  by (auto simp: settled_def vg_write_frame_def vg_read_frame_def vg_data_def)

lemma settled_stack:
  "list_all stack_part ls \<Longrightarrow> settled st \<Longrightarrow>
     settled (run_lines (vg_step a) i ls st) \<and> vg_data (run_lines (vg_step a) i ls st) = vg_data st"
proof (induction ls arbitrary: i st)
  case Nil
  then show ?case by simp
next
  case (Cons l ls)
  have "settled (vg_step a i l st) \<and> vg_data (vg_step a i l st) = vg_data st"
  proof (cases "vg_kind l = VOther")
    case True
    with Cons.prems show ?thesis by (simp add: vg_kind_step)
  next
    case False
    with Cons.prems obtain g where g: "vg_kind l = VFrame g" by (auto simp: stack_part_def)
    have "settled (debug (line_msg i ''Call Stack Line'') st)"
      using Cons.prems(2) by (simp add: settled_def)
    from settled_frame [OF this, of i g] show ?thesis by (simp add: vg_kind_step(4) [OF g])
  qed
  with Cons show ?case by simp
qed

text \<open>The stack under a header does to the data what its top frame does.\<close>

lemma stack_run:
  assumes "list_all stack_part ls" and "vg_top ls = Some g"
    and "\<And>i m. settled (vg_write_frame i g (vg_read_frame i g (debug m st)))
       \<and> vg_data (vg_write_frame i g (vg_read_frame i g (debug m st))) = v"
  shows "vg_data (run_lines (vg_step a) i ls st) = v"
  using assms(1,2)
proof (induction ls arbitrary: i)
  case Nil
  then show ?case by simp
next
  case (Cons l ls)
  show ?case
  proof (cases "vg_kind l = VOther")
    case True
    with Cons show ?thesis by (simp add: vg_kind_step)
  next
    case False
    with Cons.prems have g: "vg_kind l = VFrame g" by (auto simp: stack_part_def)
    with Cons.prems(1) assms(3) show ?thesis
      by (simp add: vg_kind_step(4) [OF g] settled_stack)
  qed
qed

fun flush_vg :: "string \<Rightarrow> string list \<times> string list \<times> string list \<times> bool \<times> nat \<times> fs
    \<Rightarrow> string list \<times> string list \<times> string list \<times> bool \<times> nat \<times> fs" where
  "flush_vg out (w, w2, r, p, n, d) =
     (if w \<noteq> [] then
        if r \<noteq> [] then ([], w2, [], False, Suc n, write_race out n [w, r] d)
        else if w2 \<noteq> [] then ([], [], r, False, Suc n, write_race out n [w, w2] d)
        else (w, w2, r, True, n, d)
      else (w, w2, r, p, n, d))"

lemma vg_data_flush: "vg_data (vg_flush a i st) = flush_vg (raceReportOut a) (vg_data st)"
  by (auto simp: vg_flush_def vg_data_def)

lemma access_run:
  assumes "vg_stack ls g" and "vg_kind b = VBlank" and "\<not> flagReadStart st" and "\<not> flagWriteStart st"
    and "vg_data st = (w, w2, r, p, n, d)"
  shows "vg_kind h = VWrite \<Longrightarrow> w = [] \<Longrightarrow> \<not> p \<or> w2 \<noteq> [] \<Longrightarrow>
      vg_data (run_lines (vg_step a) i (h # ls @ [b]) st)
        = flush_vg (raceReportOut a) ([frame_entry_vg g], w2, r, p, n, d)"
    and "vg_kind h = VWrite \<Longrightarrow> w \<noteq> [] \<Longrightarrow> p \<Longrightarrow> w2 = [] \<Longrightarrow>
      vg_data (run_lines (vg_step a) i (h # ls @ [b]) st)
        = flush_vg (raceReportOut a) (w, [frame_entry_vg g], r, p, n, d)"
    and "vg_kind h = VRead \<Longrightarrow> r = [] \<Longrightarrow>
      vg_data (run_lines (vg_step a) i (h # ls @ [b]) st)
        = flush_vg (raceReportOut a) (w, w2, [frame_entry_vg g], p, n, d)"
    and "\<not> flagReadStart (run_lines (vg_step a) i (h # ls @ [b]) st)"
    and "\<not> flagWriteStart (run_lines (vg_step a) i (h # ls @ [b]) st)"
proof -
  have ls: "list_all stack_part ls" "vg_top ls = Some g" "group g 2 \<noteq> wrapper"
    using assms(1) by (simp_all add: vg_stack_def)
  have blank: "vg_data (run_lines (vg_step a) i (h # ls @ [b]) st)
      = flush_vg (raceReportOut a) (vg_data (run_lines (vg_step a) (Suc i) ls (vg_step a i h st)))"
    by (simp add: run_lines_append vg_kind_step(5) [OF assms(2)] vg_data_flush del: flush_vg.simps)
  show "\<not> flagReadStart (run_lines (vg_step a) i (h # ls @ [b]) st)"
    and "\<not> flagWriteStart (run_lines (vg_step a) i (h # ls @ [b]) st)"
    by (simp_all add: run_lines_append vg_kind_step(5) [OF assms(2)])
  have data: "writeResultList st = w" "writeResultList2 st = w2" "readResultList st = r"
    "pendingWriteFlag st = p" "outFileNo st = n" "files st = d"
    using assms(5) by (simp_all add: vg_data_def)
  show "vg_data (run_lines (vg_step a) i (h # ls @ [b]) st)
        = flush_vg (raceReportOut a) ([frame_entry_vg g], w2, r, p, n, d)"
    if "vg_kind h = VWrite" "w = []" "\<not> p \<or> w2 \<noteq> []"
    unfolding blank
    by (subst stack_run [OF ls(1,2), of _ "([frame_entry_vg g], w2, r, p, n, d)"])
       (use that ls(3) assms(3,4) data in
         \<open>auto simp: vg_kind_step vg_write_frame_def vg_read_frame_def settled_def vg_data_def\<close>)
  show "vg_data (run_lines (vg_step a) i (h # ls @ [b]) st)
        = flush_vg (raceReportOut a) (w, [frame_entry_vg g], r, p, n, d)"
    if "vg_kind h = VWrite" "w \<noteq> []" "p" "w2 = []"
    unfolding blank
    by (subst stack_run [OF ls(1,2), of _ "(w, [frame_entry_vg g], r, p, n, d)"])
       (use that ls(3) assms(3,4) data in
         \<open>auto simp: vg_kind_step vg_write_frame_def vg_read_frame_def settled_def vg_data_def\<close>)
  show "vg_data (run_lines (vg_step a) i (h # ls @ [b]) st)
        = flush_vg (raceReportOut a) (w, w2, [frame_entry_vg g], p, n, d)"
    if "vg_kind h = VRead" "r = []"
    unfolding blank
    by (subst stack_run [OF ls(1,2), of _ "(w, w2, [frame_entry_vg g], p, n, d)"])
       (use that ls(3) assms(3,4) data in
         \<open>auto simp: vg_kind_step vg_write_frame_def vg_read_frame_def settled_def vg_data_def\<close>)
qed

section \<open>A block of two accesses\<close>

text \<open>The two headers of a block and the pair the back end wants: a write first.\<close>

definition pair_of :: "vg_kind \<Rightarrow> vg_kind \<Rightarrow> groups \<Rightarrow> groups \<Rightarrow> string option" where
  "pair_of k1 k2 g1 g2 =
     (if k1 = VWrite \<and> (k2 = VRead \<or> k2 = VWrite) then Some (frame_entry_vg g1 @ frame_entry_vg g2)
      else if k1 = VRead \<and> k2 = VWrite then Some (frame_entry_vg g2 @ frame_entry_vg g1)
      else None)"


section \<open>The flag that outlives its block\<close>

lemma other_lines:
  "list_all (\<lambda>l. vg_kind l = VOther) ls \<Longrightarrow> run_lines (vg_step a) i ls st = st"
  by (induction ls arbitrary: i) (simp_all add: vg_kind_step)


section \<open>Concrete lines\<close>

definition vl :: "string \<Rightarrow> string" where
  "vl s = ''==1== '' @ s @ [nl]"

definition vl_start :: string where "vl_start = vl ''--''"
definition vl_write :: string where "vl_write = vl ''Possible data race during write''"
definition vl_read :: string where "vl_read = vl ''This conflicts with a previous read''"
definition vl_blank :: string where "vl_blank = vl []"
definition vl_frame :: "string \<Rightarrow> string" where "vl_frame f = vl (''at 0x1: '' @ f @ '' (a.c:1)'')"

definition vl_is_frame :: "string \<Rightarrow> bool" where
  "vl_is_frame f \<longleftrightarrow> (case vg_kind (vl_frame f) of
     VFrame g \<Rightarrow> group g 2 = f \<and> group g 4 = ''(a.c:1)'' | _ \<Rightarrow> False)"

lemma vl_kinds:
  "vg_kind vl_start = VBlockStart" "vg_kind vl_write = VWrite" "vg_kind vl_read = VRead" "vg_kind vl_blank = VBlank"
proof -
  have "(case vg_kind vl_start of VBlockStart \<Rightarrow> True | _ \<Rightarrow> False)"
    "(case vg_kind vl_write of VWrite \<Rightarrow> True | _ \<Rightarrow> False)"
    "(case vg_kind vl_read of VRead \<Rightarrow> True | _ \<Rightarrow> False)"
    "(case vg_kind vl_blank of VBlank \<Rightarrow> True | _ \<Rightarrow> False)" by code_simp+
  then show "vg_kind vl_start = VBlockStart" "vg_kind vl_write = VWrite" "vg_kind vl_read = VRead"
    "vg_kind vl_blank = VBlank" by (auto split: vg_kind.splits)
qed

lemma vl_frameE:
  assumes "vl_is_frame f"
  obtains g where "vg_kind (vl_frame f) = VFrame g" "group g 2 = f" "frame_entry_vg g = f @ '' (a.c:1)'' @ [nl]"
  using assms unfolding vl_is_frame_def frame_entry_vg_def by (auto split: vg_kind.splits)

lemma vl_frames: "vl_is_frame ''f''" "vl_is_frame ''g''"
  by code_simp+

lemma not_wrapper [simp]: "''f'' \<noteq> wrapper" "''g'' \<noteq> wrapper"
  by (simp_all add: wrapper_def)

lemma vl_stack:
  "vg_kind (vl_frame f) = VFrame g \<Longrightarrow> group g 2 = f \<Longrightarrow> f \<noteq> wrapper \<Longrightarrow> vg_stack [vl_frame f] g"
  by (simp add: vg_stack_def stack_part_def)

definition vl_block :: "string list" where
  "vl_block = vl_start # (vl_write # [vl_frame ''f''] @ [vl_blank]) @ (vl_read # [vl_frame ''g''] @ [vl_blank])"


text \<open>The same, read from the input file by the whole mode.\<close>

definition vl_fs :: fs where
  "vl_fs = [''in'' \<mapsto> concat (vl_block @ [vl_blank])]"

definition vl_run :: vg_state where
  "vl_run = run_lines (vg_step example_vg_args) 1 vl_block (debug (boundary_msg 8) (vg_init [] vl_fs))"

lemma vl_run: "runNormalSyncLoop_vg example_vg_args [] vl_fs = Returns vl_run"
proof -
  have lines: "lines_of (concat (vl_block @ [vl_blank])) = vl_block @ [vl_blank]"
    by (rule lines_of_lines)
       (simp add: vl_block_def vl_start_def vl_write_def vl_read_def vl_blank_def vl_frame_def vl_def)
  have "re_test regLineBreak_vg vl_blank" by code_simp
  then have bound: "checkBlockIntegrity_vg 0 (vl_block @ [vl_blank]) = Suc (length vl_block)"
    unfolding checkBlockIntegrity_vg_def using last_block_at [of regLineBreak_vg vl_blank "[]" vl_block] by simp
  have "Suc (length vl_block) = 8" by (simp add: vl_block_def)
  moreover have "vl_fs (raceReportIn example_vg_args) = Some (concat (vl_block @ [vl_blank]))"
    by (simp only: vl_fs_def example_vg_args_def args.select_convs) (simp del: concat_append)
  ultimately show ?thesis
    unfolding runNormalSyncLoop_vg_def vl_run_def
    using scan_before [of "vg_step example_vg_args" vl_block "[vl_blank]"]
    by (simp only: option.case Let_def lines bound)
qed

lemma vl_run_files: "outFileNo vl_run = 1"
  by code_simp

lemma valgrind_files_witness:
  "outFileNo vl_run = 1 \<and> (\<exists>w r. files vl_run (race_name ''o'' 0) = Some (w @ r) \<and> vg_frame w \<and> vg_frame r)"
  using valgrind_files [OF vl_run] vl_run_files by (simp add: example_vg_args_def)


section \<open>Dispatch\<close>

text \<open>
  The Helgrind parser only has the sync mode: \<open>overnight\<close> and \<open>conanalysis\<close>, both offered by its
  arguments, raise \<open>NameError\<close> whatever the input; an unknown mode or a missing input ends with exit code 1
  and a message.
\<close>

lemma valgrind_dispatch:
  "main_vg (a\<lparr>mode := ''overnight''\<rparr>) d = NameError ''runOverNight''
   \<and> main_vg (a\<lparr>mode := ''normal'', outputtype := ''conanalysis''\<rparr>) d = NameError ''runNormalConAnalysis''
   \<and> (mode a \<notin> {''overnight'', ''normal''} \<longrightarrow>
       main_vg a d = VgBadMode (''Error: Unrecognizable mode'' @ [nl]) 1)
   \<and> (mode a = ''normal'' \<and> outputtype a \<noteq> ''conanalysis'' \<and> d (raceReportIn a) = None \<longrightarrow>
       main_vg a d = VgSync (Exits input_error 1))"
  by (simp add: main_vg_def runNormalSyncLoop_vg_def)

end
