(* ===== verification/Effects.thy ===== *)
theory Effects
  imports PyPrelude
begin

text \<open>
  Statements of the trigger scripts as state transformers. A statement ends with a value, an
  exception, an endless busy loop (\<open>Spin\<close>) or blocked on a lock (\<open>Block\<close>); the outer option is
  \<open>None\<close> when a retry loop never ends. \<open>wp\<close> turns a claim on the outcome into one on the state
  before; its first argument says whether a retry loop may run forever.
\<close>

section \<open>Outcomes and statements\<close>

datatype exn =
    IndexError | ValueError string | AttributeError string | OSError string | IOError string
  | SystemExit nat | KeyboardInterrupt | StructError string | EOFError string | AssertionError string
  | KeyError int | UnboundLocalError string | MemcachedError int string | OtherError string

datatype 'a outcome = Ret 'a | Raise exn | Spin | Block

type_synonym ('s, 'a) prog = "'s \<Rightarrow> ('a outcome \<times> 's) option"

definition ret :: "'a \<Rightarrow> ('s, 'a) prog" where
  "ret x s = Some (Ret x, s)"

definition throw :: "exn \<Rightarrow> ('s, 'a) prog" where
  "throw e s = Some (Raise e, s)"

definition spin :: "('s, 'a) prog" where
  "spin s = Some (Spin, s)"

definition get :: "('s \<Rightarrow> 'a) \<Rightarrow> ('s, 'a) prog" where
  "get f s = Some (Ret (f s), s)"

definition modify :: "('s \<Rightarrow> 's) \<Rightarrow> ('s, unit) prog" where
  "modify f s = Some (Ret (), f s)"

definition call :: "('s \<Rightarrow> 'a \<times> 's) \<Rightarrow> ('s, 'a) prog" where
  "call f s = (case f s of (x, s') \<Rightarrow> Some (Ret x, s'))"

fun pass_on :: "('a \<Rightarrow> ('s, 'b) prog) \<Rightarrow> 'a outcome \<Rightarrow> ('s, 'b) prog" where
  "pass_on k (Ret x) s = k x s"
| "pass_on k (Raise e) s = Some (Raise e, s)"
| "pass_on k Spin s = Some (Spin, s)"
| "pass_on k Block s = Some (Block, s)"

definition bnd :: "('s, 'a) prog \<Rightarrow> ('a \<Rightarrow> ('s, 'b) prog) \<Rightarrow> ('s, 'b) prog" where
  "bnd m k s = (case m s of None \<Rightarrow> None | Some (r, s') \<Rightarrow> pass_on k r s')"

text \<open>A block of statements, a conditional statement, a loop over a list.\<close>

fun block :: "('s, unit) prog list \<Rightarrow> ('s, unit) prog" where
  "block [] = ret ()"
| "block (m # ms) = bnd m (\<lambda>_. block ms)"

definition whenever :: "bool \<Rightarrow> ('s, unit) prog \<Rightarrow> ('s, unit) prog" where
  "whenever b m = (if b then m else ret ())"

fun for_each :: "'a list \<Rightarrow> ('a \<Rightarrow> ('s, unit) prog) \<Rightarrow> ('s, unit) prog" where
  "for_each [] body = ret ()"
| "for_each (x # xs) body = bnd (body x) (\<lambda>_. for_each xs body)"

text \<open>Running a statement step by step.\<close>

named_theorems run_simps

lemma bnd_ret [run_simps]: "bnd (ret x) k s = k x s"
  by (simp add: bnd_def ret_def)

lemma bnd_throw [run_simps]: "bnd (throw e) k s = Some (Raise e, s)"
  by (simp add: bnd_def throw_def)

lemma bnd_spin [run_simps]: "bnd spin k s = Some (Spin, s)"
  by (simp add: bnd_def spin_def)

lemma bnd_get [run_simps]: "bnd (get f) k s = k (f s) s"
  by (simp add: bnd_def get_def)

lemma bnd_modify [run_simps]: "bnd (modify g) k s = k () (g s)"
  by (simp add: bnd_def modify_def)

lemma bnd_whenever [run_simps]: "bnd (whenever b m) k s = (if b then bnd m k s else k () s)"
  by (simp add: whenever_def bnd_ret)

lemma bnd_assoc [run_simps]: "bnd (bnd m k) k' s = bnd m (\<lambda>x. bnd (k x) k') s"
proof (cases "m s")
  case (Some p)
  then show ?thesis by (cases p; cases "fst p") (simp_all add: bnd_def)
qed (simp add: bnd_def)

lemma block_steps [run_simps]:
  "block [] s = Some (Ret (), s)"
  "block (m # ms) s = bnd m (\<lambda>_. block ms) s"
  by (simp_all add: ret_def)

lemma bnd_assoc_fun: "bnd (bnd m k) k' = bnd m (\<lambda>x. bnd (k x) k')"
  by (rule ext) (rule bnd_assoc)

lemma bnd_ret_fun: "bnd (ret x) k = k x"
  by (rule ext) (rule bnd_ret)

lemma block_append: "block (ms @ ns) = bnd (block ms) (\<lambda>_. block ns)"
  by (induction ms) (simp_all add: bnd_assoc_fun bnd_ret_fun)

lemma block_one: "block [m] s = m s"
proof (cases "m s")
  case (Some p)
  then show ?thesis by (cases p; cases "fst p") (simp_all add: bnd_def ret_def)
qed (simp add: bnd_def)

text \<open>\<open>except (KeyboardInterrupt, SystemExit): raise\<close> and then a bare \<open>except\<close>.\<close>

fun catches :: "exn \<Rightarrow> bool" where
  "catches KeyboardInterrupt = False"
| "catches (SystemExit n) = False"
| "catches _ = True"

definition try_except :: "('s, 'a) prog \<Rightarrow> (exn \<Rightarrow> ('s, 'a) prog) \<Rightarrow> ('s, 'a) prog" where
  "try_except m h s =
     (case m s of
        Some (Raise e, s') \<Rightarrow> if catches e then h e s' else Some (Raise e, s')
      | r \<Rightarrow> r)"

text \<open>\<open>while not test(): body\<close>, which may never end.\<close>

partial_function (option) until :: "('s, bool) prog \<Rightarrow> ('s, unit) prog \<Rightarrow> ('s, unit) prog" where
  "until test body s =
     Option.bind (test s) (\<lambda>(r, s1). case r of
         Ret b \<Rightarrow> if b then Some (Ret (), s1)
                  else Option.bind (body s1) (\<lambda>(r', s2). case r' of
                      Ret _ \<Rightarrow> until test body s2
                    | Raise e \<Rightarrow> Some (Raise e, s2) | Spin \<Rightarrow> Some (Spin, s2) | Block \<Rightarrow> Some (Block, s2))
       | Raise e \<Rightarrow> Some (Raise e, s1) | Spin \<Rightarrow> Some (Spin, s1) | Block \<Rightarrow> Some (Block, s1))"

declare until.simps [code]

section \<open>Claims on outcomes\<close>

text \<open>
  \<open>wp b m Q s\<close>: if \<open>m\<close> ends from \<open>s\<close>, outcome and state satisfy \<open>Q\<close>; whether it may also never end is
  \<open>b\<close>. The rules are for both at once, but for loops.
\<close>

definition wp :: "bool \<Rightarrow> ('s, 'a) prog \<Rightarrow> ('a outcome \<Rightarrow> 's \<Rightarrow> bool) \<Rightarrow> 's \<Rightarrow> bool" where
  "wp b m Q s = (case m s of None \<Rightarrow> b | Some (r, s') \<Rightarrow> Q r s')"

lemma wpI: "(\<And>r s'. m s = Some (r, s') \<Longrightarrow> Q r s') \<Longrightarrow> wp True m Q s"
  by (auto simp: wp_def split: option.splits)

lemma wpD: "wp b m Q s \<Longrightarrow> m s = Some (r, s') \<Longrightarrow> Q r s'"
  by (simp add: wp_def)

lemma wp_total: "wp False m Q s \<Longrightarrow> \<exists>r s'. m s = Some (r, s') \<and> Q r s'"
  by (auto simp: wp_def split: option.splits)

lemma wp_mono: "wp b m Q s \<Longrightarrow> (\<And>r s'. Q r s' \<Longrightarrow> Q' r s') \<Longrightarrow> wp b m Q' s"
  by (auto simp: wp_def split: option.splits)

lemma wp_conj: "wp b m Q s \<Longrightarrow> wp b m Q' s \<Longrightarrow> wp b m (\<lambda>r s'. Q r s' \<and> Q' r s') s"
  by (auto simp: wp_def split: option.splits)

text \<open>What happens to a postcondition at a sequence point.\<close>

fun at_seq :: "('a \<Rightarrow> 's \<Rightarrow> bool) \<Rightarrow> ('b outcome \<Rightarrow> 's \<Rightarrow> bool) \<Rightarrow> 'a outcome \<Rightarrow> 's \<Rightarrow> bool" where
  "at_seq K Q (Ret x) s = K x s"
| "at_seq K Q (Raise e) s = Q (Raise e) s"
| "at_seq K Q Spin s = Q Spin s"
| "at_seq K Q Block s = Q Block s"

named_theorems wp_simps

lemma wp_ret [wp_simps]: "wp b (ret x) Q s = Q (Ret x) s"
  by (simp add: wp_def ret_def)

lemma wp_throw [wp_simps]: "wp b (throw e) Q s = Q (Raise e) s"
  by (simp add: wp_def throw_def)

lemma wp_spin [wp_simps]: "wp b spin Q s = Q Spin s"
  by (simp add: wp_def spin_def)

lemma wp_get [wp_simps]: "wp b (get f) Q s = Q (Ret (f s)) s"
  by (simp add: wp_def get_def)

lemma wp_modify [wp_simps]: "wp b (modify g) Q s = Q (Ret ()) (g s)"
  by (simp add: wp_def modify_def)

lemma wp_call [wp_simps]: "wp b (call h) Q s = (case h s of (y, s') \<Rightarrow> Q (Ret y) s')"
  by (simp add: wp_def call_def split: prod.splits)

lemma wp_bnd [wp_simps]: "wp b (bnd m k) Q s = wp b m (at_seq (\<lambda>x. wp b (k x) Q) Q) s"
proof (cases "m s")
  case (Some p)
  then show ?thesis by (cases p; cases "fst p") (auto simp: wp_def bnd_def)
qed (simp add: wp_def bnd_def)

lemma wp_block [wp_simps]:
  "wp b (block []) Q s = Q (Ret ()) s"
  "wp b (block (m # ms)) Q s = wp b m (at_seq (\<lambda>_. wp b (block ms) Q) Q) s"
  by (simp_all add: wp_simps)

lemma wp_whenever [wp_simps]: "wp b (whenever c m) Q s = (if c then wp b m Q s else Q (Ret ()) s)"
  by (simp add: whenever_def wp_simps)

lemma wp_for_each [wp_simps]:
  "wp b (for_each [] body) Q s = Q (Ret ()) s"
  "wp b (for_each (x # xs) body) Q s = wp b (body x) (at_seq (\<lambda>_. wp b (for_each xs body) Q) Q) s"
  by (simp_all add: wp_simps)

lemma wp_try [wp_simps]:
  "wp b (try_except m h) Q s =
     wp b m (\<lambda>r s'. case r of Raise e \<Rightarrow> if catches e then wp b (h e) Q s' else Q (Raise e) s' | _ \<Rightarrow> Q r s') s"
  by (auto simp: wp_def try_except_def split: option.splits outcome.splits)

lemma wp_if [wp_simps]: "wp b (if c then m else m') Q s = (if c then wp b m Q s else wp b m' Q s)"
  by simp

text \<open>A loop over a list keeps what its body keeps.\<close>

lemma wp_for_each_inv:
  assumes "I xs s"
    and "\<And>x ys s. set (x # ys) \<subseteq> set xs \<Longrightarrow> I (x # ys) s \<Longrightarrow> wp b (body x) (at_seq (\<lambda>_. I ys) Q) s"
    and "\<And>s. I [] s \<Longrightarrow> Q (Ret ()) s"
  shows "wp b (for_each xs body) Q s"
proof -
  have "wp b (for_each ys body) Q s" if "I ys s" "set ys \<subseteq> set xs" for ys s
    using that
  proof (induction ys arbitrary: s)
    case Nil
    with assms(3) show ?case by (simp add: wp_simps)
  next
    case (Cons y ys)
    have "wp b (body y) (at_seq (\<lambda>_. wp b (for_each ys body) Q) Q) s"
    proof (rule wp_mono [OF assms(2)])
      show "set (y # ys) \<subseteq> set xs" "I (y # ys) s" using Cons.prems by auto
    next
      fix r s'
      assume "at_seq (\<lambda>_. I ys) Q r s'"
      with Cons.IH [of s'] Cons.prems(2) show "at_seq (\<lambda>_. wp b (for_each ys body) Q) Q r s'" by (cases r) auto
    qed
    then show ?case by (simp only: wp_for_each)
  qed
  with assms(1) show ?thesis by blast
qed

text \<open>The loop rules: an invariant for every round.\<close>

lemma wp_until_partial:
  assumes inv: "I s"
    and test: "\<And>s. I s \<Longrightarrow> wp True test (at_seq (\<lambda>b s'. if b then Q (Ret ()) s' else J s') Q) s"
    and body: "\<And>s. J s \<Longrightarrow> wp True body (at_seq (\<lambda>_. I) Q) s"
  shows "wp True (until test body) Q s"
proof (rule wpI)
  fix r s'
  assume "until test body s = Some (r, s')"
  then show "Q r s'" using assms
  proof (induction test body s "(r, s')" rule: until.raw_induct [rotated, consumes 1, case_names step])
    case (step f test body s)
    note IH = step(1) and eq = step(2) and inv = step(3) and test = step(4) and body = step(5)
    obtain r1 s1 where t: "test s = Some (r1, s1)" using eq by (cases "test s") auto
    have after: "at_seq (\<lambda>b s'. if b then Q (Ret ()) s' else J s') Q r1 s1"
      using wpD [OF test [OF inv] t] .
    show ?case
    proof (cases "r1 = Ret False")
      case True
      then obtain r2 s2 where b: "body s1 = Some (r2, s2)" using t eq by (cases "body s1") auto
      have "at_seq (\<lambda>_. I) Q r2 s2" using wpD [OF body b] after True by simp
      then show ?thesis using t b True eq IH test body by (cases r2) auto
    next
      case False
      then show ?thesis using t after eq by (cases r1) auto
    qed
  qed
qed

text \<open>With a bound on the failed tests the loop ends as well.\<close>

lemma wp_until_unfold:
  "wp b (until test body) Q s =
     wp b test (at_seq (\<lambda>c s1. if c then Q (Ret ()) s1
         else wp b body (at_seq (\<lambda>_. wp b (until test body) Q) Q) s1) Q) s"
proof (cases "test s")
  case None
  then show ?thesis by (simp add: wp_def until.simps [of _ _ s])
next
  case (Some p)
  obtain r1 s1 where t: "test s = Some (r1, s1)" using Some by (cases p) auto
  show ?thesis
  proof (cases "r1 = Ret False")
    case False
    with t show ?thesis by (cases r1) (auto simp: wp_def until.simps [of _ _ s])
  next
    case True
    show ?thesis
    proof (cases "body s1")
      case None
      with t True show ?thesis by (simp add: wp_def until.simps [of _ _ s])
    next
      case (Some q)
      then obtain r2 s2 where "body s1 = Some (r2, s2)" by (cases q) auto
      with t True show ?thesis by (cases r2) (simp_all add: wp_def until.simps [of _ _ s])
    qed
  qed
qed

lemma at_seq_mono:
  "at_seq K Q r s \<Longrightarrow> (\<And>x. K x s \<Longrightarrow> K' x s) \<Longrightarrow> (\<And>r'. Q r' s \<Longrightarrow> Q' r' s) \<Longrightarrow> at_seq K' Q' r s"
  by (cases r) auto

lemma wp_until_total:
  fixes n :: nat
  assumes "I n s"
    and test: "\<And>n s. I n s \<Longrightarrow> wp b test (at_seq (\<lambda>c s'. if c then Q (Ret ()) s' else 0 < n \<and> J (n - 1) s') Q) s"
    and body: "\<And>n s. J n s \<Longrightarrow> wp b body (at_seq (\<lambda>_. I n) Q) s"
  shows "wp b (until test body) Q s"
  using assms(1)
proof (induction n arbitrary: s)
  case 0
  show ?case
    by (subst wp_until_unfold, rule wp_mono [OF test [OF 0]], erule at_seq_mono) auto
next
  case (Suc n)
  show ?case
  proof (subst wp_until_unfold, rule wp_mono [OF test [OF Suc.prems]], erule at_seq_mono)
    fix c s1
    assume "if c then Q (Ret ()) s1 else 0 < Suc n \<and> J (Suc n - 1) s1"
    moreover have "wp b body (at_seq (\<lambda>_. wp b (until test body) Q) Q) s1" if "J n s1"
      by (rule wp_mono [OF body [OF that]], erule at_seq_mono) (auto intro: Suc.IH)
    ultimately show "if c then Q (Ret ()) s1
        else wp b body (at_seq (\<lambda>_. wp b (until test body) Q) Q) s1" by (cases c) simp_all
  qed
qed

section \<open>What a statement keeps\<close>

text \<open>\<open>keeps f m\<close>: however \<open>m\<close> ends, the part \<open>f\<close> of the state is as before.\<close>

definition keeps :: "('w \<Rightarrow> 'v) \<Rightarrow> ('w, 'a) prog \<Rightarrow> bool" where
  "keeps f m \<longleftrightarrow> (\<forall>w r w'. m w = Some (r, w') \<longrightarrow> f w' = f w)"

named_theorems keeps_intros

lemma keepsD: "keeps f m \<Longrightarrow> m w = Some (r, w') \<Longrightarrow> f w' = f w"
  unfolding keeps_def by blast

lemma keeps_bnd [keeps_intros]:
  assumes "keeps f m" and "\<And>x. keeps f (k x)"
  shows "keeps f (bnd m k)"
  unfolding keeps_def
proof (intro allI impI)
  fix w r w'
  assume b: "bnd m k w = Some (r, w')"
  then obtain r1 w1 where m: "m w = Some (r1, w1)" "pass_on k r1 w1 = Some (r, w')"
    by (auto simp: bnd_def split: option.splits)
  have "f w' = f w1" using m(2) keepsD [OF assms(2)] by (cases r1) auto
  with keepsD [OF assms(1) m(1)] show "f w' = f w" by simp
qed

lemma keeps_ret [keeps_intros]: "keeps f (ret x)"
  by (simp add: keeps_def ret_def)

lemma keeps_throw [keeps_intros]: "keeps f (throw e)"
  by (simp add: keeps_def throw_def)

lemma keeps_get [keeps_intros]: "keeps f (get g)"
  by (simp add: keeps_def get_def)

lemma keeps_modify [keeps_intros]: "(\<And>s. f (g s) = f s) \<Longrightarrow> keeps f (modify g)"
  by (simp add: keeps_def modify_def)

lemma keeps_spin [keeps_intros]: "keeps f spin"
  by (simp add: keeps_def spin_def)

lemma keeps_if [keeps_intros]: "keeps f m \<Longrightarrow> keeps f m' \<Longrightarrow> keeps f (if c then m else m')"
  by simp

lemma keeps_block [keeps_intros]:
  "keeps f (block [])"
  "keeps f m \<Longrightarrow> keeps f (block ms) \<Longrightarrow> keeps f (block (m # ms))"
  by (simp_all add: keeps_intros)

lemma keeps_whenever [keeps_intros]: "keeps f m \<Longrightarrow> keeps f (whenever c m)"
  by (simp add: whenever_def keeps_intros)

lemma keeps_for_each [keeps_intros]: "(\<And>x. keeps f (body x)) \<Longrightarrow> keeps f (for_each xs body)"
  by (induction xs) (simp_all add: keeps_intros)

lemma keeps_try [keeps_intros]:
  "keeps f m \<Longrightarrow> (\<And>e. keeps f (h e)) \<Longrightarrow> keeps f (try_except m h)"
  unfolding keeps_def try_except_def by (auto split: option.splits outcome.splits if_splits)

lemma keeps_wp: "keeps f m \<longleftrightarrow> (\<forall>s. wp True m (\<lambda>_ s'. f s' = f s) s)"
  by (auto simp: keeps_def wp_def split: option.splits)

lemma keeps_round:
  assumes "keeps f m" and "f s1 = v" and "\<And>x s2. f s2 = v \<Longrightarrow> K x s2"
  shows "wp True m (at_seq K (\<lambda>_ s'. f s' = v)) s1"
proof (rule wpI)
  fix r s2
  assume "m s1 = Some (r, s2)"
  with assms(1,2) have "f s2 = v" by (auto simp: keeps_def)
  with assms(3) show "at_seq K (\<lambda>_ s'. f s' = v) r s2" by (cases r) simp_all
qed

lemma keeps_until [keeps_intros]:
  assumes "keeps f test" and "keeps f body"
  shows "keeps f (until test body)"
  unfolding keeps_wp
proof
  fix s
  show "wp True (until test body) (\<lambda>_ s'. f s' = f s) s"
    by (rule wp_until_partial [of "\<lambda>s1. f s1 = f s" _ _ _ "\<lambda>s1. f s1 = f s"])
       (auto intro!: keeps_round assms)
qed

end
