(* ===== verification/Debugger.thy ===== *)
theory Debugger
  imports Effects
begin

text \<open>
  What both generations of the trigger script share: the LLDB bindings and operating system they
  call, as the argument \<open>lldb_api\<close> of the model (over a type of debugger worlds, thread handles and frames);
  the scripts' globals as a record; locks, the output file, the clock. An API function that can
  change the debuggee returns the next world; a query does not change it. Times are in milliseconds.
\<close>

section \<open>The interface\<close>

text \<open>
  \<open>frame.GetValueForVariablePath(token)\<close> seen through \<open>GetAddress()\<close>: no value, an address
  (its \<open>__hex__()\<close>), or an exception out of the bindings.
\<close>

datatype var_value = No_value | Address string | Fails string

record ('w, 't, 'f) lldb_api =
  ProcessThreads :: "'w \<Rightarrow> 't list"
  IsValid :: "'w \<Rightarrow> bool"
  is_stopped :: "'w \<Rightarrow> bool"
  Stop :: "'w \<Rightarrow> bool \<times> 'w"
  Continue :: "'w \<Rightarrow> bool \<times> 'w"
  GetThreadID :: "'t \<Rightarrow> nat"
  GetThreadByID :: "nat \<Rightarrow> 'w \<Rightarrow> 't"
  StopReasonBreakpoint :: "'t \<Rightarrow> 'w \<Rightarrow> bool"
  IsSuspended :: "'t \<Rightarrow> 'w \<Rightarrow> bool"
  Suspend :: "'t \<Rightarrow> 'w \<Rightarrow> bool \<times> 'w"
  Resume :: "'t \<Rightarrow> 'w \<Rightarrow> bool \<times> 'w"
  GetFrameAtIndex0 :: "'t \<Rightarrow> 'w \<Rightarrow> 'f"
  GetSelectedFrame :: "'t \<Rightarrow> 'w \<Rightarrow> 'f"
  GetThread :: "'f \<Rightarrow> 't"
  FrameIsValid :: "'f \<Rightarrow> 'w \<Rightarrow> bool"
  FrameLine :: "'f \<Rightarrow> 'w \<Rightarrow> int"
  GetValueForVariablePath :: "'f \<Rightarrow> string \<Rightarrow> 'w \<Rightarrow> var_value"
  FileSpecIsValid :: "string \<Rightarrow> bool"
  DisplaySourceLines :: "string \<Rightarrow> int \<Rightarrow> 'w \<Rightarrow> string"
  BreakpointCreateByLocation :: "string \<Rightarrow> int \<Rightarrow> 'w \<Rightarrow> nat \<times> 'w"
  SetScriptCallbackFunction :: "nat \<Rightarrow> string \<Rightarrow> 'w \<Rightarrow> 'w"
  SetAsync :: "bool \<Rightarrow> 'w \<Rightarrow> 'w"
  HandleCommand :: "string \<Rightarrow> 'w \<Rightarrow> 'w"
  SBDebugger_Terminate :: "'w \<Rightarrow> 'w"
  time_time :: "'w \<Rightarrow> int \<times> 'w"
  time_sleep :: "'w \<Rightarrow> 'w"
  str_time :: "int \<Rightarrow> string"
  randrange :: "nat \<Rightarrow> 'w \<Rightarrow> nat \<times> 'w"
  read_lines :: "string \<Rightarrow> 'w \<Rightarrow> string list option"
  pipe_output :: "string list \<Rightarrow> string list \<Rightarrow> 'w \<Rightarrow> (exn + string) \<times> 'w"

section \<open>The scripts' globals\<close>

text \<open>The user-set constants, and the two a copy of the script may differ in besides them.\<close>

record config =
  WAIT_TIME :: int
  KILL_TIME :: int
  TERM_TIME :: int
  INTERACTIVE :: bool
  TSAN_REPORT_FILE :: string
  ARG_FILE :: string
  OUTPUT_FILENAME :: string
  break_chars :: string
  kill_when_interactive :: bool

text \<open>
  An element of \<open>OBJ_ARR\<close>: the list \<open>addrs + [kind, ID]\<close>; the record's fields are its \<open>[:-2]\<close>,
  \<open>[-2]\<close> and \<open>[-1]\<close>.
\<close>

record watch =
  addrs_of :: "string list"
  kind_of :: string
  tid_of :: nat

datatype fd_state = NoFile | OpenFile | ClosedFile

datatype lock = timer_lock | print_lock | process_lock

record 'w tstate =
  LAST_BREAK :: int
  RUNNING :: bool
  OBJ_ARR :: "watch list"
  STATUS_FOUND :: bool
  OUTPUT_FD :: fd_state
  written :: "string list"
  printed :: "string list"
  FILE_READ :: string
  LINE_NUM_READ :: int
  FILE_WRITE :: string
  LINE_NUM_WRITE :: int
  held :: "lock \<Rightarrow> bool"
  bp_source :: "string list"
  bp_location :: "string list list"
  timers :: nat
  world :: 'w

definition init_state :: "'w \<Rightarrow> 'w tstate" where
  "init_state w = \<lparr>LAST_BREAK = 0, RUNNING = False, OBJ_ARR = [], STATUS_FOUND = False, OUTPUT_FD = NoFile,
     written = [], printed = [], FILE_READ = [], LINE_NUM_READ = 0, FILE_WRITE = [], LINE_NUM_WRITE = 0,
     held = (\<lambda>_. False), bp_source = [], bp_location = [], timers = 0, world = w\<rparr>"

section \<open>Basic statements\<close>

text \<open>A query of the world, and an operation on it.\<close>

definition ask :: "('w \<Rightarrow> 'a) \<Rightarrow> ('w tstate, 'a) prog" where
  "ask f = get (\<lambda>s. f (world s))"

definition act :: "('w \<Rightarrow> 'a \<times> 'w) \<Rightarrow> ('w tstate, 'a) prog" where
  "act f = call (\<lambda>s. case f (world s) of (x, w) \<Rightarrow> (x, s\<lparr>world := w\<rparr>))"

definition perform :: "('w \<Rightarrow> 'w) \<Rightarrow> ('w tstate, unit) prog" where
  "perform f = modify (\<lambda>s. s\<lparr>world := f (world s)\<rparr>)"

text \<open>\<open>lock.acquire()\<close> blocks on a held lock, and no other thread releases it: the one that holds it is stuck.\<close>

definition acquire :: "lock \<Rightarrow> ('w tstate, unit) prog" where
  "acquire l s = (if held s l then Some (Block, s) else Some (Ret (), s\<lparr>held := (held s)(l := True)\<rparr>))"

definition release :: "lock \<Rightarrow> ('w tstate, unit) prog" where
  "release l = modify (\<lambda>s. s\<lparr>held := (held s)(l := False)\<rparr>)"

definition py_print :: "string \<Rightarrow> ('w tstate, unit) prog" where
  "py_print msg = modify (\<lambda>s. s\<lparr>printed := printed s @ [msg]\<rparr>)"

text \<open>\<open>OUTPUT_FD.write\<close> and \<open>OUTPUT_FD.close\<close>.\<close>

definition fd_write :: "string \<Rightarrow> ('w tstate, unit) prog" where
  "fd_write msg s = (case OUTPUT_FD s of
       NoFile \<Rightarrow> Some (Raise (AttributeError ''write''), s)
     | ClosedFile \<Rightarrow> Some (Raise (ValueError ''I/O operation on closed file''), s)
     | OpenFile \<Rightarrow> Some (Ret (), s\<lparr>written := written s @ [msg]\<rparr>))"

definition fd_close :: "('w tstate, unit) prog" where
  "fd_close s = (case OUTPUT_FD s of
       NoFile \<Rightarrow> Some (Raise (AttributeError ''close''), s)
     | _ \<Rightarrow> Some (Ret (), s\<lparr>OUTPUT_FD := ClosedFile\<rparr>))"

definition indexed :: "'a list \<Rightarrow> int \<Rightarrow> ('s, 'a) prog" where
  "indexed xs i = (case py_index xs i of None \<Rightarrow> throw IndexError | Some x \<Rightarrow> ret x)"

definition from_option :: "exn \<Rightarrow> 'a option \<Rightarrow> ('s, 'a) prog" where
  "from_option e r = (case r of None \<Rightarrow> throw e | Some x \<Rightarrow> ret x)"

definition open_for_write :: "string \<Rightarrow> ('w tstate, unit) prog" where
  "open_for_write name = modify (\<lambda>s. s\<lparr>OUTPUT_FD := OpenFile, written := []\<rparr>)"

lemma bnd_ask [run_simps]: "bnd (ask f) k s = k (f (world s)) s"
  by (simp add: ask_def bnd_get)

lemma bnd_act [run_simps]: "bnd (act g) k s = k (fst (g (world s))) (s\<lparr>world := snd (g (world s))\<rparr>)"
  by (simp add: bnd_def act_def call_def split: prod.splits)

lemma bnd_perform [run_simps]: "bnd (perform h) k s = k () (s\<lparr>world := h (world s)\<rparr>)"
  by (simp add: perform_def bnd_modify)

lemma bnd_print [run_simps]: "bnd (py_print m) k s = k () (s\<lparr>printed := printed s @ [m]\<rparr>)"
  by (simp add: py_print_def bnd_modify)

lemma bnd_acquire [run_simps]:
  "bnd (acquire l) k s =
     (if held s l then Some (Block, s) else k () (s\<lparr>held := (held s)(l := True)\<rparr>))"
  by (simp add: bnd_def acquire_def)

lemma bnd_release [run_simps]: "bnd (release l) k s = k () (s\<lparr>held := (held s)(l := False)\<rparr>)"
  by (simp add: release_def bnd_modify)

lemma bnd_indexed [run_simps]:
  "bnd (indexed xs i) k s = (case py_index xs i of None \<Rightarrow> Some (Raise IndexError, s) | Some x \<Rightarrow> k x s)"
  by (simp add: indexed_def bnd_throw bnd_ret split: option.splits)

lemma bnd_from_option [run_simps]:
  "bnd (from_option e r) k s = (case r of None \<Rightarrow> Some (Raise e, s) | Some x \<Rightarrow> k x s)"
  by (simp add: from_option_def bnd_throw bnd_ret split: option.splits)

end
