(* ===== verification/Trigger.thy ===== *)
theory Trigger
  imports Debugger PyRegex
begin

text \<open>
  \<open>scripts/conbreak/src/trigger/trigger.py\<close>: the LLDB script that tries to provoke a reported race. Every
  function is a statement over the globals of \<open>Debugger\<close>; \<open>c\<close> stands for the user-set constants and \<open>A\<close>
  for the LLDB bindings. \<open>trigger_config\<close> has the constants of the file.
\<close>

section \<open>Constants (lines 11 to 21)\<close>

definition cls_bp_path :: "char \<Rightarrow> bool" where
  "cls_bp_path ch \<longleftrightarrow> is_alnum ch \<or> ch \<in> set ''_~./-''"

definition regBreakpoint :: re where
  "regBreakpoint = seqs [Many any_char, lit ''('', Grp 1 (Many cls_bp_path), lit '':'', Grp 2 (Many is_digit),
     Opt (Grp 3 (Seq (lit '':'') (Many is_digit))), lit '')'', Many any_char]"

definition trigger_config :: config where
  "trigger_config = \<lparr>WAIT_TIME = 500, KILL_TIME = 5000, TERM_TIME = 20000, INTERACTIVE = False,
     TSAN_REPORT_FILE = ''report.txt'', ARG_FILE = ''args.txt'', OUTPUT_FILENAME = ''lldb_out.txt'',
     break_chars = [CHR '' '', nl, tab, CHR '','', CHR '';'', CHR ''('', CHR '')'', CHR ''=''],
     kill_when_interactive = False\<rparr>"

section \<open>Output and exit\<close>

definition out :: "config \<Rightarrow> string \<Rightarrow> ('w tstate, unit) prog" where
  "out c msg = block
     [whenever (INTERACTIVE c) (py_print msg),
      acquire print_lock,
      fd_write (msg @ [nl]),
      release print_lock]"

definition terminate :: "config \<Rightarrow> ('w, 't, 'f) lldb_api \<Rightarrow> ('w tstate, unit) prog" where
  "terminate c A = block
     [fd_close,
      if INTERACTIVE c then block [py_print ''Exit script.'', throw (SystemExit 1)]
      else perform (SBDebugger_Terminate A),
      spin]"

definition update_timer :: "('w, 't, 'f) lldb_api \<Rightarrow> ('w tstate, unit) prog" where
  "update_timer A = block
     [acquire timer_lock,
      bnd (act (time_time A)) (\<lambda>t. modify (\<lambda>s. s\<lparr>LAST_BREAK := t\<rparr>)),
      release timer_lock]"

section \<open>Threads\<close>

text \<open>\<open>[idx for idx, obj in enumerate(OBJ_ARR) if obj[-1] == ID]\<close>\<close>

definition indices_of :: "nat \<Rightarrow> watch list \<Rightarrow> nat list" where
  "indices_of ID objs = map fst (filter (\<lambda>p. tid_of (snd p) = ID) (enumerate 0 objs))"

definition thread_liveness_check :: "config \<Rightarrow> nat \<Rightarrow> ('w tstate, nat list) prog" where
  "thread_liveness_check c ID =
     bnd (get (\<lambda>s. indices_of ID (OBJ_ARR s))) (\<lambda>thread_list.
     bnd (whenever (thread_list \<noteq> [])
            (out c (''####### WARN: '' @ str_nat ID @ '' Unexpectedly resumed. #######''))) (\<lambda>_.
     ret thread_list))"

text \<open>\<open>for i in thread_list: del OBJ_ARR[i]\<close>\<close>

definition delete_indices :: "nat list \<Rightarrow> ('w tstate, unit) prog" where
  "delete_indices thread_list = for_each thread_list (\<lambda>i.
     bnd (get (\<lambda>s. length (OBJ_ARR s))) (\<lambda>n.
     if i < n then modify (\<lambda>s. s\<lparr>OBJ_ARR := del_at i (OBJ_ARR s)\<rparr>) else throw IndexError))"

definition untracked_breakpoint_check ::
    "config \<Rightarrow> ('w, 't, 'f) lldb_api \<Rightarrow> ('w tstate, 't list) prog" where
  "untracked_breakpoint_check c A =
     bnd (get (\<lambda>s. map tid_of (OBJ_ARR s))) (\<lambda>thread_id_list.
     bnd (ask (\<lambda>w. filter (\<lambda>thd. StopReasonBreakpoint A thd w) (ProcessThreads A w))) (\<lambda>stopped.
     let untracked_thread_list = filter (\<lambda>thd. GetThreadID A thd \<notin> set thread_id_list) stopped in
     bnd (if 1 < length untracked_thread_list then block
            [out c ''####### WARN: Multiple breakpoints are hit in CALLBACK! #######'',
             out c (str_nats (map (GetThreadID A) untracked_thread_list))]
          else if length untracked_thread_list < 1 then block
            [out c ''####### WARN: No breakpoints are hit in CALLBACK! #######'',
             out c (str_nats (map (GetThreadID A) stopped))]
          else ret ()) (\<lambda>_.
     ret untracked_thread_list)))"

text \<open>
  \<open>error = op(); while not error.Success(): out(...); error = op(); time.sleep(1)\<close>: the loop's
  test is everything up to the next value of \<open>error\<close>.
\<close>

definition retry_error :: "config \<Rightarrow> ('w, 't, 'f) lldb_api \<Rightarrow> ('w \<Rightarrow> bool \<times> 'w) \<Rightarrow> string
    \<Rightarrow> ('w tstate, unit) prog" where
  "retry_error c A op msg =
     bnd (act op) (\<lambda>success. whenever (\<not> success)
       (until (bnd (out c msg) (\<lambda>_. bnd (act op) (\<lambda>success. bnd (perform (time_sleep A)) (\<lambda>_. ret success))))
              (ret ())))"

definition continue_process :: "config \<Rightarrow> ('w, 't, 'f) lldb_api \<Rightarrow> ('w tstate, unit) prog" where
  "continue_process c A =
     bnd (ask (is_stopped A)) (\<lambda>stopped. whenever stopped
       (retry_error c A (Continue A) ''####### WARN: process.Continue() FAILED! TRYING AGAIN! #######''))"

definition stop_process :: "config \<Rightarrow> ('w, 't, 'f) lldb_api \<Rightarrow> ('w tstate, unit) prog" where
  "stop_process c A =
     bnd (ask (is_stopped A)) (\<lambda>stopped. whenever (\<not> stopped)
       (retry_error c A (Stop A) ''####### WARN: process.Stop() FAILED! TRYING AGAIN! #######''))"

text \<open>\<open>while not op(): out(...); time.sleep(1)\<close>\<close>

definition retry_call :: "config \<Rightarrow> ('w, 't, 'f) lldb_api \<Rightarrow> ('w \<Rightarrow> bool \<times> 'w) \<Rightarrow> string
    \<Rightarrow> ('w tstate, unit) prog" where
  "retry_call c A op msg = until (act op) (block [out c msg, perform (time_sleep A)])"

definition resume_msg :: string where
  "resume_msg = ''####### WARN: thread.Resume() FAILED! TRYING AGAIN! #######''"

definition resume_threads :: "config \<Rightarrow> ('w, 't, 'f) lldb_api \<Rightarrow> nat set \<Rightarrow> ('w tstate, unit) prog" where
  "resume_threads c A except_set =
     bnd (ask (ProcessThreads A)) (\<lambda>threads.
     bnd (for_each threads (\<lambda>thd.
            if GetThreadID A thd \<in> except_set then ret ()
            else bnd (ask (IsSuspended A thd)) (\<lambda>suspended.
                 whenever suspended (retry_call c A (Resume A thd) resume_msg)))) (\<lambda>_.
     out c ''####### INFO: THREADS RESUMED. #######''))"

definition all_bp_hit :: "('w, 't, 'f) lldb_api \<Rightarrow> ('w tstate, bool) prog" where
  "all_bp_hit A = ask (\<lambda>w. list_all (\<lambda>t. IsSuspended A t w) (ProcessThreads A w))"

definition released_msg :: "string \<Rightarrow> nat \<Rightarrow> string" where
  "released_msg t ID = t @ '' >>>>>>> INFO: Thread '' @ str_nat ID @ '' is released. >>>>>>>''"

definition release_bp :: "config \<Rightarrow> ('w, 't, 'f) lldb_api \<Rightarrow> ('w tstate, bool) prog" where
  "release_bp c A =
     bnd (ask (IsValid A)) (\<lambda>valid.
     if \<not> valid then bnd (out c ''######## WARN: PROCESS IS INVALID ########'') (\<lambda>_. ret False)
     else
     bnd (get (\<lambda>s. length (OBJ_ARR s))) (\<lambda>obj_arr_len.
     if obj_arr_len = 0 then ret False
     else
     bnd (act (randrange A obj_arr_len)) (\<lambda>rand.
     bnd (bnd (get OBJ_ARR) (\<lambda>objs. indexed objs (int rand))) (\<lambda>obj.
     bnd (ask (GetThreadByID A (tid_of obj))) (\<lambda>thread.
     bnd (stop_process c A) (\<lambda>_.
     bnd (retry_call c A (Resume A thread) resume_msg) (\<lambda>_.
     bnd (modify (\<lambda>s. s\<lparr>OBJ_ARR := del_at rand (OBJ_ARR s)\<rparr>)) (\<lambda>_.
     bnd (act (time_time A)) (\<lambda>t.
     bnd (out c (released_msg (str_time A t) (GetThreadID A thread))) (\<lambda>_.
     ret True))))))))))"

section \<open>Addresses of a source line\<close>

text \<open>One pass of \<open>split\<close> per delimiter, as the code has it.\<close>

fun split_passes :: "string \<Rightarrow> string list \<Rightarrow> string list" where
  "split_passes [] src = src"
| "split_passes (ch # chs) src = split_passes chs (concat (map (py_split ch) src))"

fun remove_passes :: "string list \<Rightarrow> string list \<Rightarrow> string list" where
  "remove_passes [] src = src"
| "remove_passes (op # ops) src = remove_passes ops (map (py_remove op) src)"

definition operators :: "string list" where
  "operators = [''++'', ''--'', ''!'', ''*'', ''&'']"

definition not_blank :: "string \<Rightarrow> bool" where
  "not_blank s \<longleftrightarrow> filter (\<lambda>ch. \<not> is_control ch) s \<noteq> []"

definition src_tokens :: "string \<Rightarrow> string \<Rightarrow> string list" where
  "src_tokens delims src_line =
     filter (\<lambda>t. t \<noteq> []) (remove_passes operators (filter not_blank (split_passes delims [src_line])))"

fun token_addrs :: "('w, 't, 'f) lldb_api \<Rightarrow> 'f \<Rightarrow> string list \<Rightarrow> string list \<Rightarrow> ('w tstate, string list) prog" where
  "token_addrs A frame [] addrs = ret addrs"
| "token_addrs A frame (token # ts) addrs =
     bnd (ask (GetValueForVariablePath A frame token)) (\<lambda>obj. case obj of
         No_value \<Rightarrow> token_addrs A frame ts addrs
       | Address h \<Rightarrow> token_addrs A frame ts (addrs @ [h])
       | Fails e \<Rightarrow> throw (OtherError e))"

fun exn_class :: "exn \<Rightarrow> string" where
  "exn_class IndexError = ''<type 'exceptions.IndexError'>''"
| "exn_class (ValueError m) = ''<type 'exceptions.ValueError'>''"
| "exn_class (AttributeError m) = ''<type 'exceptions.AttributeError'>''"
| "exn_class (OSError m) = ''<type 'exceptions.OSError'>''"
| "exn_class (IOError m) = ''<type 'exceptions.IOError'>''"
| "exn_class (SystemExit n) = ''<type 'exceptions.SystemExit'>''"
| "exn_class KeyboardInterrupt = ''<type 'exceptions.KeyboardInterrupt'>''"
| "exn_class (StructError m) = ''<class 'struct.error'>''"
| "exn_class (EOFError m) = ''<type 'exceptions.EOFError'>''"
| "exn_class (AssertionError m) = ''<type 'exceptions.AssertionError'>''"
| "exn_class (KeyError k) = ''<type 'exceptions.KeyError'>''"
| "exn_class (UnboundLocalError m) = ''<type 'exceptions.UnboundLocalError'>''"
| "exn_class (MemcachedError n m) = ''<class 'mc_bin_client.MemcachedError'>''"
| "exn_class (OtherError m) = m"

definition get_addr :: "config \<Rightarrow> ('w, 't, 'f) lldb_api \<Rightarrow> 'f \<Rightarrow> string \<Rightarrow> ('w tstate, string list) prog" where
  "get_addr c A frame src_line =
     bnd (ask (FrameIsValid A frame)) (\<lambda>valid.
     bnd (whenever (\<not> valid) (block
            [out c '' ####### ERROR: Couldn't obtain frame ####### '', terminate c A])) (\<lambda>_.
     try_except
       (let tokens = src_tokens (break_chars c) src_line in
        bnd (whenever (tokens = []) (out c ''####### WARN: Couldn't obtain source code line #######'')) (\<lambda>_.
        bnd (out c (str_strings tokens)) (\<lambda>_.
        bnd (token_addrs A frame tokens []) (\<lambda>addrs.
        bnd (whenever (length addrs = 0) (block
               [out c ''####### ERROR: No variables found! Stop!! #######'', terminate c A])) (\<lambda>_.
        ret addrs)))))
       (\<lambda>e. bnd (block
               [out c ''####### ERROR: Unable to extract variable name from source #######'',
                out c (exn_class e),
                terminate c A]) (\<lambda>_. ret []))))"

section \<open>Matching\<close>

definition same_source :: "string list \<Rightarrow> bool option" where
  "same_source src =
     (case (py_index src 0, py_index src 1) of (Some a, Some b) \<Rightarrow> Some (a = b) | _ \<Rightarrow> None)"

definition hits :: "watch \<Rightarrow> watch \<Rightarrow> (string \<times> nat) list" where
  "hits obj arr = map (\<lambda>addr1. (addr1, tid_of obj)) (filter (\<lambda>addr1. addr1 \<in> set (addrs_of arr)) (addrs_of obj))"

text \<open>\<open>None\<close> is the \<open>IndexError\<close> of \<open>bp_source\<close> with less than two lines.\<close>

fun matches_in :: "string list \<Rightarrow> watch list \<Rightarrow> watch \<Rightarrow> (string \<times> nat) list option" where
  "matches_in src [] arr = Some []"
| "matches_in src (obj # objs) arr =
     (if tid_of obj \<noteq> tid_of arr then
        (case same_source src of
           None \<Rightarrow> None
         | Some same \<Rightarrow>
             map_option (\<lambda>rest. (if same \<or> kind_of obj \<noteq> kind_of arr then hits obj arr else []) @ rest)
               (matches_in src objs arr))
      else matches_in src objs arr)"

definition match :: "watch \<Rightarrow> ('w tstate, (string \<times> nat) list) prog" where
  "match arr = bnd (get (\<lambda>s. matches_in (bp_source s) (OBJ_ARR s) arr)) (from_option IndexError)"

definition access_word :: "nat \<Rightarrow> string" where
  "access_word loc_type = (if loc_type = 0 then ''WRITE'' else ''READ'')"

definition breakpoint_match_check ::
    "config \<Rightarrow> ('w, 't, 'f) lldb_api \<Rightarrow> string list \<Rightarrow> nat \<Rightarrow> nat \<Rightarrow> ('w tstate, unit) prog" where
  "breakpoint_match_check c A addrs loc_type ID =
     bnd (for_each addrs (\<lambda>obj.
            if loc_type \<le> 1 then
              bnd (act (time_time A)) (\<lambda>t.
                out c (str_time A t @ '' '' @ access_word loc_type @ '':  ['' @ str_nat ID @ ''] Checking ''
                  @ obj @ ''...''))
            else block [out c ''####### ERROR: loc_type can only be 0 or 1 #######'', terminate c A])) (\<lambda>_.
     let arr = \<lparr>addrs_of = addrs, kind_of = (if loc_type = 0 then ''W'' else ''R''), tid_of = ID\<rparr> in
     bnd (match arr) (\<lambda>matches.
     if 0 < length matches then block
       [out c (''>>>>>>>>>> '' @ access_word loc_type @ '':  ['' @ str_nat ID @ ''] Found match!''),
        for_each matches (\<lambda>m.
          out c (''addr='' @ fst m @ ''  tid1='' @ str_nat (snd m) @ ''  tid2='' @ str_nat ID)),
        out c ''**************************************************************'',
        out c ''**************************** HALT ****************************'',
        out c ''**************************************************************'',
        resume_threads c A (insert ID (snd ` set matches)),
        stop_process c A,
        out c ''####### SUCCESS: MATCH FOUND #######'',
        terminate c A]
     else block
       [update_timer A,
        modify (\<lambda>s. s\<lparr>OBJ_ARR := OBJ_ARR s @ [arr]\<rparr>),
        out c (''>>>>>>> INFO: RECORD THREAD '' @ str_nat ID @ '' >>>>>>>''),
        bnd (all_bp_hit A) (\<lambda>all_hit. whenever all_hit (bnd (release_bp c A) (\<lambda>_. ret ())))]))"

section \<open>The callbacks\<close>

definition location_line :: "int \<Rightarrow> ('w tstate, int) prog" where
  "location_line i =
     bnd (get bp_location) (\<lambda>l.
     bnd (indexed l i) (\<lambda>tokens.
     bnd (indexed tokens 1) (\<lambda>t.
     from_option (ValueError t) (py_int t))))"

definition source_line :: "int \<Rightarrow> ('w tstate, string) prog" where
  "source_line i = bnd (get bp_source) (\<lambda>l. indexed l i)"

text \<open>The loop body both callbacks share; they differ in how they get the thread's frame.\<close>

definition handle_thread :: "config \<Rightarrow> ('w, 't, 'f) lldb_api \<Rightarrow> ('t \<Rightarrow> 'w \<Rightarrow> 'f) \<Rightarrow> 't
    \<Rightarrow> ('w tstate, unit) prog" where
  "handle_thread c A frame_of thd =
     bnd (retry_call c A (Suspend A thd) ''####### WARN: thread.Suspend() FAILED! TRYING AGAIN! #######'') (\<lambda>_.
     bnd (ask (frame_of thd)) (\<lambda>fr.
     bnd (ask (FrameLine A fr)) (\<lambda>line.
     bnd (location_line 0) (\<lambda>line0.
     if line = line0 then
       bnd (bnd (source_line 0) (get_addr c A fr)) (\<lambda>addrs.
         breakpoint_match_check c A addrs 0 (GetThreadID A thd))
     else
     bnd (ask (FrameLine A fr)) (\<lambda>line.
     bnd (location_line 1) (\<lambda>line1.
     if line = line1 then
       bnd (bnd (source_line 1) (get_addr c A fr)) (\<lambda>addrs.
         breakpoint_match_check c A addrs 1 (GetThreadID A thd))
     else block [out c ''####### ERROR: thd.GetSelectedFrame FAILED. #######'', terminate c A]))))))"

definition handle_untracked :: "config \<Rightarrow> ('w, 't, 'f) lldb_api \<Rightarrow> ('t \<Rightarrow> 'w \<Rightarrow> 'f)
    \<Rightarrow> ('w tstate, unit) prog" where
  "handle_untracked c A frame_of =
     bnd (untracked_breakpoint_check c A) (\<lambda>untracked_thread_list.
     bnd (for_each untracked_thread_list (handle_thread c A frame_of)) (\<lambda>_.
     block
       [modify (\<lambda>s. s\<lparr>RUNNING := True\<rparr>),
        continue_process c A,
        release process_lock]))"

definition read_callback :: "config \<Rightarrow> ('w, 't, 'f) lldb_api \<Rightarrow> 'f \<Rightarrow> ('w tstate, unit) prog" where
  "read_callback c A frame = block
     [acquire process_lock,
      out c (''>>>>>>> INFO: READ THREAD '' @ str_nat (GetThreadID A (GetThread A frame))
        @ '' IS TRIGGERED >>>>>>>''),
      stop_process c A,
      modify (\<lambda>s. s\<lparr>RUNNING := False\<rparr>),
      handle_untracked c A (GetFrameAtIndex0 A)]"

definition write_callback :: "config \<Rightarrow> ('w, 't, 'f) lldb_api \<Rightarrow> 'f \<Rightarrow> ('w tstate, unit) prog" where
  "write_callback c A frame = block
     [acquire process_lock,
      out c (''>>>>>>> INFO: WRITE THREAD '' @ str_nat (GetThreadID A (GetThread A frame))
        @ '' IS TRIGGERED >>>>>>>''),
      stop_process c A,
      modify (\<lambda>s. s\<lparr>RUNNING := False\<rparr>),
      bnd (thread_liveness_check c (GetThreadID A (GetThread A frame))) delete_indices,
      handle_untracked c A (GetSelectedFrame A)]"

section \<open>The timer\<close>

definition seconds :: "int \<Rightarrow> string" where
  "seconds t = str_nat (nat (t div 1000))"

text \<open>\<open>time.time() - LAST_BREAK > limit\<close>\<close>

definition since_break :: "('w, 't, 'f) lldb_api \<Rightarrow> int \<Rightarrow> ('w tstate, bool) prog" where
  "since_break A limit =
     bnd (act (time_time A)) (\<lambda>t. get (\<lambda>s. t - LAST_BREAK s > limit))"

definition timer_release :: "config \<Rightarrow> ('w, 't, 'f) lldb_api \<Rightarrow> ('w tstate, unit) prog" where
  "timer_release c A = block
     [modify (\<lambda>s. s\<lparr>RUNNING := False\<rparr>),
      bnd (release_bp c A) (\<lambda>released. whenever released (update_timer A)),
      modify (\<lambda>s. s\<lparr>RUNNING := True\<rparr>),
      continue_process c A]"

definition timer :: "config \<Rightarrow> ('w, 't, 'f) lldb_api \<Rightarrow> ('w tstate, unit) prog" where
  "timer c A = block
     [acquire process_lock,
      bnd (get RUNNING) (\<lambda>running.
        if running then block
          [bnd (since_break A (WAIT_TIME c)) (\<lambda>late. whenever late (timer_release c A)),
           bnd (get (\<lambda>s. \<not> INTERACTIVE c \<and> length (OBJ_ARR s) = 0)) (\<lambda>idle. whenever idle
             (bnd (since_break A (KILL_TIME c)) (\<lambda>late. whenever late (block
               [out c (''####### TERMINATE: No breakpoints hit in '' @ seconds (KILL_TIME c) @ '' sec...''),
                terminate c A]))))]
        else whenever (\<not> INTERACTIVE c)
          (bnd (since_break A (TERM_TIME c)) (\<lambda>late. whenever late (block
            [out c (''####### TERMINATE: Unable to start up after '' @ seconds (TERM_TIME c) @ '' sec...''),
             terminate c A])))),
      release process_lock,
      bnd (get STATUS_FOUND) (\<lambda>found. whenever found (block
        [out c ''####### STATUS: MATCH FOUND #######'', terminate c A])),
      modify (\<lambda>s. s\<lparr>timers := Suc (timers s)\<rparr>)]"

section \<open>Initialisation\<close>

definition set_trigger :: "config \<Rightarrow> ('w, 't, 'f) lldb_api \<Rightarrow> string \<Rightarrow> string \<Rightarrow> ('w tstate, unit) prog" where
  "set_trigger c A in_write in_read =
     (let tokens_write = py_split (CHR '':'') in_write;
          tokens_read = py_split (CHR '':'') in_read in
     bnd (block
       [out c ''Setting breakpoints...'', out c in_write, out c in_read,
        perform (SetAsync A True),
        modify (\<lambda>s. s\<lparr>bp_location := bp_location s @ [tokens_write, tokens_read]\<rparr>)]) (\<lambda>_.
     bnd (indexed tokens_read 0) (\<lambda>file_read.
     bnd (modify (\<lambda>s. s\<lparr>FILE_READ := file_read\<rparr>)) (\<lambda>_.
     bnd (bnd (indexed tokens_read 1) (\<lambda>t. from_option (ValueError t) (py_int t))) (\<lambda>line_read.
     bnd (modify (\<lambda>s. s\<lparr>LINE_NUM_READ := line_read\<rparr>)) (\<lambda>_.
     bnd (indexed tokens_write 0) (\<lambda>file_write.
     bnd (modify (\<lambda>s. s\<lparr>FILE_WRITE := file_write\<rparr>)) (\<lambda>_.
     bnd (bnd (indexed tokens_write 1) (\<lambda>t. from_option (ValueError t) (py_int t))) (\<lambda>line_write.
     bnd (modify (\<lambda>s. s\<lparr>LINE_NUM_WRITE := line_write\<rparr>)) (\<lambda>_.
     bnd (act (BreakpointCreateByLocation A file_write line_write)) (\<lambda>bp_write.
     bnd (bnd (get bp_source) (\<lambda>src. from_option IndexError (same_source src))) (\<lambda>same.
     bnd (if \<not> same then
            bnd (act (BreakpointCreateByLocation A file_read line_read)) (\<lambda>bp_read.
            block [perform (SetScriptCallbackFunction A bp_write ''trigger.write_callback''),
                   perform (SetScriptCallbackFunction A bp_read ''trigger.read_callback'')])
          else block
            [out c ''####### WARN: READ & WRITE ARE THE SAME! #######'',
             perform (SetScriptCallbackFunction A bp_write ''trigger.write_callback'')]) (\<lambda>_.
     block
       [update_timer A, timer c A, out c ''Breakpoint initialization done!''])))))))))))))"

text \<open>
  The body of the loop over the report's lines. The \<open>if error:\<close> of the code is no branch here: the standard
  error of the two processes is not a pipe, so \<open>communicate()\<close> returns \<open>None\<close> for it.
\<close>

definition parse_line :: "config \<Rightarrow> ('w, 't, 'f) lldb_api \<Rightarrow> string \<Rightarrow> ('w tstate, string) prog" where
  "parse_line c A line =
     bnd (case re_match regBreakpoint line of
            None \<Rightarrow> bnd (block [out c ''####### ERROR: FAIL TO PARSE INPUT #######'', terminate c A])
                      (\<lambda>_. throw (AttributeError ''group''))
          | Some bp \<Rightarrow> ret bp) (\<lambda>bp.
     bnd (act (pipe_output A (py_words (''find source_code -name '' @ group bp 1 @ '' -follow''))
                (py_words (''xargs sed -n '' @ group bp 2 @ ''p'')))) (\<lambda>result.
     bnd (case result of Inl e \<Rightarrow> throw e | Inr output \<Rightarrow> ret output) (\<lambda>output.
     bnd (modify (\<lambda>s. s\<lparr>bp_source := bp_source s @ [output]\<rparr>)) (\<lambda>_.
     ret (group bp 1 @ '':'' @ group bp 2)))))"

fun parse_lines :: "config \<Rightarrow> ('w, 't, 'f) lldb_api \<Rightarrow> string list \<Rightarrow> string list \<Rightarrow> ('w tstate, string list) prog" where
  "parse_lines c A [] filenames = ret filenames"
| "parse_lines c A (line # ls) filenames =
     bnd (parse_line c A line) (\<lambda>f. parse_lines c A ls (filenames @ [f]))"

definition lldb_init_module :: "config \<Rightarrow> ('w, 't, 'f) lldb_api \<Rightarrow> ('w tstate, unit) prog" where
  "lldb_init_module c A =
     bnd (open_for_write (OUTPUT_FILENAME c)) (\<lambda>_.
     bnd (perform (HandleCommand A ''log enable -f log.txt lldb api'')) (\<lambda>_.
     bnd (bnd (ask (read_lines A (TSAN_REPORT_FILE c))) (from_option (IOError (TSAN_REPORT_FILE c)))) (\<lambda>lines.
     bnd (parse_lines c A lines []) (\<lambda>filenames.
     bnd (out c ''Read input done!'') (\<lambda>_.
     bnd (indexed filenames 0) (\<lambda>in_write.
     bnd (indexed filenames 1) (\<lambda>in_read.
     set_trigger c A in_write in_read)))))))"

end
