(* ===== verification/TriggerRules.thy ===== *)
theory TriggerRules
  imports Trigger
begin

text \<open>
  Rules for the statements of \<open>Trigger\<close>, in the order of the code: what a call leaves in place (everything
  but the world and the text written), when it returns, and what it does to the store \<open>OBJ_ARR\<close>. All
  rules are for both readings of \<open>wp\<close>; where a retry loop is involved, ending needs an interface that
  succeeds after finitely many attempts (\<open>prompt\<close>).
\<close>

lemma at_seq_fun [simp]:
  "at_seq K Q (Ret x) = K x" "at_seq K Q (Raise e) = Q (Raise e)" "at_seq K Q Spin = Q Spin" "at_seq K Q Block = Q Block"
  by (rule ext; simp)+

lemma at_seq_nested [simp]: "at_seq (\<lambda>x. at_seq K Q (Ret y)) (at_seq K Q) = at_seq (\<lambda>_. K y) Q"
proof (intro ext)
  fix r s
  show "at_seq (\<lambda>x. at_seq K Q (Ret y)) (at_seq K Q) r s = at_seq (\<lambda>_. K y) Q r s" by (cases r) simp_all
qed

lemma at_seq_tail: "at_seq (\<lambda>_. K) (at_seq (\<lambda>_. K) Q) = at_seq (\<lambda>_. K) Q"
proof (intro ext)
  fix r s
  show "at_seq (\<lambda>_. K) (at_seq (\<lambda>_. K) Q) r s = at_seq (\<lambda>_. K) Q r s" by (cases r) simp_all
qed

lemma wp_ret_fun [simp]: "wp b (ret x) Q = Q (Ret x)"
  by (rule ext) (simp add: wp_simps)

section \<open>Noise\<close>

definition ready :: "'w tstate \<Rightarrow> bool" where
  "ready s \<longleftrightarrow> OUTPUT_FD s = OpenFile \<and> \<not> held s print_lock \<and> \<not> held s timer_lock"

text \<open>States that differ in the world and the text written only, and claims on all of them.\<close>

definition alike :: "'w tstate \<Rightarrow> 'w tstate \<Rightarrow> bool" where
  "alike s s' \<longleftrightarrow>
     LAST_BREAK s' = LAST_BREAK s \<and> RUNNING s' = RUNNING s \<and> OBJ_ARR s' = OBJ_ARR s
     \<and> STATUS_FOUND s' = STATUS_FOUND s \<and> OUTPUT_FD s' = OUTPUT_FD s
     \<and> FILE_READ s' = FILE_READ s \<and> LINE_NUM_READ s' = LINE_NUM_READ s
     \<and> FILE_WRITE s' = FILE_WRITE s \<and> LINE_NUM_WRITE s' = LINE_NUM_WRITE s
     \<and> held s' = held s \<and> bp_source s' = bp_source s \<and> bp_location s' = bp_location s \<and> timers s' = timers s"

definition noise :: "('w tstate \<Rightarrow> bool) \<Rightarrow> 'w tstate \<Rightarrow> bool" where
  "noise P s \<longleftrightarrow> (\<forall>s'. alike s s' \<longrightarrow> P s')"

lemma noiseI: "(\<And>s'. alike s s' \<Longrightarrow> P s') \<Longrightarrow> noise P s"
  by (simp add: noise_def)

lemma noiseD: "noise P s \<Longrightarrow> alike s s' \<Longrightarrow> P s'"
  by (simp add: noise_def)

lemma alike_refl [simp, intro]: "alike s s"
  by (simp add: alike_def)

lemma alike_trans [trans]: "alike s s' \<Longrightarrow> alike s' s'' \<Longrightarrow> alike s s''"
  by (simp add: alike_def)

lemma alike_upd [simp]:
  "alike s (s'\<lparr>world := w\<rparr>) = alike s s'" "alike s (s'\<lparr>written := ws\<rparr>) = alike s s'"
  "alike s (s'\<lparr>printed := ps\<rparr>) = alike s s'"
  by (simp_all add: alike_def)

lemma noise_self: "noise P s \<Longrightarrow> P s"
  by (simp add: noise_def)

lemma noise_alike: "noise P s \<Longrightarrow> alike s s' \<Longrightarrow> noise P s'"
  by (auto simp: noise_def intro: alike_trans)

lemma ready_alike: "ready s \<Longrightarrow> alike s s' \<Longrightarrow> ready s'"
  by (simp add: ready_def alike_def)

lemma ready_upd [simp]:
  "ready (s\<lparr>world := w\<rparr>) = ready s" "ready (s\<lparr>written := ws\<rparr>) = ready s" "ready (s\<lparr>printed := ps\<rparr>) = ready s"
  "ready (s\<lparr>OBJ_ARR := os\<rparr>) = ready s" "ready (s\<lparr>LAST_BREAK := t\<rparr>) = ready s" "ready (s\<lparr>RUNNING := r\<rparr>) = ready s"
  by (simp_all add: ready_def)

lemma wp_ask [wp_simps]: "wp b (ask f) Q s = Q (Ret (f (world s))) s"
  by (simp add: ask_def wp_simps)

lemma wp_act [wp_simps]: "wp b (act f) Q s = Q (Ret (fst (f (world s)))) (s\<lparr>world := snd (f (world s))\<rparr>)"
  by (simp add: act_def wp_simps split: prod.splits)

lemma wp_perform [wp_simps]: "wp b (perform f) Q s = Q (Ret ()) (s\<lparr>world := f (world s)\<rparr>)"
  by (simp add: perform_def wp_simps)

lemma wp_acquire [wp_simps]:
  "wp b (acquire l) Q s = (if held s l then Q Block s else Q (Ret ()) (s\<lparr>held := (held s)(l := True)\<rparr>))"
  by (simp add: acquire_def wp_def)

lemma wp_release [wp_simps]: "wp b (release l) Q s = Q (Ret ()) (s\<lparr>held := (held s)(l := False)\<rparr>)"
  by (simp add: release_def wp_simps)

lemma wp_print [wp_simps]: "wp b (py_print m) Q s = Q (Ret ()) (s\<lparr>printed := printed s @ [m]\<rparr>)"
  by (simp add: py_print_def wp_simps)

lemma wp_fd_write [wp_simps]:
  "OUTPUT_FD s = OpenFile \<Longrightarrow> wp b (fd_write m) Q s = Q (Ret ()) (s\<lparr>written := written s @ [m]\<rparr>)"
  by (simp add: fd_write_def wp_def)

lemma wp_fd_close [wp_simps]:
  "OUTPUT_FD s = OpenFile \<Longrightarrow> wp b fd_close Q s = Q (Ret ()) (s\<lparr>OUTPUT_FD := ClosedFile\<rparr>)"
  by (simp add: fd_close_def wp_def)

lemma wp_indexed [wp_simps]:
  "wp b (indexed xs i) Q s = (case py_index xs i of None \<Rightarrow> Q (Raise IndexError) s | Some x \<Rightarrow> Q (Ret x) s)"
  by (simp add: indexed_def wp_simps split: option.splits)

lemma wp_from_option [wp_simps]:
  "wp b (from_option e r) Q s = (case r of None \<Rightarrow> Q (Raise e) s | Some x \<Rightarrow> Q (Ret x) s)"
  by (simp add: from_option_def wp_simps split: option.splits)

lemma held_again [simp]: "\<not> h l \<Longrightarrow> h(l := False) = h"
  by (rule ext) simp

lemma wp_out:
  assumes "ready s" and "noise (Q (Ret ())) s"
  shows "wp b (out c m) Q s"
  using assms(1) noiseD [OF assms(2)] by (simp add: out_def wp_simps ready_def)

text \<open>\<open>terminate\<close> never returns; only the output file and the world change.\<close>

definition halted :: "config \<Rightarrow> 'a outcome" where
  "halted c = (if INTERACTIVE c then Raise (SystemExit 1) else Spin)"

lemma at_seq_halted [simp]: "at_seq K Q (halted c) = Q (halted c)"
  by (rule ext) (simp add: halted_def)

lemma halted_cases [simp]: "halted c \<noteq> Ret x" "halted c \<noteq> Block"
  by (simp_all add: halted_def)

lemma wp_terminate:
  assumes "ready s" and "noise (Q (halted c)) (s\<lparr>OUTPUT_FD := ClosedFile\<rparr>)"
  shows "wp b (terminate c A) Q s"
  using assms(1) noiseD [OF assms(2)]
  by (cases "INTERACTIVE c") (simp_all add: terminate_def wp_simps ready_def halted_def)

lemma alike_upd_left:
  "alike (s\<lparr>world := w\<rparr>) s' = alike s s'"
  by (simp add: alike_def)

lemma wp_update_timer:
  assumes "ready s" and "\<And>t. noise (Q (Ret ())) (s\<lparr>LAST_BREAK := t\<rparr>)"
  shows "wp b (update_timer A) Q s"
proof -
  have "alike (s\<lparr>LAST_BREAK := t\<rparr>) (s\<lparr>held := h, world := w, LAST_BREAK := t, held := held s\<rparr>)" for t w h
    by (simp add: alike_def)
  from noiseD [OF assms(2) this] assms(1) show ?thesis
    by (simp add: update_timer_def wp_simps ready_def)
qed

section \<open>Retry loops\<close>

fun tries :: "nat \<Rightarrow> ('w \<Rightarrow> bool \<times> 'w) \<Rightarrow> ('w \<Rightarrow> 'w) \<Rightarrow> 'w \<Rightarrow> bool" where
  "tries 0 op wait w = fst (op w)"
| "tries (Suc n) op wait w = (fst (op w) \<or> tries n op wait (wait (snd (op w))))"

definition soon :: "bool \<Rightarrow> ('w \<Rightarrow> bool \<times> 'w) \<Rightarrow> ('w \<Rightarrow> 'w) \<Rightarrow> bool" where
  "soon b op wait \<longleftrightarrow> b \<or> (\<forall>w. \<exists>n. tries n op wait w)"

definition prompt :: "bool \<Rightarrow> ('w, 't, 'f) lldb_api \<Rightarrow> bool" where
  "prompt b A \<longleftrightarrow> soon b (Stop A) (time_sleep A) \<and> soon b (Continue A) (time_sleep A)
     \<and> (\<forall>t. soon b (Suspend A t) (time_sleep A) \<and> soon b (Resume A t) (time_sleep A))"

lemma prompt_partial [simp]: "prompt True A" "soon True op wait"
  by (simp_all add: prompt_def soon_def)

lemma wp_partial_mono: "wp False m Q s \<Longrightarrow> wp b m Q s"
  by (cases b) (auto simp: wp_def split: option.splits)

lemma wp_retry_call:
  assumes ready: "ready s" and soon: "soon b op (time_sleep A)" and Q: "noise (Q (Ret ())) s"
  shows "wp b (retry_call c A op m) Q s"
proof (cases b)
  case True
  have "wp True (retry_call c A op m) Q s"
    unfolding retry_call_def
  proof (rule wp_until_partial [of "alike s" _ _ _ "alike s"])
    fix s'
    assume s': "alike s s'"
    show "wp True (act op) (at_seq (\<lambda>b s'. if b then Q (Ret ()) s' else alike s s') Q) s'"
      using noiseD [OF Q] s' by (simp add: wp_simps)
    show "wp True (block [out c m, perform (time_sleep A)]) (at_seq (\<lambda>_. alike s) Q) s'"
      using ready_alike [OF ready s'] s' by (auto simp: wp_simps intro!: wp_out noiseI intro: alike_trans)
  qed simp
  with True show ?thesis by simp
next
  case False
  let ?I = "\<lambda>n s'. alike s s' \<and> tries n op (time_sleep A) (world s')"
  let ?J = "\<lambda>n s'. alike s s' \<and> tries n op (time_sleep A) (time_sleep A (world s'))"
  from soon False obtain n where n: "?I n s" by (auto simp: soon_def)
  show ?thesis
    unfolding retry_call_def
  proof (rule wp_until_total [of ?I n s b "act op" _ ?J, OF n])
    fix k s'
    assume s': "?I k s'"
    then show "wp b (act op) (at_seq (\<lambda>b s'. if b then Q (Ret ()) s' else 0 < k \<and> ?J (k - 1) s') Q) s'"
      using noiseD [OF Q] by (cases k) (auto simp: wp_simps)
  next
    fix k s'
    assume s': "?J k s'"
    then show "wp b (block [out c m, perform (time_sleep A)]) (at_seq (\<lambda>_. ?I k) Q) s'"
      using ready_alike [OF ready] by (simp add: wp_simps out_def ready_def)
  qed
qed

lemma wp_retry_error:
  assumes ready: "ready s" and soon: "soon b op (time_sleep A)" and Q: "noise (Q (Ret ())) s"
  shows "wp b (retry_error c A op m) Q s"
proof -
  let ?test = "bnd (out c m) (\<lambda>_. bnd (act op) (\<lambda>success. bnd (perform (time_sleep A)) (\<lambda>_. ret success)))"
  have loop: "wp b (until ?test (ret ())) Q s0" if s0: "alike s s0" for s0
  proof (cases b)
    case True
    have "wp True (until ?test (ret ())) Q s0"
    proof (rule wp_until_partial [of "alike s" _ _ _ "alike s"])
      fix s'
      assume s': "alike s s'"
      show "wp True ?test (at_seq (\<lambda>b s'. if b then Q (Ret ()) s' else alike s s') Q) s'"
        using noiseD [OF Q] s' ready_alike [OF ready s'] by (simp add: wp_simps out_def ready_def)
      show "wp True (ret ()) (at_seq (\<lambda>_. alike s) Q) s'" using s' by (simp add: wp_simps)
    qed (rule s0)
    with True show ?thesis by simp
  next
    case False
    let ?I = "\<lambda>n s'. alike s s' \<and> tries n op (time_sleep A) (world s')"
    from soon False s0 obtain n where n: "?I n s0" by (auto simp: soon_def)
    show ?thesis
    proof (rule wp_until_total [of ?I n _ b ?test _ ?I, OF n])
      fix k s'
      assume s': "?I k s'"
      then show "wp b ?test (at_seq (\<lambda>b s'. if b then Q (Ret ()) s' else 0 < k \<and> ?I (k - 1) s') Q) s'"
        using noiseD [OF Q] ready_alike [OF ready] by (cases k) (auto simp: wp_simps out_def ready_def)
      show "wp b (ret ()) (at_seq (\<lambda>_. ?I k) Q) s'" using s' by (simp add: wp_simps)
    qed
  qed
  show ?thesis
    unfolding retry_error_def using loop noiseD [OF Q] by (simp add: wp_simps)
qed

lemma wp_stop_process:
  "ready s \<Longrightarrow> prompt b A \<Longrightarrow> noise (Q (Ret ())) s \<Longrightarrow> wp b (stop_process c A) Q s"
  unfolding stop_process_def prompt_def by (simp add: wp_simps wp_retry_error noise_self)

lemma wp_continue_process:
  "ready s \<Longrightarrow> prompt b A \<Longrightarrow> noise (Q (Ret ())) s \<Longrightarrow> wp b (continue_process c A) Q s"
  unfolding continue_process_def prompt_def by (simp add: wp_simps wp_retry_error noise_self)

lemma wp_resume:
  "ready s \<Longrightarrow> prompt b A \<Longrightarrow> noise (Q (Ret ())) s \<Longrightarrow> wp b (retry_call c A (Resume A t) m) Q s"
  unfolding prompt_def by (simp add: wp_retry_call)

lemma wp_suspend:
  "ready s \<Longrightarrow> prompt b A \<Longrightarrow> noise (Q (Ret ())) s \<Longrightarrow> wp b (retry_call c A (Suspend A t) m) Q s"
  unfolding prompt_def by (simp add: wp_retry_call)

lemma wp_resume_threads:
  assumes "ready s" and "prompt b A" and "noise (Q (Ret ())) s"
  shows "wp b (resume_threads c A except) Q s"
proof -
  have "wp b (for_each threads (\<lambda>thd. if GetThreadID A thd \<in> except then ret ()
            else bnd (ask (IsSuspended A thd)) (\<lambda>suspended.
                 whenever suspended (retry_call c A (Resume A thd) resume_msg))))
          (at_seq (\<lambda>_. wp b (out c m) Q) Q) s" for threads m
  proof (rule wp_for_each_inv [of "\<lambda>_. alike s"])
    fix x ys s'
    assume s': "alike s s'"
    have "wp b (retry_call c A (Resume A x) resume_msg) (at_seq (\<lambda>_. alike s) (at_seq (\<lambda>_::unit. wp b (out c m) Q) Q)) s'"
      by (rule wp_resume [OF ready_alike [OF assms(1) s'] assms(2)])
         (auto intro!: noiseI intro: alike_trans [OF s'])
    with s' show "wp b (if GetThreadID A x \<in> except then ret ()
            else bnd (ask (IsSuspended A x)) (\<lambda>suspended.
                 whenever suspended (retry_call c A (Resume A x) resume_msg)))
          (at_seq (\<lambda>_. alike s) (at_seq (\<lambda>_::unit. wp b (out c m) Q) Q)) s'"
      unfolding wp_if wp_bnd wp_ask wp_ret at_seq.simps wp_whenever by (cases "IsSuspended A x (world s')") simp_all
  next
    fix s'
    assume "alike s s'"
    then show "at_seq (\<lambda>_. wp b (out c m) Q) Q (Ret ()) s'"
      by (simp add: wp_out ready_alike [OF assms(1)] noise_alike [OF assms(3)])
  qed simp
  then show ?thesis by (simp add: resume_threads_def wp_simps)
qed

section \<open>Releasing a thread\<close>

lemma py_index_nat: "py_index xs (int n) = (if n < length xs then Some (xs ! n) else None)"
  by (simp add: py_index_def)

lemma wp_release_bp:
  assumes ready: "ready s" and prompt: "prompt b A"
    and no: "IsValid A (world s) \<longrightarrow> OBJ_ARR s = [] \<Longrightarrow> noise (Q (Ret False)) s"
    and yes: "\<And>i. IsValid A (world s) \<Longrightarrow> i = fst (randrange A (length (OBJ_ARR s)) (world s)) \<Longrightarrow>
        i < length (OBJ_ARR s) \<Longrightarrow> noise (Q (Ret True)) (s\<lparr>OBJ_ARR := del_at i (OBJ_ARR s)\<rparr>)"
    and bad: "IsValid A (world s) \<Longrightarrow> OBJ_ARR s \<noteq> [] \<Longrightarrow>
        length (OBJ_ARR s) \<le> fst (randrange A (length (OBJ_ARR s)) (world s)) \<Longrightarrow> noise (Q (Raise IndexError)) s"
  shows "wp b (release_bp c A) Q s"
proof (cases "IsValid A (world s) \<and> OBJ_ARR s \<noteq> []")
  case False
  then have Q: "noise (Q (Ret False)) s" using no by blast
  with False ready show ?thesis
    by (auto simp: release_bp_def wp_simps noise_self intro!: wp_out noiseI dest: noiseD [OF Q])
next
  case True
  define i where "i = fst (randrange A (length (OBJ_ARR s)) (world s))"
  define s1 where "s1 = s\<lparr>world := snd (randrange A (length (OBJ_ARR s)) (world s))\<rparr>"
  have s1: "alike s s1" "ready s1" using ready by (simp_all add: s1_def)
  show ?thesis
  proof (cases "i < length (OBJ_ARR s)")
    case False
    with True have "noise (Q (Raise IndexError)) s" using bad by (simp add: i_def)
    with False True show ?thesis
      by (simp add: release_bp_def wp_simps py_index_nat i_def [symmetric] noiseD)
  next
    case bound: True
    let ?thread = "GetThreadByID A (tid_of (OBJ_ARR s ! i)) (world s1)"
    have Q: "noise (Q (Ret True)) (s\<lparr>OBJ_ARR := del_at i (OBJ_ARR s)\<rparr>)"
      using yes True bound by (simp add: i_def)
    have last: "Q (Ret True) s4" if "alike s s3" "alike (s3\<lparr>OBJ_ARR := del_at i (OBJ_ARR s)\<rparr>) s4" for s3 s4
      using that by (intro noiseD [OF Q]) (simp add: alike_def)
    have "wp b (bnd (stop_process c A) (\<lambda>_.
       bnd (retry_call c A (Resume A ?thread) resume_msg) (\<lambda>_.
       bnd (modify (\<lambda>s. s\<lparr>OBJ_ARR := del_at i (OBJ_ARR s)\<rparr>)) (\<lambda>_.
       bnd (act (time_time A)) (\<lambda>t.
       bnd (out c (released_msg (str_time A t) (GetThreadID A ?thread))) (\<lambda>_. ret True)))))) Q s1"
      unfolding wp_bnd
    proof (rule wp_stop_process [OF s1(2) prompt], rule noiseI, unfold at_seq.simps wp_bnd, rule wp_resume)
      fix s2
      assume s2: "alike s1 s2"
      then show "ready s2" by (rule ready_alike [OF s1(2)])
      show "noise (at_seq (\<lambda>_. wp b (modify (\<lambda>s. s\<lparr>OBJ_ARR := del_at i (OBJ_ARR s)\<rparr>))
         (at_seq (\<lambda>_. wp b (act (time_time A)) (at_seq (\<lambda>t.
           wp b (out c (released_msg (str_time A t) (GetThreadID A ?thread))) (at_seq (\<lambda>_. wp b (ret True) Q) Q)) Q)) Q)) Q (Ret ())) s2"
      proof (rule noiseI)
        fix s3
        assume "alike s2 s3"
        with s1 s2 have s3: "alike s s3" by (blast intro: alike_trans)
        then have "OBJ_ARR s3 = OBJ_ARR s" by (simp add: alike_def)
        with s3 show "at_seq (\<lambda>_. wp b (modify (\<lambda>s. s\<lparr>OBJ_ARR := del_at i (OBJ_ARR s)\<rparr>))
         (at_seq (\<lambda>_. wp b (act (time_time A)) (at_seq (\<lambda>t.
           wp b (out c (released_msg (str_time A t) (GetThreadID A ?thread))) (at_seq (\<lambda>_. wp b (ret True) Q) Q)) Q)) Q)) Q (Ret ()) s3"
          using ready_alike [OF ready s3]
          by (auto simp: wp_simps alike_upd_left intro!: wp_out noiseI last [OF s3])
      qed
    qed (rule prompt)
    with True bound show ?thesis
      by (simp add: release_bp_def wp_simps py_index_nat i_def [symmetric] s1_def)
  qed
qed

section \<open>Quiet statements\<close>

text \<open>Statements that return and change nothing but the world and the text written.\<close>

definition quiet :: "bool \<Rightarrow> ('w tstate, unit) prog \<Rightarrow> bool" where
  "quiet b m \<longleftrightarrow> (\<forall>s Q. ready s \<longrightarrow> noise (Q (Ret ())) s \<longrightarrow> wp b m Q s)"

lemma quietI: "(\<And>s Q. ready s \<Longrightarrow> noise (Q (Ret ())) s \<Longrightarrow> wp b m Q s) \<Longrightarrow> quiet b m"
  by (simp add: quiet_def)

lemma quietD: "quiet b m \<Longrightarrow> ready s \<Longrightarrow> noise (Q (Ret ())) s \<Longrightarrow> wp b m Q s"
  by (simp add: quiet_def)

lemma wp_quiet: "quiet b m \<Longrightarrow> ready s \<Longrightarrow> (\<And>s'. alike s s' \<Longrightarrow> ready s' \<Longrightarrow> Q (Ret ()) s') \<Longrightarrow> wp b m Q s"
  by (rule quietD, assumption, assumption, rule noiseI) (simp add: ready_alike)

lemma wp_quiet_seq:
  "quiet b m \<Longrightarrow> ready s \<Longrightarrow> (\<And>s'. alike s s' \<Longrightarrow> ready s' \<Longrightarrow> wp b (k ()) Q s') \<Longrightarrow> wp b (bnd m k) Q s"
  unfolding wp_bnd by (rule wp_quiet) simp_all

lemma wp_quiet_block:
  "quiet b m \<Longrightarrow> ready s \<Longrightarrow> (\<And>s'. alike s s' \<Longrightarrow> ready s' \<Longrightarrow> wp b (block ms) Q s') \<Longrightarrow> wp b (block (m # ms)) Q s"
  unfolding block.simps by (rule wp_quiet_seq)

lemma quiet_out: "quiet b (out c m)"
  by (rule quietI) (rule wp_out)

lemma quiet_ret: "quiet b (ret ())"
  by (rule quietI) (simp add: wp_simps noise_self)

lemma quiet_perform: "quiet b (perform f)"
  by (rule quietI) (simp add: wp_simps noiseD)

lemma quiet_act: "(\<And>x. quiet b (k x)) \<Longrightarrow> quiet b (bnd (act f) k)"
  by (rule quietI, unfold wp_bnd wp_act at_seq.simps, rule quietD) (auto intro: noise_alike)

lemma quiet_ask: "(\<And>x. quiet b (k x)) \<Longrightarrow> quiet b (bnd (ask f) k)"
  by (rule quietI, unfold wp_bnd wp_ask at_seq.simps, rule quietD)

lemma quiet_whenever: "quiet b m \<Longrightarrow> quiet b (whenever cond m)"
  by (rule quietI, unfold wp_whenever, cases cond) (simp_all add: quietD noise_self)

lemma quiet_bnd: "quiet b m \<Longrightarrow> quiet b (k ()) \<Longrightarrow> quiet b (bnd m k)"
  by (rule quietI, rule wp_quiet_seq) (auto intro!: quietD [of b "k ()"] intro: noise_alike)

lemma quiet_block: "list_all (quiet b) ms \<Longrightarrow> quiet b (block ms)"
  by (induction ms) (simp_all add: quiet_ret quiet_bnd)

lemma quiet_for_each: "(\<And>x. quiet b (body x)) \<Longrightarrow> quiet b (for_each xs body)"
  by (induction xs) (simp_all add: quiet_ret quiet_bnd)

lemma quiet_stop: "prompt b A \<Longrightarrow> quiet b (stop_process c A)"
  by (rule quietI) (rule wp_stop_process)

lemma quiet_continue: "prompt b A \<Longrightarrow> quiet b (continue_process c A)"
  by (rule quietI) (rule wp_continue_process)

lemma quiet_resume_threads: "prompt b A \<Longrightarrow> quiet b (resume_threads c A except)"
  by (rule quietI) (rule wp_resume_threads)

lemma quiet_suspend: "prompt b A \<Longrightarrow> quiet b (retry_call c A (Suspend A t) m)"
  by (rule quietI) (rule wp_suspend)

lemmas quiet_intros = quiet_out quiet_ret quiet_perform quiet_act quiet_ask quiet_whenever quiet_bnd
  quiet_for_each quiet_stop quiet_continue quiet_resume_threads quiet_suspend

lemma wp_message_terminate:
  assumes "ready s" and "noise (Q (halted c)) (s\<lparr>OUTPUT_FD := ClosedFile\<rparr>)"
  shows "wp b (block [out c m, terminate c A]) Q s"
proof (rule wp_quiet_block [OF quiet_out assms(1)])
  fix s'
  assume s': "alike s s'" "ready s'"
  then have "alike (s\<lparr>OUTPUT_FD := ClosedFile\<rparr>) (s'\<lparr>OUTPUT_FD := ClosedFile\<rparr>)" by (simp add: alike_def)
  with assms(2) have "noise (Q (halted c)) (s'\<lparr>OUTPUT_FD := ClosedFile\<rparr>)" by (rule noise_alike)
  with s'(2) show "wp b (block [terminate c A]) Q s'"
    unfolding wp_block by (intro wp_terminate) simp_all
qed

section \<open>Addresses\<close>

lemma wp_token_addrs:
  assumes "\<And>as. Q (Ret as) s" and "\<And>e. Q (Raise (OtherError e)) s"
  shows "wp b (token_addrs A frame ts addrs) Q s"
  using assms by (induction ts arbitrary: addrs) (simp_all add: wp_simps split: var_value.splits)

lemma wp_get_addr:
  assumes ready: "ready s" and found: "\<And>as. as \<noteq> [] \<Longrightarrow> noise (Q (Ret as)) s"
    and stop: "noise (Q (halted c)) (s\<lparr>OUTPUT_FD := ClosedFile\<rparr>)"
  shows "wp b (get_addr c A frame src_line) Q s"
proof -
  have halt: "noise (Q (halted c)) (s'\<lparr>OUTPUT_FD := ClosedFile\<rparr>)" if "alike s s'" for s'
    using that by (intro noise_alike [OF stop]) (simp add: alike_def)
  let ?h = "\<lambda>e. bnd (block
               [out c ''####### ERROR: Unable to extract variable name from source #######'',
                out c (exn_class e), terminate c A]) (\<lambda>_. ret [])"
  let ?R = "\<lambda>r s'. case r of Raise e \<Rightarrow> if catches e then wp b (?h e) Q s' else Q (Raise e) s' | _ \<Rightarrow> Q r s'"
  have h: "wp b (?h e) Q s'" if s': "alike s s'" for e s'
    unfolding wp_bnd
  proof (rule wp_quiet_block [OF quiet_out])
    show "ready s'" using s' ready by (rule ready_alike [rotated])
  next
    fix s2
    assume "alike s' s2" and s2: "ready s2"
    with s' have "alike s s2" by (blast intro: alike_trans)
    then show "wp b (block [out c (exn_class e), terminate c A]) (at_seq (\<lambda>_. wp b (ret []) Q) Q) s2"
      using s2 halt by (intro wp_message_terminate) simp_all
  qed
  have R_halt: "noise (?R (halted c)) (s'\<lparr>OUTPUT_FD := ClosedFile\<rparr>)" if "alike s s'" for s'
    using halt [OF that] by (auto simp: noise_def halted_def)
  have body: "wp b (let tokens = src_tokens (break_chars c) src_line in
        bnd (whenever (tokens = []) (out c ''####### WARN: Couldn't obtain source code line #######'')) (\<lambda>_.
        bnd (out c (str_strings tokens)) (\<lambda>_.
        bnd (token_addrs A frame tokens []) (\<lambda>addrs.
        bnd (whenever (length addrs = 0) (block
               [out c ''####### ERROR: No variables found! Stop!! #######'', terminate c A])) (\<lambda>_.
        ret addrs))))) ?R s"
    unfolding Let_def
  proof (rule wp_quiet_seq [OF quiet_whenever [OF quiet_out] ready], rule wp_quiet_seq [OF quiet_out])
    fix s1 s2
    assume "alike s s1" "alike s1 s2" and s2: "ready s2"
    then have s2': "alike s s2" by (blast intro: alike_trans)
    have stop_here: "wp b (bnd (whenever (length as = 0) (block
               [out c ''####### ERROR: No variables found! Stop!! #######'', terminate c A])) (\<lambda>_. ret as)) ?R s2" for as
    proof (cases "as = []")
      case True
      then show ?thesis
        using s2 R_halt [OF s2'] by (subst wp_bnd, simp only: wp_whenever if_True list.size simp_thms)
          (intro wp_message_terminate; simp)
    next
      case False
      then show ?thesis using noiseD [OF found s2'] by (subst wp_bnd) (simp add: wp_whenever wp_ret)
    qed
    show "wp b (bnd (token_addrs A frame (src_tokens (break_chars c) src_line) []) (\<lambda>addrs.
        bnd (whenever (length addrs = 0) (block
               [out c ''####### ERROR: No variables found! Stop!! #######'', terminate c A])) (\<lambda>_.
        ret addrs))) ?R s2"
      by (subst wp_bnd, rule wp_token_addrs, unfold at_seq.simps, rule stop_here)
         (simp only: outcome.case catches.simps if_True h [OF s2'])
  qed
  show ?thesis
  proof (cases "FrameIsValid A frame (world s)")
    case True
    with body show ?thesis
      unfolding get_addr_def
      by (subst wp_bnd, simp only: wp_ask at_seq.simps, subst wp_bnd)
         (simp only: wp_whenever simp_thms if_False at_seq.simps wp_try)
  next
    case False
    then show ?thesis
      unfolding get_addr_def
      by (subst wp_bnd, simp only: wp_ask at_seq.simps, subst wp_bnd, simp only: wp_whenever simp_thms if_True)
         (rule wp_message_terminate [OF ready], simp add: halt)
  qed
qed

end
