(* ===== verification/TriggerStore.thy ===== *)
theory TriggerStore
  imports TriggerRules
begin

text \<open>
  The store of suspended threads: what \<open>match\<close> finds, the rules of \<open>breakpoint_match_check\<close>, of the
  callbacks and of the timer, and the invariant of \<open>OBJ_ARR\<close> they keep: one entry per thread, each with an
  address, and no two entries that race.
\<close>

section \<open>What match finds\<close>

definition conflict :: "string list \<Rightarrow> watch \<Rightarrow> watch \<Rightarrow> bool" where
  "conflict src x y \<longleftrightarrow> tid_of x \<noteq> tid_of y \<and> (same_source src = Some True \<or> kind_of x \<noteq> kind_of y)
     \<and> set (addrs_of x) \<inter> set (addrs_of y) \<noteq> {}"

lemma conflict_sym: "conflict src x y = conflict src y x"
  by (auto simp: conflict_def)

lemma hits_set: "(a, t) \<in> set (hits obj arr) \<longleftrightarrow> t = tid_of obj \<and> a \<in> set (addrs_of obj) \<and> a \<in> set (addrs_of arr)"
  by (auto simp: hits_def)

lemma matches_in_set:
  "matches_in src objs arr = Some ms \<Longrightarrow>
   (a, t) \<in> set ms \<longleftrightarrow> (\<exists>obj \<in> set objs. tid_of obj = t \<and> t \<noteq> tid_of arr
      \<and> (same_source src = Some True \<or> kind_of obj \<noteq> kind_of arr)
      \<and> a \<in> set (addrs_of obj) \<and> a \<in> set (addrs_of arr))"
proof (induction objs arbitrary: ms)
  case Nil
  then show ?case by simp
next
  case (Cons obj objs)
  show ?case
  proof (cases "tid_of obj = tid_of arr")
    case True
    with Cons show ?thesis by auto
  next
    case False
    with Cons.prems obtain same rest where sr: "same_source src = Some same" "matches_in src objs arr = Some rest"
      "ms = (if same \<or> kind_of obj \<noteq> kind_of arr then hits obj arr else []) @ rest"
      by (auto split: option.splits)
    with Cons.IH [OF sr(2)] False show ?thesis by (auto simp: hits_set)
  qed
qed

lemma matches_in_None:
  "matches_in src objs arr = None \<longleftrightarrow> same_source src = None \<and> (\<exists>obj \<in> set objs. tid_of obj \<noteq> tid_of arr)"
  by (induction objs) (auto split: option.splits)

lemma no_match_iff:
  assumes "matches_in src objs arr = Some ms"
  shows "ms = [] \<longleftrightarrow> (\<forall>obj \<in> set objs. \<not> conflict src obj arr)"
proof -
  have "ms = [] \<longleftrightarrow> (\<forall>a t. (a, t) \<notin> set ms)" by (cases ms) auto
  then show ?thesis unfolding matches_in_set [OF assms] conflict_def by blast
qed

lemma wp_match:
  "wp b (match arr) Q s = (case matches_in (bp_source s) (OBJ_ARR s) arr of
      None \<Rightarrow> Q (Raise IndexError) s | Some ms \<Rightarrow> Q (Ret ms) s)"
  by (simp add: match_def wp_simps)

section \<open>breakpoint_match_check\<close>

definition entry_for :: "string list \<Rightarrow> nat \<Rightarrow> nat \<Rightarrow> watch" where
  "entry_for as loc_type ID = \<lparr>addrs_of = as, kind_of = (if loc_type = 0 then ''W'' else ''R''), tid_of = ID\<rparr>"

lemma quiet_checking:
  "loc_type \<le> 1 \<Longrightarrow> quiet b (for_each as (\<lambda>obj.
            if loc_type \<le> 1 then
              bnd (act (time_time A)) (\<lambda>t.
                out c (str_time A t @ '' '' @ access_word loc_type @ '':  ['' @ str_nat ID @ ''] Checking ''
                  @ obj @ ''...''))
            else block [out c ''####### ERROR: loc_type can only be 0 or 1 #######'', terminate c A]))"
  by (rule quiet_for_each, simp only: if_True) (intro quiet_intros)

lemma wp_quiet_blocks:
  assumes "list_all (quiet b) ms" and "ready s"
    and "\<And>s'. alike s s' \<Longrightarrow> ready s' \<Longrightarrow> wp b (block ms') Q s'"
  shows "wp b (block (ms @ ms')) Q s"
  using assms
proof (induction ms arbitrary: s)
  case Nil
  then show ?case by simp
next
  case (Cons m ms)
  show ?case
    unfolding append_Cons
  proof (rule wp_quiet_block)
    fix s'
    assume s': "alike s s'" "ready s'"
    show "wp b (block (ms @ ms')) Q s'"
      using Cons.prems s' by (intro Cons.IH) (auto intro: alike_trans)
  qed (use Cons.prems in simp_all)
qed

definition found_block :: "config \<Rightarrow> ('w, 't, 'f) lldb_api \<Rightarrow> nat \<Rightarrow> nat \<Rightarrow> (string \<times> nat) list
    \<Rightarrow> ('w tstate, unit) prog list" where
  "found_block c A loc_type ID matches =
       [out c (''>>>>>>>>>> '' @ access_word loc_type @ '':  ['' @ str_nat ID @ ''] Found match!''),
        for_each matches (\<lambda>m.
          out c (''addr='' @ fst m @ ''  tid1='' @ str_nat (snd m) @ ''  tid2='' @ str_nat ID)),
        out c ''**************************************************************'',
        out c ''**************************** HALT ****************************'',
        out c ''**************************************************************'',
        resume_threads c A (insert ID (snd ` set matches)),
        stop_process c A,
        out c ''####### SUCCESS: MATCH FOUND #######'']"

definition record_block :: "config \<Rightarrow> ('w, 't, 'f) lldb_api \<Rightarrow> nat \<Rightarrow> watch \<Rightarrow> ('w tstate, unit) prog" where
  "record_block c A ID arr = block
       [update_timer A,
        modify (\<lambda>s. s\<lparr>OBJ_ARR := OBJ_ARR s @ [arr]\<rparr>),
        out c (''>>>>>>> INFO: RECORD THREAD '' @ str_nat ID @ '' >>>>>>>''),
        bnd (all_bp_hit A) (\<lambda>all_hit. whenever all_hit (bnd (release_bp c A) (\<lambda>_. ret ())))]"

lemma breakpoint_match_check_split:
  "breakpoint_match_check c A as loc_type ID =
     bnd (for_each as (\<lambda>obj.
            if loc_type \<le> 1 then
              bnd (act (time_time A)) (\<lambda>t.
                out c (str_time A t @ '' '' @ access_word loc_type @ '':  ['' @ str_nat ID @ ''] Checking ''
                  @ obj @ ''...''))
            else block [out c ''####### ERROR: loc_type can only be 0 or 1 #######'', terminate c A])) (\<lambda>_.
     bnd (match (entry_for as loc_type ID)) (\<lambda>matches.
     if 0 < length matches then block (found_block c A loc_type ID matches @ [terminate c A])
     else record_block c A ID (entry_for as loc_type ID)))"
  by (simp only: breakpoint_match_check_def found_block_def record_block_def entry_for_def append_Cons append_Nil Let_def)

lemma found_quiet: "prompt b A \<Longrightarrow> list_all (quiet b) (found_block c A loc_type ID ms)"
  unfolding found_block_def list.pred_inject by (intro conjI quiet_intros; simp)

lemma wp_found:
  assumes "ready s" and "prompt b A" and "noise (Q (halted c)) (s\<lparr>OUTPUT_FD := ClosedFile\<rparr>)"
  shows "wp b (block (found_block c A loc_type ID ms @ [terminate c A])) Q s"
proof (rule wp_quiet_blocks [OF found_quiet [OF assms(2)] assms(1)])
  fix s'
  assume s': "alike s s'" "ready s'"
  then have "alike (s\<lparr>OUTPUT_FD := ClosedFile\<rparr>) (s'\<lparr>OUTPUT_FD := ClosedFile\<rparr>)" by (simp add: alike_def)
  with assms(3) have "noise (Q (halted c)) (s'\<lparr>OUTPUT_FD := ClosedFile\<rparr>)" by (rule noise_alike)
  with s'(2) show "wp b (block [terminate c A]) Q s'" unfolding wp_block by (intro wp_terminate) simp_all
qed

text \<open>\<open>random.randrange(0, n)\<close> is below \<open>n\<close>.\<close>

definition random_ok :: "('w, 't, 'f) lldb_api \<Rightarrow> bool" where
  "random_ok A \<longleftrightarrow> (\<forall>n w. 0 < n \<longrightarrow> fst (randrange A n w) < n)"

lemma wp_record:
  assumes ready: "ready s" and prompt: "prompt b A"
    and keep: "\<And>t. noise (Q (Ret ())) (s\<lparr>LAST_BREAK := t, OBJ_ARR := OBJ_ARR s @ [arr]\<rparr>)"
    and del: "\<And>t i. i \<le> length (OBJ_ARR s) \<Longrightarrow>
        noise (Q (Ret ())) (s\<lparr>LAST_BREAK := t, OBJ_ARR := del_at i (OBJ_ARR s @ [arr])\<rparr>)"
    and bad: "\<And>t. \<not> random_ok A \<Longrightarrow> noise (Q (Raise IndexError)) (s\<lparr>LAST_BREAK := t, OBJ_ARR := OBJ_ARR s @ [arr]\<rparr>)"
  shows "wp b (record_block c A ID arr) Q s"
  unfolding record_block_def wp_block
proof (rule wp_update_timer [OF ready], rule noiseI, unfold at_seq.simps wp_modify, rule wp_out)
  fix t s1
  assume s1: "alike (s\<lparr>LAST_BREAK := t\<rparr>) s1"
  let ?s1 = "s1\<lparr>OBJ_ARR := OBJ_ARR s1 @ [arr]\<rparr>"
  let ?s = "s\<lparr>LAST_BREAK := t, OBJ_ARR := OBJ_ARR s @ [arr]\<rparr>"
  from s1 have a1: "alike ?s ?s1" by (simp add: alike_def)
  have r1: "ready s1" by (rule ready_alike [OF _ s1]) (simp add: ready)
  then show "ready ?s1" by simp
  show "noise (at_seq (\<lambda>_. wp b (bnd (all_bp_hit A) (\<lambda>all_hit. whenever all_hit (bnd (release_bp c A) (\<lambda>_. ret ()))))
      (at_seq (\<lambda>_. Q (Ret ())) Q)) Q (Ret ())) ?s1"
  proof (rule noiseI, unfold at_seq.simps)
    fix s2
    assume s2: "alike ?s1 s2"
    then have a2: "alike ?s s2" by (rule alike_trans [OF a1])
    have r2: "ready s2" by (rule ready_alike [OF _ s2]) (simp add: r1)
    have objs: "OBJ_ARR s2 = OBJ_ARR s @ [arr]" using a2 by (simp add: alike_def)
    have keep': "noise (Q (Ret ())) s2" using keep a2 by (rule noise_alike)
    have "wp b (release_bp c A) (at_seq (\<lambda>_. Q (Ret ())) Q) s2"
    proof (rule wp_release_bp [OF r2 prompt])
      show "noise (at_seq (\<lambda>_. Q (Ret ())) Q (Ret False)) s2" using keep' by simp
    next
      assume "OBJ_ARR s2 \<noteq> []" "length (OBJ_ARR s2) \<le> fst (randrange A (length (OBJ_ARR s2)) (world s2))"
      then have "\<not> random_ok A" by (auto simp: random_ok_def not_less)
      from noise_alike [OF bad [OF this] a2]
      show "noise (at_seq (\<lambda>_. Q (Ret ())) Q (Raise IndexError)) s2" by simp
    next
      fix i
      assume "i < length (OBJ_ARR s2)"
      then have i: "i \<le> length (OBJ_ARR s)" by (simp add: objs)
      have "alike (s\<lparr>LAST_BREAK := t, OBJ_ARR := del_at i (OBJ_ARR s @ [arr])\<rparr>)
          (s2\<lparr>OBJ_ARR := del_at i (OBJ_ARR s2)\<rparr>)"
        using a2 objs by (simp add: alike_def)
      from noise_alike [OF del [OF i] this]
      show "noise (at_seq (\<lambda>_. Q (Ret ())) Q (Ret True)) (s2\<lparr>OBJ_ARR := del_at i (OBJ_ARR s2)\<rparr>)" by simp
    qed
    then show "wp b (bnd (all_bp_hit A) (\<lambda>all_hit. whenever all_hit (bnd (release_bp c A) (\<lambda>_. ret ()))))
      (at_seq (\<lambda>_. Q (Ret ())) Q) s2"
      using noise_self [OF keep'] by (simp add: wp_simps all_bp_hit_def at_seq_tail)
  qed
qed

lemma wp_breakpoint_match_check:
  fixes s as loc_type ID
  defines "arr \<equiv> entry_for as loc_type ID"
  defines "m \<equiv> matches_in (bp_source s) (OBJ_ARR s) arr"
  assumes ready: "ready s" and prompt: "prompt b A" and lt: "loc_type \<le> 1"
    and none: "m = None \<Longrightarrow> noise (Q (Raise IndexError)) s"
    and hit: "\<And>ms. m = Some ms \<Longrightarrow> ms \<noteq> [] \<Longrightarrow> noise (Q (halted c)) (s\<lparr>OUTPUT_FD := ClosedFile\<rparr>)"
    and keep: "\<And>t. m = Some [] \<Longrightarrow> noise (Q (Ret ())) (s\<lparr>LAST_BREAK := t, OBJ_ARR := OBJ_ARR s @ [arr]\<rparr>)"
    and del: "\<And>t i. m = Some [] \<Longrightarrow> i \<le> length (OBJ_ARR s) \<Longrightarrow>
        noise (Q (Ret ())) (s\<lparr>LAST_BREAK := t, OBJ_ARR := del_at i (OBJ_ARR s @ [arr])\<rparr>)"
    and bad: "\<And>t. m = Some [] \<Longrightarrow> \<not> random_ok A \<Longrightarrow> noise (Q (Raise IndexError)) (s\<lparr>LAST_BREAK := t, OBJ_ARR := OBJ_ARR s @ [arr]\<rparr>)"
  shows "wp b (breakpoint_match_check c A as loc_type ID) Q s"
  unfolding breakpoint_match_check_split
proof (rule wp_quiet_seq [OF quiet_checking [OF lt] ready])
  fix s1
  assume s1: "alike s s1" "ready s1"
  then have same: "bp_source s1 = bp_source s" "OBJ_ARR s1 = OBJ_ARR s" by (simp_all add: alike_def)
  show "wp b (bnd (match (entry_for as loc_type ID)) (\<lambda>matches.
     if 0 < length matches then block (found_block c A loc_type ID matches @ [terminate c A])
     else record_block c A ID (entry_for as loc_type ID))) Q s1"
  proof (cases m)
    case None
    then show ?thesis
      using noiseD [OF none s1(1)] same by (simp add: wp_bnd wp_match m_def arr_def)
  next
    case (Some ms)
    have run: "wp b (bnd (match (entry_for as loc_type ID)) (\<lambda>matches.
       if 0 < length matches then block (found_block c A loc_type ID matches @ [terminate c A])
       else record_block c A ID (entry_for as loc_type ID))) Q s1
      = wp b (if 0 < length ms then block (found_block c A loc_type ID ms @ [terminate c A])
       else record_block c A ID arr) Q s1"
      using Some same by (simp only: wp_bnd wp_match m_def arr_def option.case at_seq.simps)
    show ?thesis
    proof (cases "ms = []")
      case False
      have "alike (s\<lparr>OUTPUT_FD := ClosedFile\<rparr>) (s1\<lparr>OUTPUT_FD := ClosedFile\<rparr>)" using s1 by (simp add: alike_def)
      from noise_alike [OF hit [OF Some False] this] False show ?thesis
        unfolding run by (simp only: length_greater_0_conv not_False_eq_True if_True wp_found [OF s1(2) prompt])
    next
      case True
      with Some have m: "m = Some []" by simp
      have al: "alike (s\<lparr>LAST_BREAK := t, OBJ_ARR := os\<rparr>) (s1\<lparr>LAST_BREAK := t, OBJ_ARR := os\<rparr>)" for t os
        using s1 by (simp add: alike_def)
      have "wp b (record_block c A ID arr) Q s1"
        by (rule wp_record [OF s1(2) prompt]; unfold same)
           (rule noise_alike [OF _ al], (rule keep del bad; use m in simp))+
      with True show ?thesis unfolding run by simp
    qed
  qed
qed

section \<open>The invariant of the store\<close>

definition entries_ok :: "string list \<Rightarrow> watch list \<Rightarrow> bool" where
  "entries_ok src objs \<longleftrightarrow> (\<forall>x \<in> set objs. addrs_of x \<noteq> []) \<and> distinct (map tid_of objs)
     \<and> (\<forall>x \<in> set objs. \<forall>y \<in> set objs. \<not> conflict src x y)"

definition store_ok :: "'w tstate \<Rightarrow> bool" where
  "store_ok s \<longleftrightarrow> entries_ok (bp_source s) (OBJ_ARR s)"

definition tids :: "'w tstate \<Rightarrow> nat set" where
  "tids s = tid_of ` set (OBJ_ARR s)"

lemma entries_ok_Nil [simp]: "entries_ok src []"
  by (simp add: entries_ok_def)

lemma not_self_conflict [simp]: "\<not> conflict src x x"
  by (simp add: conflict_def)

lemma entries_ok_append:
  assumes "entries_ok src objs" and "addrs_of arr \<noteq> []" and "tid_of arr \<notin> tid_of ` set objs"
    and "matches_in src objs arr = Some []"
  shows "entries_ok src (objs @ [arr])"
  using assms no_match_iff [OF assms(4)] by (auto simp: entries_ok_def conflict_sym [of src arr])

lemma entries_ok_del: "entries_ok src objs \<Longrightarrow> entries_ok src (del_at i objs)"
  using set_del_at [of i objs] distinct_del_at [of "map tid_of objs" i]
  by (auto simp: entries_ok_def map_del_at subset_iff)

text \<open>What a callback's body keeps: everything but the store, the clock, the running flag and the output file.\<close>

definition steady :: "'w tstate \<Rightarrow> 'w tstate \<Rightarrow> bool" where
  "steady s s' \<longleftrightarrow> STATUS_FOUND s' = STATUS_FOUND s \<and> bp_source s' = bp_source s
     \<and> bp_location s' = bp_location s \<and> held s' = held s \<and> timers s' = timers s"

definition stays :: "nat set \<Rightarrow> 'w tstate \<Rightarrow> 'a outcome \<Rightarrow> 'w tstate \<Rightarrow> bool" where
  "stays T s r s' \<longleftrightarrow> steady s s' \<and> store_ok s' \<and> (\<forall>x. r = Ret x \<longrightarrow> ready s' \<and> tids s' \<subseteq> T) \<and> r \<noteq> Block"

lemma stays_alike: "stays T s r s' \<Longrightarrow> alike s' s'' \<Longrightarrow> stays T s r s''"
  unfolding stays_def steady_def store_ok_def tids_def by (auto simp: alike_def ready_def)

lemma noise_stays: "stays T s r s' \<Longrightarrow> noise (stays T s r) s'"
  by (rule noiseI) (rule stays_alike)

lemma stays_halted: "store_ok s' \<Longrightarrow> steady s s' \<Longrightarrow> stays T s (halted c) (s'\<lparr>OUTPUT_FD := ClosedFile\<rparr>)"
  by (simp add: stays_def steady_def store_ok_def)

lemma wp_addr_check:
  assumes ready: "ready s1" and ok: "store_ok s1" and st: "steady s s1" and tids: "tids s1 \<subseteq> T"
    and new: "ID \<notin> tids s1" and prompt: "prompt b A" and lt: "lt \<le> 1"
  shows "wp b (bnd (bnd (source_line i) (get_addr c A fr)) (\<lambda>as. breakpoint_match_check c A as lt ID))
           (stays (insert ID T) s) s1"
proof (cases "py_index (bp_source s1) i")
  case None
  then show ?thesis
    using ok st by (simp add: source_line_def wp_simps stays_def)
next
  case (Some src)
  have "wp b (get_addr c A fr src)
      (at_seq (\<lambda>as. wp b (breakpoint_match_check c A as lt ID) (stays (insert ID T) s)) (stays (insert ID T) s)) s1"
  proof (rule wp_get_addr [OF ready], unfold at_seq_fun at_seq_halted)
    show "noise (stays (insert ID T) s (halted c)) (s1\<lparr>OUTPUT_FD := ClosedFile\<rparr>)"
      using ok st by (intro noise_stays stays_halted)
  next
    fix as :: "string list"
    assume as: "as \<noteq> []"
    show "noise (wp b (breakpoint_match_check c A as lt ID) (stays (insert ID T) s)) s1"
    proof (rule noiseI)
      fix s2
      assume "alike s1 s2"
      then have s2: "OBJ_ARR s2 = OBJ_ARR s1" "bp_source s2 = bp_source s1" "steady s1 s2" "ready s2"
        using ready_alike [OF ready] by (simp_all add: alike_def steady_def)
      let ?arr = "entry_for as lt ID"
      have arr: "addrs_of ?arr \<noteq> []" "tid_of ?arr = ID" using as by (simp_all add: entry_for_def)
      have add: "entries_ok (bp_source s2) (OBJ_ARR s2 @ [?arr])"
        if "matches_in (bp_source s2) (OBJ_ARR s2) ?arr = Some []"
        using ok new that arr s2 by (intro entries_ok_append) (auto simp: store_ok_def tids_def)
      show "wp b (breakpoint_match_check c A as lt ID) (stays (insert ID T) s) s2"
      proof (rule wp_breakpoint_match_check [OF s2(4) prompt lt])
        show "noise (stays (insert ID T) s (Raise IndexError)) s2"
          using ok st s2 by (intro noise_stays) (simp add: stays_def steady_def store_ok_def)
      next
        show "noise (stays (insert ID T) s (halted c)) (s2\<lparr>OUTPUT_FD := ClosedFile\<rparr>)"
          using ok st s2 by (intro noise_stays stays_halted) (simp_all add: steady_def store_ok_def)
      next
        fix t
        assume "matches_in (bp_source s2) (OBJ_ARR s2) ?arr = Some []"
        from add [OF this]
        show "noise (stays (insert ID T) s (Ret ())) (s2\<lparr>LAST_BREAK := t, OBJ_ARR := OBJ_ARR s2 @ [?arr]\<rparr>)"
          and "noise (stays (insert ID T) s (Raise IndexError))
                 (s2\<lparr>LAST_BREAK := t, OBJ_ARR := OBJ_ARR s2 @ [?arr]\<rparr>)"
          using st s2 tids arr
          by (auto intro!: noise_stays simp: stays_def steady_def store_ok_def tids_def image_subset_iff)
      next
        fix t i
        assume "matches_in (bp_source s2) (OBJ_ARR s2) ?arr = Some []"
        from entries_ok_del [OF add [OF this], of i]
        have "entries_ok (bp_source s2) (del_at i (OBJ_ARR s2 @ [?arr]))" .
        moreover have "tid_of ` set (del_at i (OBJ_ARR s2 @ [?arr])) \<subseteq> tid_of ` set (OBJ_ARR s2 @ [?arr])"
          by (rule image_mono [OF set_del_at])
        then have "tid_of ` set (del_at i (OBJ_ARR s2 @ [?arr])) \<subseteq> insert ID T"
          using tids s2(1) arr(2) by (simp add: tids_def) (metis insert_mono subset_trans)
        ultimately show "noise (stays (insert ID T) s (Ret ()))
            (s2\<lparr>LAST_BREAK := t, OBJ_ARR := del_at i (OBJ_ARR s2 @ [?arr])\<rparr>)"
          using st s2(3,4) by (intro noise_stays) (simp add: stays_def steady_def store_ok_def tids_def)
      qed
    qed
  qed
  with Some show ?thesis by (simp add: source_line_def wp_simps)
qed

lemma wp_location_line:
  assumes "\<And>n. Q (Ret n) s" and "\<And>e. Q (Raise e) s"
  shows "wp b (location_line i) Q s"
  using assms by (auto simp: location_line_def wp_simps split: option.splits)

lemma wp_handle_thread:
  assumes ready: "ready s1" and ok: "store_ok s1" and st: "steady s s1" and tids: "tids s1 \<subseteq> T"
    and new: "GetThreadID A thd \<notin> tids s1" and prompt: "prompt b A"
  shows "wp b (handle_thread c A fo thd) (stays (insert (GetThreadID A thd) T) s) s1"
  unfolding handle_thread_def
proof (rule wp_quiet_seq [OF quiet_suspend [OF prompt] ready])
  fix s2
  assume a: "alike s1 s2" and ready2: "ready s2"
  let ?Q = "stays (insert (GetThreadID A thd) T) s"
  have s2: "store_ok s2" "steady s s2" "tids s2 \<subseteq> T" "GetThreadID A thd \<notin> tids s2"
    using ok st tids new a by (simp_all add: alike_def store_ok_def steady_def tids_def)
  note check = wp_addr_check [OF ready2 s2 prompt, where c = c]
  have raise: "?Q (Raise e) s2" for e
    using s2 by (simp add: stays_def)
  have stop: "wp b (block [out c m, terminate c A]) ?Q s2" for m
    using s2 by (intro wp_message_terminate [OF ready2] noise_stays stays_halted)
  let ?second = "\<lambda>fr. bnd (ask (FrameLine A fr)) (\<lambda>line.
     bnd (location_line 1) (\<lambda>line1.
     if line = line1 then
       bnd (bnd (source_line 1) (get_addr c A fr)) (\<lambda>addrs.
         breakpoint_match_check c A addrs 1 (GetThreadID A thd))
     else block [out c ''####### ERROR: thd.GetSelectedFrame FAILED. #######'', terminate c A]))"
  have second: "wp b (?second fr) ?Q s2" for fr
  proof (subst wp_bnd, unfold wp_ask at_seq_fun, subst wp_bnd, rule wp_location_line, unfold at_seq_fun)
    fix n
    show "wp b (if FrameLine A fr (world s2) = n then
       bnd (bnd (source_line 1) (get_addr c A fr)) (\<lambda>addrs.
         breakpoint_match_check c A addrs 1 (GetThreadID A thd))
     else block [out c ''####### ERROR: thd.GetSelectedFrame FAILED. #######'', terminate c A]) ?Q s2"
      unfolding wp_if using check [of 1 1 fr] stop by simp
  qed (rule raise)
  show "wp b (bnd (ask (fo thd)) (\<lambda>fr.
     bnd (ask (FrameLine A fr)) (\<lambda>line.
     bnd (location_line 0) (\<lambda>line0.
     if line = line0 then
       bnd (bnd (source_line 0) (get_addr c A fr)) (\<lambda>addrs.
         breakpoint_match_check c A addrs 0 (GetThreadID A thd))
     else ?second fr)))) ?Q s2"
  proof (subst wp_bnd, unfold wp_ask at_seq_fun, subst wp_bnd, unfold wp_ask at_seq_fun, subst wp_bnd,
      rule wp_location_line, unfold at_seq_fun)
    fix n
    show "wp b (if FrameLine A (fo thd (world s2)) (world s2) = n then
       bnd (bnd (source_line 0) (get_addr c A (fo thd (world s2)))) (\<lambda>addrs.
         breakpoint_match_check c A addrs 0 (GetThreadID A thd))
     else ?second (fo thd (world s2))) ?Q s2"
      unfolding wp_if using check [of 0 0 "fo thd (world s2)"] second [of "fo thd (world s2)"]
      by (simp only: split: if_split) blast
  qed (rule raise)
qed

section \<open>Untracked threads\<close>

definition untracked :: "('w, 't, 'f) lldb_api \<Rightarrow> 'w tstate \<Rightarrow> 't list" where
  "untracked A s = filter (\<lambda>thd. StopReasonBreakpoint A thd (world s) \<and> GetThreadID A thd \<notin> tids s)
     (ProcessThreads A (world s))"

definition distinct_ids :: "('w, 't, 'f) lldb_api \<Rightarrow> bool" where
  "distinct_ids A \<longleftrightarrow> (\<forall>w. distinct (map (GetThreadID A) (ProcessThreads A w)))"

lemma distinct_untracked: "distinct_ids A \<Longrightarrow> distinct (map (GetThreadID A) (untracked A s))"
  by (simp add: distinct_ids_def untracked_def distinct_map_filter)

lemma wp_untracked:
  assumes ready: "ready s" and Q: "noise (Q (Ret (untracked A s))) s"
  shows "wp b (untracked_breakpoint_check c A) Q s"
proof -
  let ?stopped = "filter (\<lambda>thd. StopReasonBreakpoint A thd (world s)) (ProcessThreads A (world s))"
  have same: "filter (\<lambda>thd. GetThreadID A thd \<notin> set (map tid_of (OBJ_ARR s))) ?stopped = untracked A s"
    by (simp add: untracked_def tids_def conj_commute)
  let ?report = "if 1 < length (untracked A s) then block
            [out c ''####### WARN: Multiple breakpoints are hit in CALLBACK! #######'',
             out c (str_nats (map (GetThreadID A) (untracked A s)))]
          else if length (untracked A s) < 1 then block
            [out c ''####### WARN: No breakpoints are hit in CALLBACK! #######'',
             out c (str_nats (map (GetThreadID A) ?stopped))]
          else ret ()"
  have "quiet b ?report"
    by (auto intro!: quiet_bnd quiet_out quiet_ret)
  then have "wp b (bnd ?report (\<lambda>_. ret (untracked A s))) Q s"
    by (rule wp_quiet_seq [OF _ ready]) (simp add: noiseD [OF Q])
  then show ?thesis
    unfolding untracked_breakpoint_check_def
    by (subst wp_bnd, unfold wp_get at_seq_fun, subst wp_bnd, unfold wp_ask at_seq_fun Let_def same)
qed

lemma wp_handle_all:
  assumes ready: "ready s1" and ok: "store_ok s1" and st: "steady s s1" and prompt: "prompt b A"
    and new: "distinct (map (GetThreadID A) ts)" "\<forall>t \<in> set ts. GetThreadID A t \<notin> tids s1"
    and finish: "\<And>s2. stays UNIV s (Ret ()) s2 \<Longrightarrow> Q (Ret ()) s2"
    and other: "\<And>r s2. stays UNIV s r s2 \<Longrightarrow> r \<noteq> Ret () \<Longrightarrow> Q r s2"
  shows "wp b (for_each ts (handle_thread c A fo)) Q s1"
proof (rule wp_for_each_inv [of "\<lambda>ts s2. ready s2 \<and> store_ok s2 \<and> steady s s2 \<and> distinct (map (GetThreadID A) ts)
    \<and> (\<forall>t \<in> set ts. GetThreadID A t \<notin> tids s2)"])
  show "ready s1 \<and> store_ok s1 \<and> steady s s1 \<and> distinct (map (GetThreadID A) ts)
    \<and> (\<forall>t \<in> set ts. GetThreadID A t \<notin> tids s1)" using assms by simp
next
  fix s2
  assume "ready s2 \<and> store_ok s2 \<and> steady s s2 \<and> distinct (map (GetThreadID A) [])
    \<and> (\<forall>t \<in> set []. GetThreadID A t \<notin> tids s2)"
  then show "Q (Ret ()) s2" by (intro finish) (simp add: stays_def)
next
  fix t us s2
  let ?I = "\<lambda>s2. ready s2 \<and> store_ok s2 \<and> steady s s2 \<and> distinct (map (GetThreadID A) us)
    \<and> (\<forall>t \<in> set us. GetThreadID A t \<notin> tids s2)"
  assume I: "ready s2 \<and> store_ok s2 \<and> steady s s2 \<and> distinct (map (GetThreadID A) (t # us))
    \<and> (\<forall>t \<in> set (t # us). GetThreadID A t \<notin> tids s2)"
  show "wp b (handle_thread c A fo t) (at_seq (\<lambda>_. ?I) Q) s2"
  proof (rule wp_mono [OF wp_handle_thread [of s2 s "tids s2" A t b c fo]])
    fix r :: "unit outcome" and s3
    assume st3: "stays (insert (GetThreadID A t) (tids s2)) s r s3"
    show "at_seq (\<lambda>_. ?I) Q r s3"
    proof (cases r)
      case (Ret x)
      have "GetThreadID A u \<notin> tids s3" if u: "u \<in> set us" for u
      proof -
        have "GetThreadID A u \<noteq> GetThreadID A t" using u I by (metis distinct.simps(2) image_eqI list.simps(9) set_map)
        moreover have "GetThreadID A u \<notin> tids s2" using u I by simp
        ultimately show ?thesis using st3 Ret unfolding stays_def by blast
      qed
      with st3 I Ret show ?thesis by (simp add: stays_def)
    qed (use st3 other [of r s3] in \<open>auto simp: stays_def\<close>)
  qed (use I prompt in auto)
qed

section \<open>Threads that resumed\<close>

lemma indices_none: "ID \<notin> tid_of ` set objs \<Longrightarrow> map fst (filter (\<lambda>p. tid_of (snd p) = ID) (enumerate n objs)) = []"
  by (induction objs arbitrary: n) auto

lemma indices_of_one:
  assumes "ID \<notin> tid_of ` set xs" and "tid_of x = ID" and "ID \<notin> tid_of ` set ys"
  shows "indices_of ID (xs @ x # ys) = [length xs]"
  using assms indices_none [of ID xs 0] indices_none [of ID ys]
  by (simp add: indices_of_def enumerate_append_eq)

text \<open>The deletion by positions is the removal of the thread's entry, because there is at most one.\<close>

lemma wp_delete_indices:
  assumes "distinct (map tid_of (OBJ_ARR s))"
    and "Q (Ret ()) (s\<lparr>OBJ_ARR := filter (\<lambda>x. tid_of x \<noteq> ID) (OBJ_ARR s)\<rparr>)"
  shows "wp b (delete_indices (indices_of ID (OBJ_ARR s))) Q s"
proof (cases "ID \<in> tid_of ` set (OBJ_ARR s)")
  case False
  then have "filter (\<lambda>x. tid_of x \<noteq> ID) (OBJ_ARR s) = OBJ_ARR s" by (intro filter_True) auto
  then have "Q (Ret ()) s" using assms(2) by simp
  with indices_none [OF False, of 0] show ?thesis by (simp add: indices_of_def delete_indices_def wp_simps)
next
  case True
  then obtain x where "x \<in> set (OBJ_ARR s)" "tid_of x = ID" by auto
  then obtain xs ys where split: "OBJ_ARR s = xs @ x # ys" by (meson split_list)
  have notin: "ID \<notin> tid_of ` set xs" "ID \<notin> tid_of ` set ys"
    using assms(1) \<open>tid_of x = ID\<close> unfolding split by auto
  then have "\<forall>y \<in> set xs \<union> set ys. tid_of y \<noteq> ID" by auto
  then have "filter (\<lambda>x. tid_of x \<noteq> ID) (OBJ_ARR s) = xs @ ys"
    using \<open>tid_of x = ID\<close> unfolding split by simp
  moreover have "del_at (length xs) (OBJ_ARR s) = xs @ ys" by (simp add: split del_at_def)
  moreover have "indices_of ID (OBJ_ARR s) = [length xs]"
    using indices_of_one [OF notin(1) \<open>tid_of x = ID\<close> notin(2)] by (simp add: split)
  ultimately show ?thesis
    using assms(2) by (simp add: delete_indices_def wp_simps split)
qed

lemma wp_liveness:
  assumes "ready s" and "noise (Q (Ret (indices_of ID (OBJ_ARR s)))) s"
  shows "wp b (thread_liveness_check c ID) Q s"
  unfolding thread_liveness_check_def
  by (subst wp_bnd, unfold wp_get at_seq_fun, rule wp_quiet_seq [OF quiet_whenever [OF quiet_out] assms(1)])
     (simp add: noiseD [OF assms(2)])

lemma entries_ok_filter: "entries_ok src objs \<Longrightarrow> entries_ok src (filter P objs)"
  by (auto simp: entries_ok_def distinct_map_filter)

section \<open>Events\<close>

text \<open>
  What an event leaves, when it starts with the lock free: the invariant of the store; and either it
  has returned with every lock as before, or it still holds the process lock.
\<close>

definition event_post :: "'w tstate \<Rightarrow> unit outcome \<Rightarrow> 'w tstate \<Rightarrow> bool" where
  "event_post s r s' \<longleftrightarrow> store_ok s' \<and> STATUS_FOUND s' = STATUS_FOUND s \<and> bp_source s' = bp_source s
     \<and> bp_location s' = bp_location s
     \<and> (if r = Ret () then ready s' \<and> held s' = held s else r \<noteq> Block \<and> held s' process_lock)"

definition locked :: "'w tstate \<Rightarrow> 'w tstate" where
  "locked s = s\<lparr>held := (held s)(process_lock := True)\<rparr>"

lemma locked_sel [simp]:
  "ready (locked s) = ready s" "store_ok (locked s) = store_ok s" "OBJ_ARR (locked s) = OBJ_ARR s"
  "held (locked s) = (held s)(process_lock := True)" "STATUS_FOUND (locked s) = STATUS_FOUND s"
  "bp_source (locked s) = bp_source s" "bp_location (locked s) = bp_location s"
  by (simp_all add: locked_def ready_def store_ok_def)

lemma event_post_stays:
  "stays T (locked s) r s2 \<Longrightarrow> r \<noteq> Ret () \<Longrightarrow> event_post s r s2"
  by (auto simp: stays_def event_post_def steady_def)

lemma wp_handle_untracked:
  assumes free: "\<not> held s process_lock" and ready: "ready s1" and ok: "store_ok s1" and st: "steady (locked s) s1"
    and prompt: "prompt b A" and ids: "distinct_ids A"
  shows "wp b (handle_untracked c A fo) (event_post s) s1"
  unfolding handle_untracked_def
proof (subst wp_bnd, rule wp_untracked [OF ready], unfold at_seq_fun, rule noiseI)
  fix s2
  assume a: "alike s1 s2"
  then have s2: "ready s2" "store_ok s2" "steady (locked s) s2"
    using ready_alike [OF ready] ok st by (simp_all add: alike_def store_ok_def steady_def)
  show "wp b (bnd (for_each (untracked A s1) (handle_thread c A fo)) (\<lambda>_. block
       [modify (\<lambda>s. s\<lparr>RUNNING := True\<rparr>), continue_process c A, release process_lock])) (event_post s) s2"
  proof (subst wp_bnd, rule wp_handle_all [OF s2 prompt distinct_untracked [OF ids]])
    show "\<forall>t \<in> set (untracked A s1). GetThreadID A t \<notin> tids s2"
      using a by (auto simp: untracked_def tids_def alike_def)
  next
    fix s3
    assume "stays UNIV (locked s) (Ret ()) s3"
    then have s3: "ready s3" "store_ok s3" "steady (locked s) s3" by (simp_all add: stays_def)
    have "held s' = (held s)(process_lock := True) \<Longrightarrow> (held s')(process_lock := False) = held s" for s' :: "'a tstate"
      using free by (auto simp: fun_upd_def)
    then have "event_post s (Ret ()) (s4\<lparr>held := (held s4)(process_lock := False)\<rparr>)"
      if "alike (s3\<lparr>RUNNING := True\<rparr>) s4" for s4
      using that s3 by (auto simp: event_post_def alike_def steady_def store_ok_def ready_def)
    then show "at_seq (\<lambda>_. wp b (block [modify (\<lambda>s. s\<lparr>RUNNING := True\<rparr>), continue_process c A,
         release process_lock]) (event_post s)) (event_post s) (Ret ()) s3"
      using s3(1) by (auto simp: wp_simps intro!: wp_continue_process [OF _ prompt] noiseI)
  next
    fix r s3
    assume "stays UNIV (locked s) r s3" "r \<noteq> Ret ()"
    then have "event_post s r s3" by (rule event_post_stays)
    with \<open>r \<noteq> Ret ()\<close> show "at_seq (\<lambda>_. wp b (block [modify (\<lambda>s. s\<lparr>RUNNING := True\<rparr>), continue_process c A,
         release process_lock]) (event_post s)) (event_post s) r s3" by (cases r) auto
  qed
qed

end
