(* ===== verification/TriggerRuns.thy ===== *)
theory TriggerRuns
  imports TriggerStore
begin

text \<open>
  Runs of the trigger: the callbacks LLDB makes, the ticks of the timer and whatever the debuggee does in
  between, as a step relation over the globals; what every event keeps; the states a run reaches.
\<close>

section \<open>The callbacks\<close>

lemma steady_refl [simp]: "steady s s"
  by (simp add: steady_def)

lemma steady_alike: "steady s s1 \<Longrightarrow> alike s1 s2 \<Longrightarrow> steady s s2"
  by (simp add: steady_def alike_def)

lemma store_ok_alike: "store_ok s1 \<Longrightarrow> alike s1 s2 \<Longrightarrow> store_ok s2"
  by (simp add: store_ok_def alike_def)

lemma wp_block_last: "wp b (block [m]) Q s = wp b m Q s"
proof -
  have "at_seq (\<lambda>_. Q (Ret ())) Q = Q"
  proof (intro ext)
    fix r s
    show "at_seq (\<lambda>_. Q (Ret ())) Q r s = Q r s" by (cases r) simp_all
  qed
  then show ?thesis by (simp add: wp_simps)
qed

lemma wp_assign: "wp b (block (modify f # ms)) Q s = wp b (block ms) Q (f s)"
  by (simp add: wp_simps)

text \<open>Two quiet statements at the start of a callback, under the lock.\<close>

lemma wp_prologue:
  assumes ready: "ready s" and ok: "store_ok s" and prompt: "prompt b A"
    and rest: "\<And>s2. ready s2 \<Longrightarrow> store_ok s2 \<Longrightarrow> steady (locked s) s2 \<Longrightarrow> OBJ_ARR s2 = OBJ_ARR s \<Longrightarrow>
        wp b (block ms) Q s2"
  shows "wp b (block (out c m # stop_process c A # ms)) Q (locked s)"
proof (rule wp_quiet_block [OF quiet_out], simp add: ready, rule wp_quiet_block [OF quiet_stop [OF prompt]])
  fix s1 s2
  assume a: "alike (locked s) s1" "alike s1 s2" and s2: "ready s2"
  from a have a2: "alike (locked s) s2" by (rule alike_trans)
  have "store_ok (locked s)" using ok by simp
  from rest [OF s2 store_ok_alike [OF this a2] steady_alike [OF steady_refl a2]] a2
  show "wp b (block ms) Q s2" by (simp add: alike_def)
qed

lemma wp_enter:
  assumes "\<not> held s process_lock" and "wp b (block ms) Q (locked s)"
  shows "wp b (block (acquire process_lock # ms)) Q s"
  using assms by (simp add: wp_simps locked_def)

lemma wp_body:
  assumes free: "\<not> held s process_lock" and s2: "ready s2" "store_ok s2" "steady (locked s) s2"
    and prompt: "prompt b A" and ids: "distinct_ids A"
  shows "wp b (handle_untracked c A fo) (event_post s) (s2\<lparr>RUNNING := False\<rparr>)"
  by (rule wp_handle_untracked [OF free _ _ _ prompt ids])
     (use s2 in \<open>simp_all add: store_ok_def steady_def\<close>)

lemma wp_read_callback:
  assumes free: "\<not> held s process_lock" and ready: "ready s" and ok: "store_ok s"
    and prompt: "prompt b A" and ids: "distinct_ids A"
  shows "wp b (read_callback c A frame) (event_post s) s"
  unfolding read_callback_def
  by (rule wp_enter [OF free], rule wp_prologue [OF ready ok prompt], unfold wp_assign wp_block_last)
     (rule wp_body [OF free _ _ _ prompt ids])

lemma wp_write_callback:
  assumes free: "\<not> held s process_lock" and ready: "ready s" and ok: "store_ok s"
    and prompt: "prompt b A" and ids: "distinct_ids A"
  shows "wp b (write_callback c A frame) (event_post s) s"
  unfolding write_callback_def
proof (rule wp_enter [OF free], rule wp_prologue [OF ready ok prompt], unfold wp_assign)
  fix s2
  assume s2: "ready s2" "store_ok s2" "steady (locked s) s2"
  let ?ID = "GetThreadID A (GetThread A frame)"
  let ?s2 = "s2\<lparr>RUNNING := False\<rparr>"
  show "wp b (block [bnd (thread_liveness_check c ?ID) delete_indices,
      handle_untracked c A (GetSelectedFrame A)]) (event_post s) ?s2"
    unfolding block.simps(2)
  proof (subst wp_bnd, subst wp_bnd, rule wp_liveness)
    show "ready ?s2" using s2(1) by simp
    show "noise (at_seq (\<lambda>x. wp b (delete_indices x) (at_seq (\<lambda>x. wp b (bnd (handle_untracked c A (GetSelectedFrame A))
        (\<lambda>_. block [])) (event_post s)) (event_post s)))
        (at_seq (\<lambda>x. wp b (bnd (handle_untracked c A (GetSelectedFrame A)) (\<lambda>_. block [])) (event_post s)) (event_post s))
        (Ret (indices_of ?ID (OBJ_ARR ?s2)))) ?s2"
    proof (rule noiseI, unfold at_seq_fun)
      fix s3
      assume a: "alike ?s2 s3"
      then have objs: "OBJ_ARR ?s2 = OBJ_ARR s3" by (simp add: alike_def)
      let ?s3 = "s3\<lparr>OBJ_ARR := filter (\<lambda>x. tid_of x \<noteq> ?ID) (OBJ_ARR s3)\<rparr>"
      have ok3: "entries_ok (bp_source s3) (OBJ_ARR s3)" using s2(2) a by (simp add: store_ok_def alike_def)
      have "ready s3" by (rule ready_alike [OF _ a]) (simp add: s2(1))
      then have s3: "ready ?s3" "store_ok ?s3" "steady (locked s) ?s3"
        using s2(3) a ok3 by (simp_all add: store_ok_def steady_def alike_def entries_ok_filter)
      have run: "?s3 = ?s3\<lparr>RUNNING := False\<rparr>" using a by (simp add: alike_def)
      have "wp b (handle_untracked c A (GetSelectedFrame A)) (event_post s) ?s3"
        by (subst run, rule wp_body [OF free s3 prompt ids])
      then show "wp b (delete_indices (indices_of ?ID (OBJ_ARR ?s2)))
          (at_seq (\<lambda>x. wp b (bnd (handle_untracked c A (GetSelectedFrame A)) (\<lambda>_. block [])) (event_post s)) (event_post s)) s3"
        unfolding objs
        by (intro wp_delete_indices)
           (use ok3 in \<open>simp_all add: entries_ok_def wp_block_last flip: block.simps\<close>)
    qed
  qed
qed

section \<open>The timer\<close>

lemma wp_since_break:
  assumes "\<And>late. noise (Q (Ret late)) s"
  shows "wp b (since_break A limit) Q s"
  unfolding since_break_def using noiseD [OF assms] by (simp add: wp_simps)

lemma stays_same: "ready s1 \<Longrightarrow> store_ok s1 \<Longrightarrow> steady s s1 \<Longrightarrow> stays UNIV s r s1 \<longleftrightarrow> r \<noteq> Block"
  by (simp add: stays_def)

lemma wp_timer_release:
  assumes ready: "ready s1" and ok: "store_ok s1" and st: "steady s s1" and prompt: "prompt b A"
  shows "wp b (timer_release c A) (stays UNIV s) s1"
  unfolding timer_release_def wp_assign
proof (subst wp_block, subst wp_bnd, rule wp_release_bp [OF _ prompt])
  let ?s1 = "s1\<lparr>RUNNING := False\<rparr>"
  have ok1: "entries_ok (bp_source s1) (OBJ_ARR s1)" using ok by (simp add: store_ok_def)
  show "ready ?s1" using ready by simp
  let ?E = "at_seq (\<lambda>_::unit. wp b (block [modify (\<lambda>s. s\<lparr>RUNNING := True\<rparr>), continue_process c A]) (stays UNIV s)) (stays UNIV s :: unit outcome \<Rightarrow> _)"
  let ?Q = "at_seq (\<lambda>released. wp b (whenever released (update_timer A)) ?E) ?E"
  have tail: "wp b (block [modify (\<lambda>s. s\<lparr>RUNNING := True\<rparr>), continue_process c A]) (stays UNIV s) s3"
    if "ready s3" "store_ok s3" "steady s s3" for s3
    unfolding wp_assign wp_block_last using that
    by (intro wp_continue_process [OF _ prompt] noise_stays)
       (simp_all add: stays_def store_ok_def steady_def)
  show "noise (?Q (Ret False)) ?s1"
  proof (rule noiseI)
    fix s2
    assume a: "alike ?s1 s2"
    have "ready s2" "store_ok s2" "steady s s2"
      using a ready_alike [OF _ a] ready ok1 st by (simp_all add: alike_def store_ok_def steady_def)
    from tail [OF this] show "?Q (Ret False) s2" by (simp add: wp_simps)
  qed
  show "noise (?Q (Raise IndexError)) ?s1"
    using ok1 st ready by (simp, intro noise_stays) (simp add: stays_def steady_def store_ok_def)
  fix i
  show "noise (?Q (Ret True)) (?s1\<lparr>OBJ_ARR := del_at i (OBJ_ARR ?s1)\<rparr>)"
  proof (rule noiseI)
    fix s2
    assume a: "alike (?s1\<lparr>OBJ_ARR := del_at i (OBJ_ARR ?s1)\<rparr>) s2"
    have s2: "ready s2" "store_ok s2" "steady s s2"
      using a ready_alike [OF _ a] ready entries_ok_del [OF ok1, of i] st
      by (simp_all add: alike_def store_ok_def steady_def)
    have "wp b (update_timer A) ?E s2"
    proof (rule wp_update_timer [OF s2(1)], rule noiseI, unfold at_seq_fun, rule tail)
      fix t s3
      assume a3: "alike (s2\<lparr>LAST_BREAK := t\<rparr>) s3"
      then show "ready s3" "store_ok s3" "steady s s3"
        using s2 ready_alike [OF _ a3] by (simp_all add: alike_def store_ok_def steady_def)
    qed
    then show "?Q (Ret True) s2" by (simp add: wp_simps)
  qed
qed

definition timer_body :: "config \<Rightarrow> ('w, 't, 'f) lldb_api \<Rightarrow> ('w tstate, unit) prog" where
  "timer_body c A = bnd (get RUNNING) (\<lambda>running.
        if running then block
          [bnd (since_break A (WAIT_TIME c)) (\<lambda>late. whenever late (timer_release c A)),
           bnd (get (\<lambda>s. \<not> INTERACTIVE c \<and> length (OBJ_ARR s) = 0)) (\<lambda>idle. whenever idle
             (bnd (since_break A (KILL_TIME c)) (\<lambda>late. whenever late (block
               [out c (''####### TERMINATE: No breakpoints hit in '' @ seconds (KILL_TIME c) @ '' sec...''),
                terminate c A]))))]
        else whenever (\<not> INTERACTIVE c)
          (bnd (since_break A (TERM_TIME c)) (\<lambda>late. whenever late (block
            [out c (''####### TERMINATE: Unable to start up after '' @ seconds (TERM_TIME c) @ '' sec...''),
             terminate c A]))))"

lemma timer_split:
  "timer c A = block
     [acquire process_lock, timer_body c A, release process_lock,
      bnd (get STATUS_FOUND) (\<lambda>found. whenever found (block
        [out c ''####### STATUS: MATCH FOUND #######'', terminate c A])),
      modify (\<lambda>s. s\<lparr>timers := Suc (timers s)\<rparr>)]"
  unfolding timer_def timer_body_def by (rule refl)

lemma if_intro: "P \<Longrightarrow> Q \<Longrightarrow> if c then P else Q"
  by simp

lemma wp_late_stop:
  assumes "ready s1" and "store_ok s1" and "steady s s1"
  shows "wp b (bnd (since_break A limit) (\<lambda>late. whenever late (block [out c m, terminate c A]))) (stays UNIV s) s1"
proof (subst wp_bnd, rule wp_since_break, rule noiseI, unfold at_seq_fun)
  fix late s2
  assume a: "alike s1 s2"
  have s2: "ready s2" "store_ok s2" "steady s s2"
    using ready_alike [OF assms(1) a] store_ok_alike [OF assms(2) a] steady_alike [OF assms(3) a] .
  have "wp b (block [out c m, terminate c A]) (stays UNIV s) s2"
    using s2 by (intro wp_message_terminate noise_stays stays_halted)
  moreover have "stays UNIV s (Ret ()) s2" using s2 by (simp add: stays_def)
  ultimately show "wp b (whenever late (block [out c m, terminate c A])) (stays UNIV s) s2"
    unfolding wp_whenever by simp
qed

lemma wp_timer_body:
  assumes ready: "ready s1" and ok: "store_ok s1" and st: "steady s s1" and prompt: "prompt b A"
  shows "wp b (timer_body c A) (stays UNIV s) s1"
proof -
  let ?kill = "bnd (get (\<lambda>s. \<not> INTERACTIVE c \<and> length (OBJ_ARR s) = 0)) (\<lambda>idle. whenever idle
             (bnd (since_break A (KILL_TIME c)) (\<lambda>late. whenever late (block
               [out c (''####### TERMINATE: No breakpoints hit in '' @ seconds (KILL_TIME c) @ '' sec...''),
                terminate c A]))))"
  have kill: "wp b ?kill (stays UNIV s) s2" if "ready s2" "store_ok s2" "steady s s2" for s2
    by (subst wp_bnd, unfold wp_get at_seq_fun wp_whenever)
       (rule if_intro, rule wp_late_stop [OF that], use that in \<open>simp add: stays_def\<close>)
  let ?K = "at_seq (\<lambda>_::unit. wp b ?kill (stays UNIV s)) (stays UNIV s :: unit outcome \<Rightarrow> _)"
  have "wp b (bnd (since_break A (WAIT_TIME c)) (\<lambda>late. whenever late (timer_release c A)))
      ?K s1"
  proof (subst wp_bnd, rule wp_since_break, rule noiseI, unfold at_seq_fun)
    fix late s2
    assume a: "alike s1 s2"
    have s2: "ready s2" "store_ok s2" "steady s s2"
      using ready_alike [OF ready a] store_ok_alike [OF ok a] steady_alike [OF st a] .
    have "wp b (timer_release c A) ?K s2"
    proof (rule wp_mono [OF wp_timer_release [OF s2 prompt]])
      fix r :: "unit outcome" and s3
      assume st3: "stays UNIV s r s3"
      show "?K r s3"
      proof (cases r)
        case (Ret x)
        with st3 show ?thesis using kill [of s3] by (simp only: at_seq_fun) (simp only: stays_def simp_thms)
      qed (use st3 in simp_all)
    qed
    then show "wp b (whenever late (timer_release c A)) ?K s2"
      unfolding wp_whenever using kill [OF s2] by simp
  qed
  then have running: "wp b (block [bnd (since_break A (WAIT_TIME c)) (\<lambda>late. whenever late (timer_release c A)), ?kill])
      (stays UNIV s) s1"
    by (subst wp_block(2), unfold wp_block_last)
  have "stays UNIV s (Ret ()) s1" using ready ok st by (simp add: stays_def)
  then show ?thesis
    unfolding timer_body_def
    by (subst wp_bnd, unfold wp_get at_seq_fun wp_if wp_whenever)
       (intro if_intro running wp_late_stop [OF ready ok st])
qed

lemma wp_timer:
  assumes free: "\<not> held s process_lock" and ready: "ready s" and ok: "store_ok s" and unfound: "\<not> STATUS_FOUND s"
    and prompt: "prompt b A"
  shows "wp b (timer c A) (event_post s) s"
  unfolding timer_split
proof (rule wp_enter [OF free], subst wp_block, rule wp_mono [OF wp_timer_body [OF _ _ steady_refl prompt]])
  show "ready (locked s)" "store_ok (locked s)" using ready ok by simp_all
next
  fix r :: "unit outcome" and s2
  assume st: "stays UNIV (locked s) r s2"
  show "at_seq (\<lambda>_. wp b (block [release process_lock,
      bnd (get STATUS_FOUND) (\<lambda>found. whenever found (block
        [out c ''####### STATUS: MATCH FOUND #######'', terminate c A])),
      modify (\<lambda>s. s\<lparr>timers := Suc (timers s)\<rparr>)]) (event_post s)) (event_post s) r s2"
  proof (cases "r = Ret ()")
    case True
    have "h(process_lock := False) = held s" if "h = (held s)(process_lock := True)" for h
      using free that by (auto simp: fun_upd_def)
    then have "event_post s (Ret ()) (s2\<lparr>held := (held s2)(process_lock := False), timers := Suc (timers s2)\<rparr>)"
      using st True by (auto simp: event_post_def stays_def steady_def store_ok_def ready_def)
    moreover have "\<not> STATUS_FOUND s2" using st unfound by (simp add: stays_def steady_def)
    ultimately show ?thesis unfolding True by (simp add: wp_simps)
  next
    case False
    with event_post_stays [OF st] show ?thesis by (cases r) auto
  qed
qed

section \<open>Initialisation\<close>

text \<open>The state before any event: nothing stored, all locks free, the output file open.\<close>

definition blank :: "'w tstate \<Rightarrow> bool" where
  "blank s \<longleftrightarrow> ready s \<and> OBJ_ARR s = [] \<and> \<not> STATUS_FOUND s \<and> \<not> held s process_lock"

definition between :: "'w tstate \<Rightarrow> bool" where
  "between s \<longleftrightarrow> ready s \<and> store_ok s \<and> \<not> STATUS_FOUND s \<and> \<not> held s process_lock"

definition on_ret :: "('a \<Rightarrow> 's \<Rightarrow> bool) \<Rightarrow> 'a outcome \<Rightarrow> 's \<Rightarrow> bool" where
  "on_ret P r s \<longleftrightarrow> (\<forall>x. r = Ret x \<longrightarrow> P x s)"

text \<open>A statement that returns to a blank state if it returns at all.\<close>

definition blanks :: "('w tstate, 'a) prog \<Rightarrow> bool" where
  "blanks m \<longleftrightarrow> (\<forall>s. blank s \<longrightarrow> wp True m (on_ret (\<lambda>_. blank)) s)"

lemma on_ret_simps [simp]:
  "on_ret P (Ret x) = P x" "on_ret P (Raise e) = (\<lambda>_. True)" "on_ret P Spin = (\<lambda>_. True)" "on_ret P Block = (\<lambda>_. True)"
  "on_ret P (halted c) = (\<lambda>_. True)"
  by (rule ext, simp add: on_ret_def)+

lemma noise_True [simp]: "noise (\<lambda>_. True) s"
  by (simp add: noise_def)

lemma blank_alike: "blank s \<Longrightarrow> alike s s' \<Longrightarrow> blank s'"
  by (simp add: blank_def alike_def ready_def)

lemma wp_on_ret_bnd:
  assumes "wp b m (on_ret P) s" and "\<And>x s'. P x s' \<Longrightarrow> wp b (k x) (on_ret P') s'"
  shows "wp b (bnd m k) (on_ret P') s"
proof -
  have "at_seq (\<lambda>x. wp b (k x) (on_ret P')) (on_ret P') r s'" if "on_ret P r s'" for r s'
    using that assms(2) by (cases r) simp_all
  with assms(1) show ?thesis unfolding wp_bnd by (rule wp_mono)
qed

lemma blanks_bnd: "blanks m \<Longrightarrow> (\<And>x. blanks (k x)) \<Longrightarrow> blanks (bnd m k)"
  unfolding blanks_def by (intro allI impI, rule wp_on_ret_bnd [where P = "\<lambda>_. blank"]) auto

lemma blanks_ret: "blanks (ret x)"
  by (simp add: blanks_def wp_simps)

lemma blanks_block: "list_all blanks ms \<Longrightarrow> blanks (block ms)"
  by (induction ms) (simp_all add: blanks_ret blanks_bnd)

lemma blanks_quiet: "quiet True m \<Longrightarrow> blanks m"
  unfolding blanks_def by (intro allI impI wp_quiet) (auto simp: blank_def alike_def ready_def)

lemma blanks_throw: "blanks (throw e)"
  by (simp add: blanks_def wp_simps)

lemma blanks_query: "blanks (get f)" "blanks (ask g)" "blanks (indexed xs i)" "blanks (from_option e r)"
  by (auto simp: blanks_def wp_simps split: option.splits)

lemma blanks_act: "blanks (act f)"
  by (simp add: blanks_def wp_simps) (simp add: blank_def)

lemma blanks_terminate: "blanks (terminate c A)"
  unfolding blanks_def by (intro allI impI wp_terminate) (simp_all add: blank_def)

lemma blanks_modify:
  "(\<And>s. blank s \<Longrightarrow> blank (f s)) \<Longrightarrow> blanks (modify f)"
  by (simp add: blanks_def wp_simps)

lemma blanks_parse_line: "blanks (parse_line c A line)"
  unfolding parse_line_def
  by (auto intro!: blanks_bnd blanks_ret blanks_throw blanks_act blanks_modify blanks_terminate
      blanks_quiet [OF quiet_out] split: option.splits sum.splits simp: blank_def ready_def)

lemma blanks_parse_lines: "blanks (parse_lines c A ls fs)"
  by (induction ls arbitrary: fs) (auto intro!: blanks_ret blanks_bnd blanks_parse_line)

lemma blanks_update_timer: "blanks (update_timer A)"
  unfolding blanks_def
proof (intro allI impI wp_update_timer)
  fix s :: "'a tstate" and t
  assume s: "blank s"
  then show "ready s" by (simp add: blank_def)
  show "noise (on_ret (\<lambda>_. blank) (Ret ())) (s\<lparr>LAST_BREAK := t\<rparr>)"
    using s by (auto intro!: noiseI simp: blank_def alike_def ready_def)
qed

lemma between_timer: "blank s \<Longrightarrow> wp True (timer c A) (on_ret (\<lambda>_. between)) s"
  by (rule wp_mono [OF wp_timer]) (auto simp: blank_def store_ok_def event_post_def on_ret_def between_def)

lemma between_out: "between s \<Longrightarrow> wp True (out c m) (on_ret (\<lambda>_. between)) s"
  by (rule wp_out) (auto intro!: noiseI simp: between_def alike_def ready_def store_ok_def)

lemma wp_blank_bnd:
  "blanks m \<Longrightarrow> (\<And>x s'. blank s' \<Longrightarrow> wp True (k x) (on_ret P') s') \<Longrightarrow> blank s \<Longrightarrow> wp True (bnd m k) (on_ret P') s"
  by (rule wp_on_ret_bnd [where P = "\<lambda>_. blank"]) (auto simp: blanks_def)

lemma between_set_trigger:
  assumes "blank s"
  shows "wp True (set_trigger c A in_write in_read) (on_ret (\<lambda>_. between)) s"
proof -
  have last: "wp True (block [update_timer A, timer c A, out c m]) (on_ret (\<lambda>_. between)) s'" if "blank s'" for m s'
    by (subst block.simps(2), rule wp_blank_bnd [OF blanks_update_timer _ that],
        subst block.simps(2), rule wp_on_ret_bnd [OF between_timer], assumption)
       (simp only: wp_block_last between_out)
  show ?thesis
    unfolding set_trigger_def Let_def
    by (intro wp_blank_bnd blanks_bnd blanks_block blanks_query blanks_act last assms)
       (auto intro!: blanks_quiet [OF quiet_out] blanks_quiet [OF quiet_perform] blanks_modify blanks_bnd blanks_act
          blanks_block blanks_ret split: if_splits simp: blank_def ready_def)
qed

lemma between_init:
  assumes "lldb_init_module c A (init_state w) = Some (Ret (), s)"
  shows "between s"
proof -
  have after: "wp True (bnd (perform (HandleCommand A ''log enable -f log.txt lldb api'')) (\<lambda>_.
     bnd (bnd (ask (read_lines A (TSAN_REPORT_FILE c))) (from_option (IOError (TSAN_REPORT_FILE c)))) (\<lambda>lines.
     bnd (parse_lines c A lines []) (\<lambda>filenames.
     bnd (out c ''Read input done!'') (\<lambda>_.
     bnd (indexed filenames 0) (\<lambda>in_write.
     bnd (indexed filenames 1) (\<lambda>in_read.
     set_trigger c A in_write in_read)))))) ) (on_ret (\<lambda>_. between)) s'" if "blank s'" for s'
    using that
    by (intro wp_blank_bnd blanks_bnd blanks_query blanks_parse_lines blanks_quiet [OF quiet_out]
        blanks_quiet [OF quiet_perform] between_set_trigger)
  have "blank (init_state w\<lparr>OUTPUT_FD := OpenFile, written := []\<rparr>)"
    by (simp add: blank_def ready_def init_state_def)
  then have "wp True (lldb_init_module c A) (on_ret (\<lambda>_. between)) (init_state w)"
    unfolding lldb_init_module_def using after
    by (subst wp_bnd) (simp add: open_for_write_def wp_modify)
  from wpD [OF this assms] show ?thesis by simp
qed

section \<open>Runs\<close>

text \<open>LLDB calls one of the callbacks, the timer ticks, or the debuggee moves on its own.\<close>

datatype ('w, 'f) event = ReadHit 'f | WriteHit 'f | Tick | Environment 'w

fun run_event :: "config \<Rightarrow> ('w, 't, 'f) lldb_api \<Rightarrow> ('w, 'f) event \<Rightarrow> ('w tstate, unit) prog" where
  "run_event c A (ReadHit frame) = read_callback c A frame"
| "run_event c A (WriteHit frame) = write_callback c A frame"
| "run_event c A Tick = timer c A"
| "run_event c A (Environment w) = modify (\<lambda>s. s\<lparr>world := w\<rparr>)"

inductive run :: "config \<Rightarrow> ('w, 't, 'f) lldb_api \<Rightarrow> 'w tstate \<Rightarrow> bool" for c A where
  run_start: "lldb_init_module c A (init_state w) = Some (Ret (), s) \<Longrightarrow> run c A s"
| run_step: "run c A s \<Longrightarrow> run_event c A e s = Some (r, s') \<Longrightarrow> run c A s'"

text \<open>Where a run can be: between two events, or with the process lock held for good.\<close>

definition run_ok :: "'w tstate \<Rightarrow> bool" where
  "run_ok s \<longleftrightarrow> store_ok s \<and> \<not> STATUS_FOUND s \<and> (held s process_lock \<or> ready s)"

text \<open>Every event first takes the process lock.\<close>

lemma stuck_event:
  "held s process_lock \<Longrightarrow> run_event c A e s = Some (r, s') \<Longrightarrow>
     (\<exists>w. e = Environment w \<and> s' = s\<lparr>world := w\<rparr>) \<or> r = Block \<and> s' = s"
  by (cases e) (auto simp: read_callback_def write_callback_def timer_split acquire_def bnd_def modify_def)

lemma wp_run_event:
  assumes s: "between s" and prompt: "prompt b A" and ids: "distinct_ids A"
  shows "wp b (run_event c A e) (event_post s) s"
proof (cases e)
  case (Environment w)
  with s show ?thesis
    by (simp add: wp_simps event_post_def between_def store_ok_def)
qed (use s in \<open>auto simp: between_def intro!: wp_read_callback wp_write_callback wp_timer prompt ids\<close>)

lemma run_ok_event:
  assumes s: "run_ok s" and run: "run_event c A e s = Some (r, s')" and ids: "distinct_ids A"
  shows "run_ok s'"
proof (cases "held s process_lock")
  case True
  from stuck_event [OF this run] s True show ?thesis
    by (auto simp: run_ok_def store_ok_def)
next
  case False
  with s have "between s" by (simp add: run_ok_def between_def)
  from wpD [OF wp_run_event [OF this prompt_partial(1) ids] run] s show ?thesis
    by (auto simp: run_ok_def event_post_def split: if_splits)
qed

lemma run_invariant: "run c A s \<Longrightarrow> distinct_ids A \<Longrightarrow> run_ok s"
proof (induction rule: run.induct)
  case (run_start w s)
  from between_init [OF run_start(1)] show ?case by (simp add: run_ok_def between_def)
next
  case (run_step s e r s')
  then show ?case by (blast intro: run_ok_event)
qed

end
