(* ===== verification/ExampleDebugger.thy ===== *)
theory ExampleDebugger
  imports TriggerRuns
begin

text \<open>
  A small concrete debugger: threads are numbers, a frame is the number of its thread, every operation
  succeeds. The hypotheses on the interface hold for it, so the properties have closed instances.
\<close>

record sim =
  sim_threads :: "nat list"
  sim_bp :: "nat list"
  sim_susp :: "nat list"
  sim_stopped :: bool
  sim_clock :: int

definition sim_lines :: "string list" where
  "sim_lines = [''f (a.c:10)'' @ [nl], ''g (a.c:20)'' @ [nl]]"

definition sim_api :: "(sim, nat, nat) lldb_api" where
  "sim_api = \<lparr>
     ProcessThreads = (\<lambda>w. remdups (sim_threads w)),
     IsValid = (\<lambda>w. True),
     is_stopped = sim_stopped,
     Stop = (\<lambda>w. (True, w\<lparr>sim_stopped := True\<rparr>)),
     Continue = (\<lambda>w. (True, w\<lparr>sim_stopped := False\<rparr>)),
     GetThreadID = (\<lambda>t. t),
     GetThreadByID = (\<lambda>n w. n),
     StopReasonBreakpoint = (\<lambda>t w. t \<in> set (sim_bp w)),
     IsSuspended = (\<lambda>t w. t \<in> set (sim_susp w)),
     Suspend = (\<lambda>t w. (True, w\<lparr>sim_susp := t # sim_susp w\<rparr>)),
     Resume = (\<lambda>t w. (True, w\<lparr>sim_susp := filter (\<lambda>u. u \<noteq> t) (sim_susp w)\<rparr>)),
     GetFrameAtIndex0 = (\<lambda>t w. t),
     GetSelectedFrame = (\<lambda>t w. t),
     GetThread = (\<lambda>f. f),
     FrameIsValid = (\<lambda>f w. True),
     FrameLine = (\<lambda>f w. if f = 1 then 10 else 20),
     GetValueForVariablePath = (\<lambda>f tok w. if tok = ''x'' then Address ''0x10'' else No_value),
     FileSpecIsValid = (\<lambda>f. True),
     DisplaySourceLines = (\<lambda>f l w. if l = 10 then ''x = 1;'' @ [nl] else ''y = x;'' @ [nl]),
     BreakpointCreateByLocation = (\<lambda>f l w. (nat l, w)),
     SetScriptCallbackFunction = (\<lambda>n f w. w),
     SetAsync = (\<lambda>b w. w),
     HandleCommand = (\<lambda>m w. w),
     SBDebugger_Terminate = (\<lambda>w. w),
     time_time = (\<lambda>w. (sim_clock w, w\<lparr>sim_clock := sim_clock w + 1\<rparr>)),
     time_sleep = (\<lambda>w. w),
     str_time = (\<lambda>t. ''t''),
     randrange = (\<lambda>n w. (0, w)),
     read_lines = (\<lambda>f w. Some sim_lines),
     pipe_output = (\<lambda>p q w. (Inr (if last q = ''10p'' then ''x = 1;'' @ [nl] else ''y = x;'' @ [nl]), w))\<rparr>"

definition sim_world :: sim where
  "sim_world = \<lparr>sim_threads = [1, 2], sim_bp = [1], sim_susp = [], sim_stopped = True, sim_clock = 0\<rparr>"

lemma sim_distinct: "distinct_ids sim_api"
  by (simp add: distinct_ids_def sim_api_def)

lemma tries_now: "fst (op w) \<Longrightarrow> \<exists>n. tries n op wait w"
  by (rule exI [of _ 0]) simp

lemma sim_prompt: "prompt b sim_api"
  by (auto simp: prompt_def soon_def sim_api_def intro!: tries_now)

lemma sim_random: "random_ok sim_api"
  by (simp add: random_ok_def sim_api_def)

text \<open>The state between two events with one write recorded, thread 1 at address \<open>0x10\<close>.\<close>

definition sim_state :: "sim tstate" where
  "sim_state = (init_state sim_world)\<lparr>OUTPUT_FD := OpenFile, RUNNING := True,
     OBJ_ARR := [\<lparr>addrs_of = [''0x10''], kind_of = ''W'', tid_of = 1\<rparr>],
     bp_source := [''x = 1;'' @ [nl], ''y = x;'' @ [nl]], bp_location := [[''a.c'', ''10''], [''a.c'', ''20'']]\<rparr>"

lemma sim_state_between: "between sim_state"
  by (simp add: between_def sim_state_def init_state_def ready_def store_ok_def entries_ok_def)

text \<open>Initialisation, then a hit of the write breakpoint by thread 1.\<close>

definition returned :: "('a outcome \<times> 's) option \<Rightarrow> 's option" where
  "returned r = (case r of Some (Ret _, s) \<Rightarrow> Some s | _ \<Rightarrow> None)"

definition sim_run :: "sim tstate option" where
  "sim_run = (case returned (lldb_init_module trigger_config sim_api (init_state sim_world)) of
     None \<Rightarrow> None | Some s \<Rightarrow> returned (run_event trigger_config sim_api (WriteHit 1) s))"

lemma sim_run_some: "(case sim_run of Some s \<Rightarrow> OBJ_ARR s = [\<lparr>addrs_of = [''0x10''], kind_of = ''W'', tid_of = 1\<rparr>]
     \<and> \<not> held s process_lock | None \<Rightarrow> False)"
  by code_simp

lemma sim_run_reached:
  obtains s where "sim_run = Some s" "run trigger_config sim_api s"
    "OBJ_ARR s = [\<lparr>addrs_of = [''0x10''], kind_of = ''W'', tid_of = 1\<rparr>]" "\<not> held s process_lock"
proof -
  obtain s where s: "sim_run = Some s" using sim_run_some by (cases sim_run) simp_all
  have objs: "OBJ_ARR s = [\<lparr>addrs_of = [''0x10''], kind_of = ''W'', tid_of = 1\<rparr>] \<and> \<not> held s process_lock"
    using sim_run_some unfolding s option.case .
  from s obtain s0 where "lldb_init_module trigger_config sim_api (init_state sim_world) = Some (Ret (), s0)"
    "run_event trigger_config sim_api (WriteHit 1) s0 = Some (Ret (), s)"
    unfolding sim_run_def returned_def by (auto split: option.splits prod.splits outcome.splits)
  then have "run trigger_config sim_api s" by (blast intro: run.intros)
  from that [OF s this] objs show ?thesis by blast
qed

lemma sim_run_places: "(case sim_run of Some s \<Rightarrow> bp_source s = [''x = 1;'' @ [nl], ''y = x;'' @ [nl]]
     \<and> bp_location s = [[''a.c'', ''10''], [''a.c'', ''20'']] | None \<Rightarrow> False)"
  by code_simp

text \<open>Then thread 2 reaches the read of the same address.\<close>

definition sim_race :: "(unit outcome \<times> sim tstate) option" where
  "sim_race = (case sim_run of None \<Rightarrow> None
     | Some s \<Rightarrow> run_event trigger_config sim_api (ReadHit 2) (s\<lparr>world := sim_world\<lparr>sim_bp := [1, 2]\<rparr>\<rparr>))"

lemma sim_race_spins: "(case sim_race of Some (Spin, s) \<Rightarrow> True | _ \<Rightarrow> False)"
  by code_simp

lemma sim_race_reached:
  obtains s s' where "run trigger_config sim_api s" "\<not> held s process_lock"
    "run_event trigger_config sim_api (ReadHit 2) s = Some (Spin, s')"
proof -
  obtain s where s: "sim_run = Some s" "run trigger_config sim_api s" "\<not> held s process_lock"
    by (rule sim_run_reached)
  let ?s = "s\<lparr>world := sim_world\<lparr>sim_bp := [1, 2]\<rparr>\<rparr>"
  have "run_event trigger_config sim_api (Environment (sim_world\<lparr>sim_bp := [1, 2]\<rparr>)) s = Some (Ret (), ?s)"
    by (simp add: modify_def)
  with s(2) have "run trigger_config sim_api ?s" by (rule run.run_step)
  moreover obtain s' where "sim_race = Some (Spin, s')"
    using sim_race_spins by (auto split: option.splits outcome.splits)
  then have "run_event trigger_config sim_api (ReadHit 2) ?s = Some (Spin, s')"
    unfolding sim_race_def s(1) option.case .
  moreover have "\<not> held ?s process_lock" using s(3) by simp
  ultimately show ?thesis using that by blast
qed

end
