(* ===== verification/TriggerTypes.thy ===== *)
theory TriggerTypes
  imports TriggerRuns
begin

text \<open>
  The types the trigger script never declares: the two breakpoint locations have a file and a number, there
  is a source line for each, and every entry of the store has a kind. \<open>lldb_init_module\<close> either fails or establishes
  this, every event keeps it, and under it no event can raise: a statement returns or halts the session.
\<close>

section \<open>Parts of the state that no event changes while it has the lock\<close>

definition untouched :: "('w tstate \<Rightarrow> 'v) \<Rightarrow> bool" where
  "untouched f \<longleftrightarrow> (\<forall>s w ws b objs t fd. f (s\<lparr>world := w\<rparr>) = f s \<and> f (s\<lparr>written := ws\<rparr>) = f s \<and> f (s\<lparr>printed := ws\<rparr>) = f s
     \<and> f (s\<lparr>RUNNING := b\<rparr>) = f s \<and> f (s\<lparr>OBJ_ARR := objs\<rparr>) = f s \<and> f (s\<lparr>LAST_BREAK := t\<rparr>) = f s
     \<and> f (s\<lparr>held := (held s)(print_lock := b)\<rparr>) = f s \<and> f (s\<lparr>held := (held s)(timer_lock := b)\<rparr>) = f s \<and> f (s\<lparr>OUTPUT_FD := fd\<rparr>) = f s \<and> (\<forall>n. f (s\<lparr>timers := n\<rparr>) = f s))"

lemma untouched_fields: "untouched bp_source" "untouched bp_location" "untouched STATUS_FOUND"
    "untouched (\<lambda>s. held s process_lock)"
  by (simp_all add: untouched_def)

lemma keeps_basic [keeps_intros]:
  assumes "untouched f"
  shows "keeps f (ask g)" "keeps f (act h)" "keeps f (perform p)" "keeps f (acquire print_lock)"
    "keeps f (release print_lock)" "keeps f (acquire timer_lock)" "keeps f (release timer_lock)" "keeps f (py_print m)" "keeps f (fd_write m)" "keeps f fd_close"
  using assms
  by (auto simp: untouched_def keeps_def ask_def get_def act_def call_def perform_def modify_def acquire_def release_def
      py_print_def fd_write_def fd_close_def split: prod.splits if_splits fd_state.splits)

lemma keeps_lookup [keeps_intros]: "keeps f (indexed xs i)" "keeps f (from_option e r)"
  by (auto simp: indexed_def from_option_def intro: keeps_intros split: option.split)

lemma keeps_assign [keeps_intros]:
  assumes "untouched f"
  shows "keeps f (modify (\<lambda>s. s\<lparr>RUNNING := b\<rparr>))" "keeps f (modify (\<lambda>s. s\<lparr>LAST_BREAK := t\<rparr>))"
    "keeps f (modify (\<lambda>s. s\<lparr>OBJ_ARR := g s\<rparr>))" "keeps f (modify (\<lambda>s. s\<lparr>timers := n s\<rparr>))"
  using assms by (auto simp: untouched_def intro: keeps_modify)

lemma keeps_out [keeps_intros]: "untouched f \<Longrightarrow> keeps f (out c m)"
  unfolding out_def by (intro keeps_intros)

lemma keeps_terminate [keeps_intros]: "untouched f \<Longrightarrow> keeps f (terminate c A)"
  unfolding terminate_def by (intro keeps_intros)

lemma keeps_update_timer [keeps_intros]: "untouched f \<Longrightarrow> keeps f (update_timer A)"
  unfolding update_timer_def by (intro keeps_intros)

lemma keeps_retry [keeps_intros]:
  assumes "untouched f"
  shows "keeps f (retry_error c A op m)" "keeps f (retry_call c A op m)"
  unfolding retry_error_def retry_call_def by (intro keeps_intros assms)+

lemma keeps_process [keeps_intros]:
  assumes "untouched f"
  shows "keeps f (stop_process c A)" "keeps f (continue_process c A)" "keeps f (resume_threads c A S)"
    "keeps f (all_bp_hit A)"
  unfolding stop_process_def continue_process_def resume_threads_def all_bp_hit_def by (intro keeps_intros assms)+

lemma keeps_release_bp [keeps_intros]: "untouched f \<Longrightarrow> keeps f (release_bp c A)"
  unfolding release_bp_def by (intro keeps_intros)

lemma keeps_get_addr [keeps_intros]: "untouched f \<Longrightarrow> keeps f (get_addr c A frame src)"
proof -
  assume f: "untouched f"
  have "keeps f (token_addrs A frame ts addrs)" for ts addrs
    using f by (induction ts arbitrary: addrs) (auto intro!: keeps_intros split: var_value.split)
  with f show ?thesis unfolding get_addr_def Let_def by (intro keeps_intros)
qed

lemma keeps_check [keeps_intros]: "untouched f \<Longrightarrow> keeps f (breakpoint_match_check c A as lt ID)"
  unfolding breakpoint_match_check_def match_def Let_def by (intro keeps_intros)

lemma keeps_handle_thread [keeps_intros]: "untouched f \<Longrightarrow> keeps f (handle_thread c A fo thd)"
  unfolding handle_thread_def location_line_def source_line_def by (intro keeps_intros)

lemma keeps_untracked [keeps_intros]: "untouched f \<Longrightarrow> keeps f (untracked_breakpoint_check c A)"
  unfolding untracked_breakpoint_check_def Let_def by (intro keeps_intros)

lemma keeps_liveness [keeps_intros]:
  assumes "untouched f"
  shows "keeps f (thread_liveness_check c ID)" "keeps f (delete_indices ns)"
  unfolding thread_liveness_check_def delete_indices_def by (intro keeps_intros assms)+

lemma keeps_timer_body [keeps_intros]: "untouched f \<Longrightarrow> keeps f (timer_body c A)"
  unfolding timer_body_def since_break_def timer_release_def by (intro keeps_intros)

section \<open>Types\<close>

definition location_ok :: "string list \<Rightarrow> bool" where
  "location_ok tokens \<longleftrightarrow> 2 \<le> length tokens \<and> py_int (tokens ! 1) \<noteq> None"

definition kinds_ok :: "watch list \<Rightarrow> bool" where
  "kinds_ok objs \<longleftrightarrow> list_all (\<lambda>x. kind_of x \<in> {''W'', ''R''}) objs"

definition typed :: "'w tstate \<Rightarrow> bool" where
  "typed s \<longleftrightarrow> 2 \<le> length (bp_source s) \<and> (\<exists>l0 l1. bp_location s = [l0, l1] \<and> location_ok l0 \<and> location_ok l1)
     \<and> kinds_ok (OBJ_ARR s)"

lemma typed_alike: "typed s \<Longrightarrow> alike s s' \<Longrightarrow> typed s'"
  by (simp add: typed_def alike_def)

lemma typed_upd [simp]:
  "typed (s\<lparr>world := w\<rparr>) = typed s" "typed (s\<lparr>LAST_BREAK := t\<rparr>) = typed s" "typed (s\<lparr>RUNNING := r\<rparr>) = typed s"
  "typed (s\<lparr>OUTPUT_FD := fd\<rparr>) = typed s" "typed (s\<lparr>held := h\<rparr>) = typed s" "typed (s\<lparr>timers := n\<rparr>) = typed s"
  by (simp_all add: typed_def)

lemma typed_objs: "typed s \<Longrightarrow> kinds_ok objs \<Longrightarrow> typed (s\<lparr>OBJ_ARR := objs\<rparr>)"
  by (simp add: typed_def)

lemma kinds_subset: "kinds_ok objs \<Longrightarrow> set objs' \<subseteq> set objs \<Longrightarrow> kinds_ok objs'"
  by (auto simp: kinds_ok_def list_all_iff)

lemma kinds_del: "kinds_ok objs \<Longrightarrow> kinds_ok (del_at i objs)"
  by (erule kinds_subset) (rule set_del_at)

lemma kinds_entry: "kinds_ok objs \<Longrightarrow> kinds_ok (objs @ [entry_for as lt ID])"
  by (simp add: kinds_ok_def entry_for_def)

lemma typed_kinds: "typed s \<Longrightarrow> kinds_ok (OBJ_ARR s)"
  by (simp add: typed_def)

text \<open>A statement that goes well: from a typed state it returns to one, or halts the session.\<close>

definition well :: "config \<Rightarrow> 'w tstate \<Rightarrow> 'a outcome \<Rightarrow> 'w tstate \<Rightarrow> bool" where
  "well c s r s' \<longleftrightarrow> typed s' \<and> held s' = held s \<and> (case r of Ret _ \<Rightarrow> ready s' | r \<Rightarrow> r = halted c)"

definition sound :: "config \<Rightarrow> ('w tstate, 'a) prog \<Rightarrow> bool" where
  "sound c m \<longleftrightarrow> (\<forall>s. ready s \<longrightarrow> typed s \<longrightarrow> wp True m (well c s) s)"

named_theorems sound_intros

lemma soundI: "(\<And>s. ready s \<Longrightarrow> typed s \<Longrightarrow> wp True m (well c s) s) \<Longrightarrow> sound c m"
  by (simp add: sound_def)

lemma soundD: "sound c m \<Longrightarrow> ready s \<Longrightarrow> typed s \<Longrightarrow> wp True m (well c s) s"
  by (simp add: sound_def)

lemma well_Ret [simp]: "well c s (Ret x) s' \<longleftrightarrow> typed s' \<and> held s' = held s \<and> ready s'"
  by (simp add: well_def)

lemma well_halted [simp]: "well c s (halted c) s' \<longleftrightarrow> typed s' \<and> held s' = held s"
  by (simp add: well_def halted_def)

lemma well_trans: "well c s1 r s2 \<Longrightarrow> held s1 = held s \<Longrightarrow> well c s r s2"
  by (simp add: well_def)

lemma wp_well_bnd:
  fixes m :: "('w tstate, 'x) prog"
  assumes "wp True m (well c s) s1" and "\<And>x s2. typed s2 \<Longrightarrow> ready s2 \<Longrightarrow> held s2 = held s \<Longrightarrow> wp True (k x) (well c s) s2"
  shows "wp True (bnd m k) (well c s) s1"
  unfolding wp_bnd
proof (rule wp_mono [OF assms(1)])
  fix r :: "'x outcome" and s2
  assume w: "well c s r s2"
  show "at_seq (\<lambda>x. wp True (k x) (well c s)) (well c s) r s2"
  proof (cases r)
    case (Ret x)
    with w assms(2) show ?thesis by simp
  qed (use w in \<open>auto simp: well_def halted_def split: if_splits\<close>)
qed

lemma sound_well: "sound c m \<Longrightarrow> ready s1 \<Longrightarrow> typed s1 \<Longrightarrow> held s1 = held s \<Longrightarrow> wp True m (well c s) s1"
  by (rule wp_mono [OF soundD]) (auto intro: well_trans)

lemma sound_bnd [sound_intros]: "sound c m \<Longrightarrow> (\<And>x. sound c (k x)) \<Longrightarrow> sound c (bnd m k)"
  by (rule soundI, rule wp_well_bnd) (auto intro: soundD sound_well)

lemma sound_ret [sound_intros]: "sound c (ret x)"
  by (simp add: sound_def wp_simps)

lemma sound_query [sound_intros]: "sound c (get f)" "sound c (ask g)" "sound c (act h)" "sound c (perform p)"
  by (simp_all add: sound_def wp_simps)

lemma sound_if [sound_intros]: "sound c m \<Longrightarrow> sound c m' \<Longrightarrow> sound c (if b then m else m')"
  by simp

lemma sound_whenever [sound_intros]: "sound c m \<Longrightarrow> sound c (whenever b m)"
  by (simp add: whenever_def sound_ret)

lemma sound_block [sound_intros]:
  "sound c (block [])" "sound c m \<Longrightarrow> sound c (block ms) \<Longrightarrow> sound c (block (m # ms))"
  by (simp_all add: sound_intros)

lemma sound_for_each [sound_intros]: "(\<And>x. sound c (body x)) \<Longrightarrow> sound c (for_each xs body)"
  by (induction xs) (simp_all add: sound_intros)

lemma sound_quiet: "quiet True m \<Longrightarrow> sound c m"
  by (rule soundI, erule quietD, assumption, rule noiseI)
     (auto intro: typed_alike ready_alike simp: alike_def)

lemmas sound_quiets [sound_intros] = quiet_out [THEN sound_quiet] quiet_stop [OF prompt_partial(1), THEN sound_quiet]
  quiet_continue [OF prompt_partial(1), THEN sound_quiet] quiet_suspend [OF prompt_partial(1), THEN sound_quiet]

lemma sound_running [sound_intros]: "sound c (modify (\<lambda>s. s\<lparr>RUNNING := b\<rparr>))"
  by (simp add: sound_def wp_simps)

lemma noise_well: "(case r of Ret _ \<Rightarrow> ready s1 | r \<Rightarrow> r = halted c) \<Longrightarrow> typed s1 \<Longrightarrow> held s1 = held s \<Longrightarrow> noise (well c s r) s1"
  by (rule noiseI) (auto simp: well_def alike_def ready_def typed_def split: outcome.splits)

section \<open>The functions\<close>

lemma sound_update_timer [sound_intros]: "sound c (update_timer A)"
  by (rule soundI, rule wp_update_timer) (auto intro!: noise_well simp: ready_def)

lemma sound_stop [sound_intros]: "sound c (block [out c m, terminate c A])"
  by (rule soundI, rule wp_message_terminate, assumption, rule noise_well) (simp_all add: halted_def)

lemma sound_since_break [sound_intros]: "sound c (since_break A limit)"
  unfolding since_break_def by (intro sound_intros)

lemma sound_release_bp [sound_intros]:
  assumes "random_ok A"
  shows "sound c (release_bp c A)"
proof (rule soundI, rule wp_release_bp)
  fix s :: "'a tstate"
  assume s: "ready s" "typed s"
  then show "noise (well c s (Ret False)) s" "ready s" by (auto intro: noise_well)
  show "noise (well c s (Ret True)) (s\<lparr>OBJ_ARR := del_at i (OBJ_ARR s)\<rparr>)" for i
    using s by (intro noise_well) (simp_all add: typed_objs kinds_del typed_kinds)
  assume "OBJ_ARR s \<noteq> []" "length (OBJ_ARR s) \<le> fst (randrange A (length (OBJ_ARR s)) (world s))"
  with assms show "noise (well c s (Raise IndexError)) s" 
    by (metis length_greater_0_conv not_less random_ok_def)
qed simp

lemma sound_get_addr: "sound c (get_addr c A frame src)"
  by (rule soundI, rule wp_get_addr) (auto intro!: noise_well simp: halted_def)

lemma sound_check:
  assumes "random_ok A" and "lt \<le> 1"
  shows "sound c (breakpoint_match_check c A as lt ID)"
proof (rule soundI, rule wp_breakpoint_match_check [OF _ prompt_partial(1) assms(2)])
  fix s :: "'a tstate"
  assume s: "ready s" "typed s"
  then show "ready s" by simp
  let ?arr = "entry_for as lt ID"
  have kinds: "kinds_ok (OBJ_ARR s @ [?arr])" using s(2) by (simp add: typed_kinds kinds_entry)
  have "same_source (bp_source s) \<noteq> None"
    using s(2) by (auto simp: typed_def same_source_def py_index_def split: option.splits)
  moreover assume "matches_in (bp_source s) (OBJ_ARR s) ?arr = None"
  ultimately show "noise (well c s (Raise IndexError)) s" by (simp add: matches_in_None)
next
  fix s :: "'a tstate"
  assume s: "ready s" "typed s"
  then have kinds: "kinds_ok (OBJ_ARR s @ [entry_for as lt ID])" by (simp add: typed_kinds kinds_entry)
  show "noise (well c s (halted c)) (s\<lparr>OUTPUT_FD := ClosedFile\<rparr>)"
    using s by (intro noise_well) (simp_all add: halted_def)
  fix t
  show "noise (well c s (Ret ())) (s\<lparr>LAST_BREAK := t, OBJ_ARR := OBJ_ARR s @ [entry_for as lt ID]\<rparr>)"
    using s kinds by (intro noise_well) (simp_all add: typed_objs)
  show "noise (well c s (Ret ())) (s\<lparr>LAST_BREAK := t, OBJ_ARR := del_at i (OBJ_ARR s @ [entry_for as lt ID])\<rparr>)" for i
    using s kinds_del [OF kinds] by (intro noise_well) (simp_all add: typed_objs)
  assume "\<not> random_ok A"
  with assms(1) show "noise (well c s (Raise IndexError)) (s\<lparr>LAST_BREAK := t, OBJ_ARR := OBJ_ARR s @ [entry_for as lt ID]\<rparr>)"
    by simp
qed

lemma sound_lookup:
  assumes "i \<in> {0, 1}"
  shows "sound c (location_line i)" and "sound c (source_line i)"
  using assms
  by (auto simp: sound_def typed_def location_line_def source_line_def wp_simps py_index_def location_ok_def
      split: option.splits if_splits)

lemma sound_handle_thread [sound_intros]:
  "random_ok A \<Longrightarrow> sound c (handle_thread c A fo thd)"
  unfolding handle_thread_def
  by (intro sound_intros sound_lookup sound_check sound_get_addr) simp_all

lemma sound_untracked [sound_intros]: "sound c (untracked_breakpoint_check c A)"
  unfolding untracked_breakpoint_check_def Let_def by (intro sound_intros)

lemma sound_timer_body: "random_ok A \<Longrightarrow> sound c (timer_body c A)"
  unfolding timer_body_def timer_release_def by (intro sound_intros)

section \<open>Events\<close>

text \<open>The end of a callback and of a tick: the last statements run with the lock free again.\<close>

definition ends_well :: "config \<Rightarrow> unit outcome \<Rightarrow> 'w tstate \<Rightarrow> bool" where
  "ends_well c r s' \<longleftrightarrow> typed s' \<and> (r = Ret () \<and> ready s' \<or> r = halted c)"

lemma well_ends: "well c s r s' \<Longrightarrow> ends_well c r s'"
  by (cases r) (auto simp: well_def ends_well_def)

lemma wp_ends_bnd:
  fixes m :: "('w tstate, 'x) prog"
  assumes "sound c m" and "ready s" and "typed s" and "\<And>x s2. typed s2 \<Longrightarrow> ready s2 \<Longrightarrow> wp True (k x) (ends_well c) s2"
  shows "wp True (bnd m k) (ends_well c) s"
  unfolding wp_bnd
proof (rule wp_mono [OF soundD [OF assms(1-3)]])
  fix r :: "'x outcome" and s2
  assume w: "well c s r s2"
  show "at_seq (\<lambda>x. wp True (k x) (ends_well c)) (ends_well c) r s2"
  proof (cases r)
    case (Ret x)
    with w assms(4) show ?thesis by simp
  qed (use w in \<open>auto simp: well_def ends_well_def halted_def split: if_splits\<close>)
qed

lemma wp_ends_block:
  assumes "sound c m" and "ready s" and "typed s" and "\<And>s2. typed s2 \<Longrightarrow> ready s2 \<Longrightarrow> wp True (block ms) (ends_well c) s2"
  shows "wp True (block (m # ms)) (ends_well c) s"
  unfolding block.simps by (rule wp_ends_bnd) (use assms in auto)

lemma ends_release:
  assumes "ready s" and "typed s" and "\<And>s2. typed s2 \<Longrightarrow> ready s2 \<Longrightarrow> wp True (block ms) (ends_well c) s2"
  shows "wp True (block (release process_lock # ms)) (ends_well c) s"
  using assms by (simp add: wp_simps ready_def)

lemma ends_now: "typed s \<Longrightarrow> ready s \<Longrightarrow> wp True (block []) (ends_well c) s"
  by (simp add: wp_simps ends_well_def)

lemma ends_untracked:
  assumes "random_ok A" and "ready s" and "typed s"
  shows "wp True (handle_untracked c A fo) (ends_well c) s"
  unfolding handle_untracked_def using assms
  by (intro wp_ends_bnd wp_ends_block ends_release ends_now sound_intros)

lemma ends_timer:
  assumes "random_ok A" and "\<not> held s process_lock" and "ready s" and "typed s"
  shows "wp True (timer c A) (ends_well c) s"
proof -
  have count: "sound c (modify (\<lambda>s. s\<lparr>timers := Suc (timers s)\<rparr>))"
    by (simp add: sound_def wp_simps ready_def)
  have locked: "ready (locked s)" "typed (locked s)" using assms by (simp_all add: locked_def ready_def)
  show ?thesis
    unfolding timer_split
  proof (rule wp_enter [OF assms(2)], rule wp_ends_block [OF sound_timer_body [OF assms(1)] locked(1,2)], rule ends_release)
    fix s2 :: "'a tstate"
    assume s2: "typed s2" "ready s2"
    have status: "sound c (bnd (get STATUS_FOUND) (\<lambda>found. whenever found (block
        [out c ''####### STATUS: MATCH FOUND #######'', terminate c A])))"
      by (intro sound_bnd sound_query sound_whenever sound_stop)
    show "wp True (block [bnd (get STATUS_FOUND) (\<lambda>found. whenever found (block
        [out c ''####### STATUS: MATCH FOUND #######'', terminate c A])), modify (\<lambda>s. s\<lparr>timers := Suc (timers s)\<rparr>)]) (ends_well c) s2"
      by (rule wp_ends_block [OF status s2(2,1)], rule wp_ends_block [OF count]) (simp_all add: ends_well_def)
  qed
qed

lemma ends_read:
  assumes "random_ok A" and "\<not> held s process_lock" and "ready s" and "typed s"
  shows "wp True (read_callback c A frame) (ends_well c) s"
proof -
  have last: "wp True (block [handle_untracked c A (GetFrameAtIndex0 A)]) (ends_well c) s2"
    if "typed s2" "ready s2" for s2 :: "'a tstate"
    unfolding wp_block_last by (rule ends_untracked [OF assms(1) that(2,1)])
  show ?thesis
    unfolding read_callback_def
    by (rule wp_enter [OF assms(2)], intro wp_ends_block sound_quiets sound_running last)
       (use assms in \<open>simp_all add: locked_def ready_def\<close>)
qed

lemma ends_write:
  assumes "random_ok A" and "\<not> held s process_lock" and "ready s" and "typed s" and "store_ok s"
  shows "wp True (write_callback c A frame) (ends_well c) s"
  unfolding write_callback_def
proof (rule wp_enter [OF assms(2)], rule wp_prologue [OF assms(3,5) prompt_partial(1)], unfold wp_assign)
  fix s2
  assume s2: "ready s2" "store_ok s2" "steady (locked s) s2" "OBJ_ARR s2 = OBJ_ARR s"
  let ?s2 = "s2\<lparr>RUNNING := False\<rparr>"
  let ?ID = "GetThreadID A (GetThread A frame)"
  have typed2: "typed ?s2" using assms(4) s2(3,4) by (simp add: typed_def steady_def)
  show "wp True (block [bnd (thread_liveness_check c ?ID) delete_indices,
      handle_untracked c A (GetSelectedFrame A)]) (ends_well c) ?s2"
    unfolding block.simps(2) wp_bnd wp_block_last
  proof (rule wp_liveness, simp add: s2(1), rule noiseI, unfold at_seq_fun)
    fix s3
    assume a: "alike ?s2 s3"
    then have objs: "OBJ_ARR ?s2 = OBJ_ARR s3" by (simp add: alike_def)
    let ?s3 = "s3\<lparr>OBJ_ARR := filter (\<lambda>x. tid_of x \<noteq> ?ID) (OBJ_ARR s3)\<rparr>"
    have typed3: "typed s3" by (rule typed_alike [OF typed2 a])
    have "ready s3" by (rule ready_alike [OF _ a]) (simp add: s2(1))
    moreover have "typed ?s3" using typed3 by (intro typed_objs) (auto intro: kinds_subset dest: typed_kinds)
    ultimately have "wp True (handle_untracked c A (GetSelectedFrame A)) (ends_well c) ?s3"
      using assms(1) by (intro ends_untracked) simp_all
    then show "wp True (delete_indices (indices_of ?ID (OBJ_ARR ?s2)))
        (at_seq (\<lambda>x. wp True (handle_untracked c A (GetSelectedFrame A)) (at_seq (\<lambda>_. wp True (block []) (ends_well c)) (ends_well c))) (ends_well c)) s3"
      unfolding objs
      using s2(2) a by (intro wp_delete_indices) (simp_all add: store_ok_def entries_ok_def alike_def wp_block_last flip: wp_bnd block.simps)
  qed
qed

section \<open>Initialisation\<close>

text \<open>While the report is read: a source line per file name, no location yet. Statements that leave both alone.\<close>

definition reading :: "nat \<Rightarrow> 'w tstate \<Rightarrow> bool" where
  "reading n s \<longleftrightarrow> blank s \<and> length (bp_source s) = n \<and> bp_location s = []"

definition located :: "string list list \<Rightarrow> 'w tstate \<Rightarrow> bool" where
  "located l s \<longleftrightarrow> blank s \<and> 2 \<le> length (bp_source s) \<and> bp_location s = l"

lemma keeps_pair: "untouched (\<lambda>s. (bp_source s, bp_location s))"
  by (simp add: untouched_def)

definition untroubled :: "('w tstate, 'a) prog \<Rightarrow> bool" where
  "untroubled m \<longleftrightarrow> blanks m \<and> keeps (\<lambda>s. (bp_source s, bp_location s)) m"

lemma wp_untroubled:
  fixes m :: "('w tstate, 'x) prog"
  assumes "untroubled m" and "blank s"
    and "\<And>x s'. blank s' \<Longrightarrow> bp_source s' = bp_source s \<Longrightarrow> bp_location s' = bp_location s \<Longrightarrow> wp True (k x) (on_ret P) s'"
  shows "wp True (bnd m k) (on_ret P) s"
proof (rule wp_on_ret_bnd)
  show "wp True m (on_ret (\<lambda>_ s'. blank s' \<and> bp_source s' = bp_source s \<and> bp_location s' = bp_location s)) s"
  proof (rule wpI)
    fix r s'
    assume m: "m s = Some (r, s')"
    have "on_ret (\<lambda>_. blank) r s'" using assms(1,2) m by (auto simp: untroubled_def blanks_def dest: wpD)
    moreover have "keeps (\<lambda>s. (bp_source s, bp_location s)) m" using assms(1) by (simp add: untroubled_def)
    from keepsD [OF this m] have "bp_source s' = bp_source s" "bp_location s' = bp_location s" by simp_all
    ultimately show "on_ret (\<lambda>_ s'. blank s' \<and> bp_source s' = bp_source s \<and> bp_location s' = bp_location s) r s'"
      by (simp add: on_ret_def)
  qed
qed (use assms(3) in blast)

lemma untroubled_bnd: "untroubled m \<Longrightarrow> (\<And>x. untroubled (k x)) \<Longrightarrow> untroubled (bnd m k)"
  by (simp add: untroubled_def blanks_bnd keeps_bnd)

lemma untroubled_basic: "untroubled (ret x)" "untroubled (throw e)" "untroubled (out c m)" "untroubled (perform p)" "untroubled (act h)" "untroubled (ask g)"
  "untroubled (indexed xs i)" "untroubled (from_option e r)" "untroubled (get f)" "untroubled (terminate c A)" "untroubled (update_timer A)"
  by (simp_all add: untroubled_def blanks_ret blanks_throw blanks_quiet [OF quiet_out] blanks_quiet [OF quiet_perform] blanks_act
      blanks_query blanks_terminate blanks_update_timer keeps_intros keeps_pair)

lemma untroubled_block: "list_all untroubled ms \<Longrightarrow> untroubled (block ms)"
  by (induction ms) (simp_all add: untroubled_basic untroubled_bnd)

lemma untroubled_if: "untroubled m \<Longrightarrow> untroubled m' \<Longrightarrow> untroubled (if b then m else m')"
  by simp

lemma untroubled_files:
  "untroubled (modify (\<lambda>s. s\<lparr>FILE_READ := f\<rparr>))" "untroubled (modify (\<lambda>s. s\<lparr>LINE_NUM_READ := n\<rparr>))"
  "untroubled (modify (\<lambda>s. s\<lparr>FILE_WRITE := f\<rparr>))" "untroubled (modify (\<lambda>s. s\<lparr>LINE_NUM_WRITE := n\<rparr>))"
  by (auto simp: untroubled_def intro!: blanks_modify keeps_modify simp: blank_def ready_def)

lemma reading_line:
  assumes "reading n s"
  shows "wp True (parse_line c A line) (on_ret (\<lambda>_. reading (Suc n))) s"
proof -
  have parse: "untroubled (case re_match regBreakpoint line of
            None \<Rightarrow> bnd (block [out c ''####### ERROR: FAIL TO PARSE INPUT #######'', terminate c A])
                      (\<lambda>_. throw (AttributeError ''group''))
          | Some bp \<Rightarrow> ret bp)"
    by (auto intro!: untroubled_bnd untroubled_block untroubled_basic split: option.split)
  have result: "untroubled (case r of Inl e \<Rightarrow> throw e | Inr output \<Rightarrow> ret output)" for r :: "exn + 'x"
    by (cases r) (simp_all add: untroubled_basic)
  show ?thesis
    unfolding parse_line_def
    by (rule wp_untroubled [OF parse], simp add: assms [unfolded reading_def], rule wp_untroubled [OF untroubled_basic(5)], assumption,
        rule wp_untroubled [OF result], assumption)
       (use assms in \<open>simp add: reading_def wp_simps blank_def ready_def\<close>)
qed

lemma reading_lines: "reading (length fs) s \<Longrightarrow>
  wp True (parse_lines c A ls fs) (on_ret (\<lambda>fs' s'. reading (length fs') s')) s"
proof (induction ls arbitrary: fs s)
  case (Cons line ls)
  show ?case
    unfolding parse_lines.simps
    by (rule wp_on_ret_bnd [OF reading_line [OF Cons.prems]], rule Cons.IH) simp
qed (simp add: wp_simps)

text \<open>The two line numbers are read with \<open>int\<close> before any breakpoint is set.\<close>

lemma wp_number:
  assumes "\<And>n. location_ok tokens \<Longrightarrow> wp True (k n) (on_ret P) s"
  shows "wp True (bnd (bnd (indexed tokens 1) (\<lambda>t. from_option (ValueError t) (py_int t))) k) (on_ret P) s"
  using assms by (auto simp: wp_simps py_index_def location_ok_def split: option.split)

lemma ends_last:
  assumes "ready s" and "typed s" and "\<not> held s process_lock" and random: "random_ok A"
  shows "wp True (block [update_timer A, timer c A, out c m]) (ends_well c) s"
  unfolding block.simps(2) [of "update_timer A"] wp_bnd
proof (rule wp_mono [OF soundD [OF sound_update_timer assms(1,2)]])
  fix r :: "unit outcome" and s1
  assume w: "well c s r s1"
  have last: "wp True (block [timer c A, out c m]) (ends_well c) s1" if "ready s1" "typed s1" "\<not> held s1 process_lock"
    unfolding block.simps(2) [of "timer c A"] wp_bnd
  proof (rule wp_mono [OF ends_timer [OF random that(3,1,2)]])
    fix r :: "unit outcome" and s2
    assume e: "ends_well c r s2"
    have "wp True (block [out c m]) (ends_well c) s2" if "ready s2" "typed s2"
      by (rule wp_ends_block [OF sound_quiets(1) that]) (rule ends_now)
    with e show "at_seq (\<lambda>_. wp True (block [out c m]) (ends_well c)) (ends_well c) r s2"
      by (auto simp: ends_well_def)
  qed
  from w last assms(3) show "at_seq (\<lambda>_. wp True (block [timer c A, out c m]) (ends_well c)) (ends_well c) r s1"
    by (cases r) (auto simp: well_def ends_well_def halted_def split: if_splits)
qed

lemma set_trigger_typed:
  assumes "reading n s" and "2 \<le> n" and random: "random_ok A"
  shows "wp True (set_trigger c A in_write in_read) (on_ret (\<lambda>_. typed)) s"
proof -
  define tw where "tw = py_split (CHR '':'') in_write"
  define tr where "tr = py_split (CHR '':'') in_read"
  have blank: "blank s" and src: "2 \<le> length (bp_source s)" and loc: "bp_location s = []"
    using assms(1,2) by (simp_all add: reading_def)
  have first: "wp True (block
       [out c ''Setting breakpoints...'', out c in_write, out c in_read, perform (SetAsync A True),
        modify (\<lambda>s. s\<lparr>bp_location := bp_location s @ [tw, tr]\<rparr>)]) (on_ret (\<lambda>_. located [tw, tr])) s"
    unfolding block.simps
    by (rule wp_untroubled [OF untroubled_basic(3) blank], rule wp_untroubled [OF untroubled_basic(3)], assumption,
        rule wp_untroubled [OF untroubled_basic(3)], assumption, rule wp_untroubled [OF untroubled_basic(4)], assumption)
       (use src loc in \<open>simp add: wp_simps located_def blank_def ready_def\<close>)
  have set: "untroubled (bnd (act (BreakpointCreateByLocation A f n)) (\<lambda>bp_read.
            block [perform (SetScriptCallbackFunction A bp_write ''trigger.write_callback''),
                   perform (SetScriptCallbackFunction A bp_read ''trigger.read_callback'')]))"
    "untroubled (block [out c m, perform (SetScriptCallbackFunction A bp_write ''trigger.write_callback'')])"
    "untroubled (bnd (get bp_source) (\<lambda>src. from_option IndexError (same_source src)))" for f n bp_write m
    by (intro untroubled_bnd untroubled_block untroubled_basic; simp add: untroubled_basic)+
  show ?thesis
    unfolding set_trigger_def Let_def tw_def [symmetric] tr_def [symmetric]
  proof (rule wp_on_ret_bnd [OF first])
    fix s1 :: "'a tstate"
    assume s1: "located [tw, tr] s1"
    then have s1': "blank s1" by (simp add: located_def)
    have last: "wp True (block [update_timer A, timer c A, out c m]) (on_ret (\<lambda>_. typed)) s2"
      if "blank s2" "bp_source s2 = bp_source s1" "bp_location s2 = bp_location s1" "location_ok tw" "location_ok tr" for s2 :: "'a tstate" and m
    proof (rule wp_mono [OF ends_last [OF _ _ _ random]])
      show "ready s2" "\<not> held s2 process_lock" using that(1) by (simp_all add: blank_def)
      show "typed s2" using that s1 by (simp add: typed_def located_def blank_def kinds_ok_def)
    qed (simp add: on_ret_def ends_well_def)
    show "wp True (bnd (indexed tr 0) (\<lambda>file_read.
     bnd (modify (\<lambda>s. s\<lparr>FILE_READ := file_read\<rparr>)) (\<lambda>_.
     bnd (bnd (indexed tr 1) (\<lambda>t. from_option (ValueError t) (py_int t))) (\<lambda>line_read.
     bnd (modify (\<lambda>s. s\<lparr>LINE_NUM_READ := line_read\<rparr>)) (\<lambda>_.
     bnd (indexed tw 0) (\<lambda>file_write.
     bnd (modify (\<lambda>s. s\<lparr>FILE_WRITE := file_write\<rparr>)) (\<lambda>_.
     bnd (bnd (indexed tw 1) (\<lambda>t. from_option (ValueError t) (py_int t))) (\<lambda>line_write.
     bnd (modify (\<lambda>s. s\<lparr>LINE_NUM_WRITE := line_write\<rparr>)) (\<lambda>_.
     bnd (act (BreakpointCreateByLocation A file_write line_write)) (\<lambda>bp_write.
     bnd (bnd (get bp_source) (\<lambda>src. from_option IndexError (same_source src))) (\<lambda>same.
     bnd (if \<not> same then
            bnd (act (BreakpointCreateByLocation A file_read line_read)) (\<lambda>bp_read.
            block [perform (SetScriptCallbackFunction A bp_write ''trigger.write_callback''),
                   perform (SetScriptCallbackFunction A bp_read ''trigger.read_callback'')])
          else block
            [out c ''####### WARN: READ & WRITE ARE THE SAME! #######'',
             perform (SetScriptCallbackFunction A bp_write ''trigger.write_callback'')]) (\<lambda>_.
     block [update_timer A, timer c A, out c ''Breakpoint initialization done!'']))))))))))))
      (on_ret (\<lambda>_. typed)) s1"
      by (rule wp_untroubled [OF untroubled_basic(7) s1'], rule wp_untroubled [OF untroubled_files(1)], assumption, rule wp_number,
          rule wp_untroubled [OF untroubled_files(2)], assumption, rule wp_untroubled [OF untroubled_basic(7)], assumption,
          rule wp_untroubled [OF untroubled_files(3)], assumption, rule wp_number, rule wp_untroubled [OF untroubled_files(4)], assumption,
          rule wp_untroubled [OF untroubled_basic(5)], assumption, rule wp_untroubled [OF set(3)], assumption,
          rule wp_untroubled [OF untroubled_if [OF set(1,2)]], assumption, rule last) simp_all
  qed
qed

lemma init_typed:
  assumes "lldb_init_module c A (init_state w) = Some (Ret (), s)" and "random_ok A"
  shows "typed s"
proof -
  have start: "reading 0 (init_state w\<lparr>OUTPUT_FD := OpenFile, written := []\<rparr>)"
    by (simp add: reading_def blank_def ready_def init_state_def)
  have two: "wp True (bnd (indexed fs 0) (\<lambda>in_write. bnd (indexed fs 1) (\<lambda>in_read. set_trigger c A in_write in_read)))
      (on_ret (\<lambda>_. typed)) s'" if s': "reading (length fs) s'" for fs and s' :: "'a tstate"
  proof (cases "2 \<le> length fs")
    case True
    from set_trigger_typed [OF s' True assms(2), of c] show ?thesis
      by (simp add: wp_simps py_index_def split: option.split)
  next
    case False
    then show ?thesis by (auto simp: wp_simps py_index_def split: option.split)
  qed
  have after: "wp True (bnd (bnd (ask (read_lines A (TSAN_REPORT_FILE c))) (from_option (IOError (TSAN_REPORT_FILE c)))) (\<lambda>lines.
     bnd (parse_lines c A lines []) (\<lambda>filenames.
     bnd (out c ''Read input done!'') (\<lambda>_.
     bnd (indexed filenames 0) (\<lambda>in_write.
     bnd (indexed filenames 1) (\<lambda>in_read.
     set_trigger c A in_write in_read)))))) (on_ret (\<lambda>_. typed)) s'" if s': "reading 0 s'" for s' :: "'a tstate"
  proof (rule wp_untroubled)
    show "untroubled (bnd (ask (read_lines A (TSAN_REPORT_FILE c))) (from_option (IOError (TSAN_REPORT_FILE c))))"
      by (intro untroubled_bnd untroubled_basic)
    fix ls and s1 :: "'a tstate"
    assume "blank s1" "bp_source s1 = bp_source s'" "bp_location s1 = bp_location s'"
    with s' have s1: "reading (length ([] :: string list)) s1" by (simp add: reading_def)
    show "wp True (bnd (parse_lines c A ls []) (\<lambda>filenames.
       bnd (out c ''Read input done!'') (\<lambda>_.
       bnd (indexed filenames 0) (\<lambda>in_write.
       bnd (indexed filenames 1) (\<lambda>in_read.
       set_trigger c A in_write in_read))))) (on_ret (\<lambda>_. typed)) s1"
      by (rule wp_on_ret_bnd [OF reading_lines [OF s1]], rule wp_untroubled [OF untroubled_basic(3)])
         (auto intro: two simp: reading_def)
  qed (use s' in \<open>simp add: reading_def\<close>)
  have "wp True (lldb_init_module c A) (on_ret (\<lambda>_. typed)) (init_state w)"
    unfolding lldb_init_module_def
    by (subst wp_bnd, unfold open_for_write_def wp_modify at_seq_fun, rule wp_untroubled [OF untroubled_basic(4)])
       (use start in \<open>auto intro: after simp: reading_def\<close>)
  from wpD [OF this assms(1)] show ?thesis by simp
qed

section \<open>Runs\<close>

lemma typed_event:
  assumes "between s" and "typed s" and "random_ok A"
  shows "wp True (run_event c A e) (ends_well c) s"
proof (cases e)
  case (Environment w)
  with assms show ?thesis by (simp add: wp_simps ends_well_def between_def)
qed (use assms in \<open>auto simp: between_def intro!: ends_read ends_write ends_timer\<close>)

lemma run_typed:
  assumes "run c A s" and "distinct_ids A" and "random_ok A"
  shows "typed s"
  using assms(1)
proof (induction rule: run.induct)
  case (run_start w s)
  from init_typed [OF run_start assms(3)] show ?case .
next
  case (run_step s e r s')
  have ok: "run_ok s" by (rule run_invariant [OF run_step(1) assms(2)])
  show ?case
  proof (cases "held s process_lock")
    case True
    from stuck_event [OF this run_step(2)] run_step(3) show ?thesis by auto
  next
    case False
    with ok have "between s" by (simp add: run_ok_def between_def)
    from wpD [OF typed_event [OF this run_step(3) assms(3)] run_step(2)] show ?thesis
      by (simp add: ends_well_def)
  qed
qed

end
