(* ===== verification/Interleaving.thy ===== *)
theory Interleaving
  imports Debugger
begin

text \<open>
  The threads of a trigger script, of either generation: LLDB calls the callbacks on its own threads and each tick of the timer is a thread of its own, so
  their statements interleave. A callback or a tick is a list of statements, and a step is one statement of one thread; a
  statement that blocks on a lock takes no step. The locale \<open>critical_section\<close> is what a script promises of its statements when
  it takes \<open>process_lock\<close> first and gives it back in the end, and what follows for every interleaving.
\<close>

section \<open>Interleavings\<close>

datatype 'f call = ReadCall 'f | WriteCall 'f | TimerCall

text \<open>
  What each thread still has to do, in the order the threads were started, and the globals. A thread that raises or
  spins does nothing any more; the debuggee moves on its own while nobody has the process lock.
\<close>

inductive interleaved ::
    "('w tstate \<Rightarrow> bool) \<Rightarrow> ('f call \<Rightarrow> ('w tstate, unit) prog list) \<Rightarrow> ('w tstate, unit) prog list list \<Rightarrow> 'w tstate \<Rightarrow> bool"
  for start code where
  threads_start: "start s \<Longrightarrow> interleaved start code [] s"
| threads_call: "interleaved start code ps s \<Longrightarrow> interleaved start code (ps @ [code e]) s"
| threads_step: "interleaved start code ps s \<Longrightarrow> i < length ps \<Longrightarrow> ps ! i = m # ms \<Longrightarrow> m s = Some (Ret (), s') \<Longrightarrow>
    interleaved start code (ps[i := ms]) s'"
| threads_end: "interleaved start code ps s \<Longrightarrow> i < length ps \<Longrightarrow> ps ! i = m # ms \<Longrightarrow> m s = Some (r, s') \<Longrightarrow>
    r \<noteq> Ret () \<Longrightarrow> r \<noteq> Block \<Longrightarrow> interleaved start code (ps[i := []]) s'"
| threads_environment: "interleaved start code ps s \<Longrightarrow> \<not> held s process_lock \<Longrightarrow> interleaved start code ps (s\<lparr>world := w\<rparr>)"

text \<open>A thread can move when its next statement ends and does not wait for a lock.\<close>

definition can_move :: "('w tstate, unit) prog list \<Rightarrow> 'w tstate \<Rightarrow> bool" where
  "can_move p s \<longleftrightarrow> (case p of [] \<Rightarrow> False | m # ms \<Rightarrow> (case m s of None \<Rightarrow> False | Some (r, s') \<Rightarrow> r \<noteq> Block))"

lemma can_move_simps [simp]: "\<not> can_move [] s" "can_move (m # ms) s \<longleftrightarrow> (\<exists>r s'. m s = Some (r, s') \<and> r \<noteq> Block)"
  by (auto simp: can_move_def split: option.splits)

lemma list_all_update: "list_all P xs \<Longrightarrow> P x \<Longrightarrow> list_all P (xs[i := x])"
  by (cases "i < length xs") (auto simp: list_all_length nth_list_update)

section \<open>A script with a critical section\<close>

text \<open>A thread that has not begun, or has only what follows the section left to do; a thread inside it.\<close>

definition waiting :: "('f call \<Rightarrow> ('w tstate, unit) prog list) \<Rightarrow> ('f call \<Rightarrow> ('w tstate, unit) prog list)
    \<Rightarrow> ('w tstate, unit) prog list \<Rightarrow> bool" where
  "waiting code later p \<longleftrightarrow> (\<exists>e. p = code e) \<or> (\<exists>e before. later e = before @ p)"

definition within :: "('f call \<Rightarrow> ('w tstate, unit) prog list) \<Rightarrow> ('f call \<Rightarrow> ('w tstate, unit) prog list)
    \<Rightarrow> ('w tstate, unit) prog list \<Rightarrow> bool" where
  "within body later p \<longleftrightarrow> (\<exists>e before todo. body e = before @ todo \<and> p = todo @ release process_lock # later e)"

lemma waiting_intros: "waiting code later (code e)" "waiting code later (later e)" "waiting code later []"
  unfolding waiting_def by (metis append_Nil append_Nil2)+

lemma waiting_rest: "later e = before @ m # ms \<Longrightarrow> waiting code later ms"
  unfolding waiting_def by (metis append_Cons append_Nil append_assoc)

lemma within_rest: "body e = before @ m # todo \<Longrightarrow> within body later (todo @ release process_lock # later e)"
  unfolding within_def by (metis append_Cons append_Nil append_assoc)

text \<open>
  A script is \<open>free\<close> when nobody has the lock, \<open>busy\<close> while somebody works with it, \<open>given_up\<close> when a thread
  ended without giving it back.
\<close>

locale critical_section =
  fixes start :: "'w tstate \<Rightarrow> bool"
    and code body later :: "'f call \<Rightarrow> ('w tstate, unit) prog list"
    and free busy given_up :: "'w tstate \<Rightarrow> bool"
  assumes code: "code e = acquire process_lock # body e @ release process_lock # later e"
    and start_free: "start s \<Longrightarrow> free s"
    and enter: "free s \<Longrightarrow> \<not> held s process_lock \<and> busy (s\<lparr>held := (held s)(process_lock := True)\<rparr>)"
    and leave: "busy s \<Longrightarrow> held s process_lock \<and> free (s\<lparr>held := (held s)(process_lock := False)\<rparr>)"
    and work: "m \<in> set (body e) \<Longrightarrow> busy s \<Longrightarrow>
      \<exists>r s'. m s = Some (r, s') \<and> r \<noteq> Block \<and> (if r = Ret () then busy s' else given_up s')"
    and later_keeps: "m \<in> set (later e) \<Longrightarrow> m s = Some (r, s') \<Longrightarrow>
      (free s \<longrightarrow> free s') \<and> (busy s \<longrightarrow> busy s') \<and> (given_up s \<longrightarrow> given_up s')"
    and later_moves: "m \<in> set (later e) \<Longrightarrow> free s \<Longrightarrow> \<exists>r s'. m s = Some (r, s') \<and> r \<noteq> Block"
    and given_up_held: "given_up s \<Longrightarrow> held s process_lock"
    and world_free: "free s \<Longrightarrow> free (s\<lparr>world := w\<rparr>)"
begin

definition all_out :: "('w tstate, unit) prog list list \<Rightarrow> 'w tstate \<Rightarrow> bool" where
  "all_out ps s \<longleftrightarrow> (free s \<or> given_up s) \<and> list_all (waiting code later) ps"

definition one_in :: "nat \<Rightarrow> ('w tstate, unit) prog list list \<Rightarrow> 'w tstate \<Rightarrow> bool" where
  "one_in i ps s \<longleftrightarrow> busy s \<and> i < length ps \<and> within body later (ps ! i) \<and> list_all (waiting code later) (ps[i := []])"

lemma waiting_done: "waiting code later []"
  by (rule waiting_intros)

text \<open>A statement of a thread that waits.\<close>

lemma waiting_step:
  assumes "waiting code later (m # ms)" and "m s = Some (r, s')" and "r \<noteq> Block"
  shows "(r = Ret () \<and> \<not> held s process_lock \<and> s' = s\<lparr>held := (held s)(process_lock := True)\<rparr> \<and> within body later ms)
    \<or> waiting code later ms \<and> (free s \<longrightarrow> free s') \<and> (busy s \<longrightarrow> busy s') \<and> (given_up s \<longrightarrow> given_up s')"
proof -
  from assms(1) consider e where "m # ms = code e" | e before where "later e = before @ m # ms"
    by (auto simp: waiting_def)
  then show ?thesis
  proof cases
    case 1
    then have m: "m = acquire process_lock" "ms = body e @ release process_lock # later e" by (simp_all add: code)
    have "within body later ms"
      unfolding within_def by (rule exI [of _ e], rule exI [of _ "[]"], rule exI [of _ "body e"]) (simp add: m(2))
    with m(1) assms(2,3) show ?thesis by (auto simp: acquire_def split: if_splits)
  next
    case 2
    then have "m \<in> set (later e)" by simp
    from later_keeps [OF this assms(2)] have "(free s \<longrightarrow> free s') \<and> (busy s \<longrightarrow> busy s') \<and> (given_up s \<longrightarrow> given_up s')" .
    moreover have "waiting code later ms" by (rule waiting_rest, rule 2)
    ultimately show ?thesis by blast
  qed
qed

lemma all_out_step:
  assumes "all_out ps s" and i: "i < length ps" "ps ! i = m # ms" and m: "m s = Some (r, s')" "r \<noteq> Block"
  shows "r = Ret () \<longrightarrow> all_out (ps[i := ms]) s' \<or> one_in i (ps[i := ms]) s'" and "r \<noteq> Ret () \<longrightarrow> all_out (ps[i := []]) s'"
proof -
  have w: "list_all (waiting code later) ps" "waiting code later (m # ms)" and s: "free s \<or> given_up s"
    using assms(1) i by (auto simp: all_out_def list_all_length)
  note step = waiting_step [OF w(2) m]
  show "r = Ret () \<longrightarrow> all_out (ps[i := ms]) s' \<or> one_in i (ps[i := ms]) s'"
    using step s i enter given_up_held list_all_update [OF w(1), of ms i] list_all_update [OF w(1) waiting_done, of i]
    by (auto simp: all_out_def one_in_def)
  show "r \<noteq> Ret () \<longrightarrow> all_out (ps[i := []]) s'"
    using step s list_all_update [OF w(1) waiting_done, of i] by (auto simp: all_out_def)
qed

text \<open>A statement of the thread inside, and of another one meanwhile.\<close>

lemma one_in_step:
  assumes "one_in i ps s" and p: "ps ! i = m # ms" and m: "m s = Some (r, s')"
  shows "r = Ret () \<longrightarrow> all_out (ps[i := ms]) s' \<or> one_in i (ps[i := ms]) s'" and "r \<noteq> Ret () \<longrightarrow> all_out (ps[i := []]) s'"
proof -
  have s: "busy s" "i < length ps" "list_all (waiting code later) (ps[i := []])" "within body later (m # ms)"
    using assms(1) p by (auto simp: one_in_def)
  note w = list_all_update [OF s(3), of _ i, simplified]
  from s(4) obtain e before todo where e: "body e = before @ todo" "m # ms = todo @ release process_lock # later e"
    by (auto simp: within_def)
  have "(r = Ret () \<longrightarrow> all_out (ps[i := ms]) s' \<or> one_in i (ps[i := ms]) s') \<and> (r \<noteq> Ret () \<longrightarrow> all_out (ps[i := []]) s')"
  proof (cases todo)
    case Nil
    with e(2) have "m = release process_lock" "ms = later e" by simp_all
    with m leave [OF s(1)] w [OF waiting_intros(2)] show ?thesis
      by (auto simp: release_def modify_def all_out_def)
  next
    case (Cons m' todo')
    with e have b: "m \<in> set (body e)" "body e = before @ m # todo'" "ms = todo' @ release process_lock # later e" by simp_all
    from work [OF b(1) s(1)] m have "if r = Ret () then busy s' else given_up s'" by auto
    moreover have "within body later ms" unfolding b(3) by (rule within_rest, rule b(2))
    ultimately show ?thesis using s w [OF waiting_done] by (auto simp: all_out_def one_in_def)
  qed
  then show "r = Ret () \<longrightarrow> all_out (ps[i := ms]) s' \<or> one_in i (ps[i := ms]) s'" "r \<noteq> Ret () \<longrightarrow> all_out (ps[i := []]) s'"
    by simp_all
qed

lemma one_in_other:
  assumes "one_in i ps s" and j: "j < length ps" "j \<noteq> i" "ps ! j = m # ms" and m: "m s = Some (r, s')" "r \<noteq> Block"
  shows "one_in i (ps[j := ms]) s'" and "one_in i (ps[j := []]) s'"
proof -
  have s: "busy s" "i < length ps" "list_all (waiting code later) (ps[i := []])" "within body later (ps ! i)"
    using assms(1) by (auto simp: one_in_def)
  have "waiting code later (m # ms)" using s(3) j by (auto simp: list_all_length nth_list_update)
  from waiting_step [OF this m] leave [OF s(1)] s(1) have "waiting code later ms" "busy s'" by auto
  moreover have "ps[j := x, i := []] = ps[i := [], j := x]" for x by (rule list_update_swap [OF j(2)])
  ultimately show "one_in i (ps[j := ms]) s'" "one_in i (ps[j := []]) s'"
    using s j list_all_update [OF s(3), of _ j] waiting_done by (simp_all add: one_in_def)
qed

theorem mutual_exclusion:
  assumes "interleaved start code ps s"
  shows "all_out ps s \<or> (\<exists>i. one_in i ps s)"
  using assms
proof (induction rule: interleaved.induct)
  case (threads_start s)
  then show ?case using start_free by (simp add: all_out_def)
next
  case (threads_call ps s e)
  then show ?case
    using waiting_intros(1) [of code later e]
    by (auto simp: all_out_def one_in_def nth_append list_update_append1 less_SucI)
next
  case (threads_step ps s i m ms s')
  then show ?case
    using all_out_step(1) [of ps s i m ms "Ret ()" s'] one_in_step(1) [of i ps s m ms "Ret ()" s'] one_in_other(1) [of _ ps s i m ms "Ret ()" s']
    by (metis outcome.distinct)
next
  case (threads_end ps s i m ms r s')
  then show ?case
    using all_out_step(2) [of ps s i m ms r s'] one_in_step(2) [of i ps s m ms r s'] one_in_other(2) [of _ ps s i m ms r s']
    by metis
next
  case (threads_environment ps s w)
  then show ?case
    using given_up_held leave world_free unfolding all_out_def one_in_def by blast
qed

text \<open>Nobody waits for ever, unless a thread has given up.\<close>

theorem progress:
  assumes "interleaved start code ps s" and "p \<in> set ps" and "p \<noteq> []"
  shows "list_ex (\<lambda>q. can_move q s) ps \<or> given_up s \<and> list_all (waiting code later) ps"
  using mutual_exclusion [OF assms(1)]
proof
  assume out: "all_out ps s"
  show ?thesis
  proof (cases "given_up s")
    case False
    with out have s: "free s" and "waiting code later p" using assms(2) by (auto simp: all_out_def list_all_iff)
    then consider e where "p = code e" | e before where "later e = before @ p" by (auto simp: waiting_def)
    then have "can_move p s"
    proof cases
      case 1
      with enter [OF s] show ?thesis by (simp add: code acquire_def)
    next
      case 2
      with assms(3) obtain m ms where "p = m # ms" "m \<in> set (later e)" by (cases p) auto
      with later_moves [OF _ s] show ?thesis by auto
    qed
    with assms(2) show ?thesis by (auto simp: list_ex_iff)
  qed (use out in \<open>simp add: all_out_def\<close>)
next
  assume "\<exists>i. one_in i ps s"
  then obtain i e before todo where i: "busy s" "i < length ps" "body e = before @ todo"
    "ps ! i = todo @ release process_lock # later e"
    by (auto simp: one_in_def within_def)
  have "can_move (ps ! i) s"
  proof (cases todo)
    case Nil
    with i(4) show ?thesis by (simp add: release_def modify_def)
  next
    case (Cons m todo')
    with work [of m e s] i show ?thesis by auto
  qed
  with i(2) show ?thesis by (auto simp: list_ex_length)
qed

end

end
