(* ===== verification/TriggerThreads.thy ===== *)
theory TriggerThreads
  imports TriggerTypes Interleaving
begin

text \<open>
  The threads of the later trigger script: its callbacks and ticks as lists of statements, which interleave. Every interleaving
  is a run of \<open>TriggerRuns\<close>, in which an event is one step, followed by the done part of at most one event.
\<close>

section \<open>Callbacks and ticks as lists of statements\<close>

fun event_of :: "'f call \<Rightarrow> ('w, 'f) event" where
  "event_of (ReadCall frame) = ReadHit frame"
| "event_of (WriteCall frame) = WriteHit frame"
| "event_of TimerCall = Tick"

definition handle_new :: "config \<Rightarrow> ('w, 't, 'f) lldb_api \<Rightarrow> ('t \<Rightarrow> 'w \<Rightarrow> 'f) \<Rightarrow> ('w tstate, unit) prog" where
  "handle_new c A frame_of = bnd (untracked_breakpoint_check c A) (\<lambda>ts. for_each ts (handle_thread c A frame_of))"

text \<open>What a call does between taking the process lock and giving it back, and after that.\<close>

fun inside :: "config \<Rightarrow> ('w, 't, 'f) lldb_api \<Rightarrow> 'f call \<Rightarrow> ('w tstate, unit) prog list" where
  "inside c A (ReadCall frame) =
     [out c (''>>>>>>> INFO: READ THREAD '' @ str_nat (GetThreadID A (GetThread A frame))
        @ '' IS TRIGGERED >>>>>>>''),
      stop_process c A,
      modify (\<lambda>s. s\<lparr>RUNNING := False\<rparr>),
      handle_new c A (GetFrameAtIndex0 A),
      modify (\<lambda>s. s\<lparr>RUNNING := True\<rparr>),
      continue_process c A]"
| "inside c A (WriteCall frame) =
     [out c (''>>>>>>> INFO: WRITE THREAD '' @ str_nat (GetThreadID A (GetThread A frame))
        @ '' IS TRIGGERED >>>>>>>''),
      stop_process c A,
      modify (\<lambda>s. s\<lparr>RUNNING := False\<rparr>),
      bnd (thread_liveness_check c (GetThreadID A (GetThread A frame))) delete_indices,
      handle_new c A (GetSelectedFrame A),
      modify (\<lambda>s. s\<lparr>RUNNING := True\<rparr>),
      continue_process c A]"
| "inside c A TimerCall = [timer_body c A]"

definition status_check :: "config \<Rightarrow> ('w, 't, 'f) lldb_api \<Rightarrow> ('w tstate, unit) prog" where
  "status_check c A = bnd (get STATUS_FOUND) (\<lambda>found. whenever found (block
        [out c ''####### STATUS: MATCH FOUND #######'', terminate c A]))"

definition start_timer :: "('w tstate, unit) prog" where
  "start_timer = modify (\<lambda>s. s\<lparr>timers := Suc (timers s)\<rparr>)"

fun after :: "config \<Rightarrow> ('w, 't, 'f) lldb_api \<Rightarrow> 'f call \<Rightarrow> ('w tstate, unit) prog list" where
  "after c A TimerCall = [status_check c A, start_timer]"
| "after c A _ = []"

definition statements :: "config \<Rightarrow> ('w, 't, 'f) lldb_api \<Rightarrow> 'f call \<Rightarrow> ('w tstate, unit) prog list" where
  "statements c A e = acquire process_lock # inside c A e @ release process_lock # after c A e"

lemma handle_untracked_block:
  "handle_untracked c A fo = block [handle_new c A fo, modify (\<lambda>s. s\<lparr>RUNNING := True\<rparr>), continue_process c A, release process_lock]"
  unfolding handle_untracked_def handle_new_def block.simps bnd_assoc_fun by (rule refl)

text \<open>One after the other, the statements are the callback or the tick.\<close>

lemma block_statements: "block (statements c A e) = run_event c A (event_of e)"
proof (cases e)
  case TimerCall
  then show ?thesis
    by (simp only: statements_def inside.simps after.simps append_Cons append_Nil event_of.simps run_event.simps timer_split
        status_check_def start_timer_def)
next
  case (ReadCall frame)
  show ?thesis
    unfolding ReadCall statements_def inside.simps after.simps append_Cons append_Nil event_of.simps run_event.simps
      read_callback_def handle_untracked_block block.simps bnd_assoc_fun bnd_ret_fun by (rule refl)
next
  case (WriteCall frame)
  show ?thesis
    unfolding WriteCall statements_def inside.simps after.simps append_Cons append_Nil event_of.simps run_event.simps
      write_callback_def handle_untracked_block block.simps bnd_assoc_fun bnd_ret_fun by (rule refl)
qed

section \<open>Statements that never look at the number of timers\<close>

definition blind :: "('w tstate, 'a) prog \<Rightarrow> bool" where
  "blind m \<longleftrightarrow> (\<forall>s r s' n. m s = Some (r, s') \<longrightarrow> m (s\<lparr>timers := n\<rparr>) = Some (r, s'\<lparr>timers := n\<rparr>))"

named_theorems blind_intros

lemma blindD: "blind m \<Longrightarrow> m s = Some (r, s') \<Longrightarrow> m (s\<lparr>timers := n\<rparr>) = Some (r, s'\<lparr>timers := n\<rparr>)"
  by (simp add: blind_def)

lemma blind_bnd [blind_intros]:
  assumes "blind m" and "\<And>x. blind (k x)"
  shows "blind (bnd m k)"
  unfolding blind_def
proof (intro allI impI)
  fix s r s' n
  assume "bnd m k s = Some (r, s')"
  then obtain r1 s1 where m: "m s = Some (r1, s1)" "pass_on k r1 s1 = Some (r, s')"
    by (auto simp: bnd_def split: option.splits)
  show "bnd m k (s\<lparr>timers := n\<rparr>) = Some (r, s'\<lparr>timers := n\<rparr>)"
    using blindD [OF assms(1) m(1), of n] m(2) blindD [OF assms(2)] by (cases r1) (auto simp: bnd_def)
qed

lemma blind_basic [blind_intros]:
  "blind (ret x)" "blind (throw e)" "blind spin" "blind (ask f)" "blind (act h)" "blind (perform p)" "blind (acquire l)"
  "blind (release l)" "blind (py_print m)" "blind (fd_write m)" "blind fd_close" "blind (indexed xs i)" "blind (from_option e r)"
  by (auto simp: blind_def ret_def throw_def spin_def ask_def get_def act_def call_def perform_def modify_def acquire_def
      release_def py_print_def fd_write_def fd_close_def indexed_def from_option_def
      split: prod.splits if_splits fd_state.splits option.splits)

lemma blind_get [blind_intros]: "(\<And>s n. f (s\<lparr>timers := n\<rparr>) = f s) \<Longrightarrow> blind (get f)"
  by (simp add: blind_def get_def)

lemma blind_modify [blind_intros]: "(\<And>s n. f (s\<lparr>timers := n\<rparr>) = (f s)\<lparr>timers := n\<rparr>) \<Longrightarrow> blind (modify f)"
  by (simp add: blind_def modify_def)

lemma blind_if [blind_intros]: "blind m \<Longrightarrow> blind m' \<Longrightarrow> blind (if b then m else m')"
  by simp

lemma blind_whenever [blind_intros]: "blind m \<Longrightarrow> blind (whenever b m)"
  by (simp add: whenever_def blind_intros)

lemma blind_block [blind_intros]: "blind (block [])" "blind m \<Longrightarrow> blind (block ms) \<Longrightarrow> blind (block (m # ms))"
  by (simp_all add: blind_intros)

lemma blind_for_each [blind_intros]: "(\<And>x. blind (body x)) \<Longrightarrow> blind (for_each xs body)"
  by (induction xs) (simp_all add: blind_intros)

lemma blind_try [blind_intros]:
  assumes "blind m" and "\<And>e. blind (h e)"
  shows "blind (try_except m h)"
  unfolding blind_def
proof (intro allI impI)
  fix s r s' n
  assume t: "try_except m h s = Some (r, s')"
  then obtain r1 s1 where m: "m s = Some (r1, s1)" by (auto simp: try_except_def split: option.splits)
  show "try_except m h (s\<lparr>timers := n\<rparr>) = Some (r, s'\<lparr>timers := n\<rparr>)"
    using t m blindD [OF assms(1) m, of n] blindD [OF assms(2)]
    by (cases r1) (auto simp: try_except_def split: if_splits)
qed

lemma blind_until [blind_intros]:
  assumes "blind test" and "blind body"
  shows "blind (until test body)"
proof -
  have "until test body (s\<lparr>timers := n\<rparr>) = Some (r, s'\<lparr>timers := n\<rparr>)" if "until test body s = Some (r, s')" for s r s' n
    using that assms
  proof (induction test body s "(r, s')" rule: until.raw_induct [rotated, consumes 1, case_names step])
    case (step f test body s)
    note IH = step(1) and eq = step(2) and test = step(3) and body = step(4)
    obtain r1 s1 where t: "test s = Some (r1, s1)" using eq by (cases "test s") auto
    note t' = blindD [OF test t, of n]
    show ?case
    proof (cases "r1 = Ret False")
      case True
      then obtain r2 s2 where b: "body s1 = Some (r2, s2)" using t eq by (cases "body s1") auto
      show ?thesis
        using t b True eq IH test body t' blindD [OF body b, of n]
        by (subst until.simps) (cases r2; auto)
    next
      case False
      then show ?thesis using t eq t' by (subst until.simps) (cases r1; auto split: if_splits)
    qed
  qed
  then show ?thesis by (simp add: blind_def)
qed

lemma blind_out [blind_intros]: "blind (out c m)"
  unfolding out_def by (intro blind_intros)

lemma blind_terminate [blind_intros]: "blind (terminate c A)"
  unfolding terminate_def by (intro blind_intros)

lemma blind_update_timer [blind_intros]: "blind (update_timer A)"
  unfolding update_timer_def by (intro blind_intros) simp

lemma blind_process [blind_intros]:
  "blind (stop_process c A)" "blind (continue_process c A)" "blind (retry_call c A op m)"
  "blind (resume_threads c A S)" "blind (all_bp_hit A)"
  unfolding stop_process_def continue_process_def retry_error_def retry_call_def resume_threads_def all_bp_hit_def
  by (intro blind_intros)+

lemma blind_release_bp [blind_intros]: "blind (release_bp c A)"
  unfolding release_bp_def by (intro blind_intros) simp_all

lemma blind_get_addr [blind_intros]: "blind (get_addr c A frame src)"
proof -
  have "blind (token_addrs A frame ts addrs)" for ts addrs
    by (induction ts arbitrary: addrs) (auto intro!: blind_intros split: var_value.split)
  then show ?thesis unfolding get_addr_def Let_def by (intro blind_intros)
qed

lemma blind_check [blind_intros]: "blind (breakpoint_match_check c A as lt ID)"
  unfolding breakpoint_match_check_def match_def Let_def by (intro blind_intros) simp_all

lemma blind_handle_new [blind_intros]: "blind (handle_new c A fo)"
  unfolding handle_new_def untracked_breakpoint_check_def handle_thread_def location_line_def source_line_def Let_def
  by (intro blind_intros) simp_all

lemma blind_liveness [blind_intros]: "blind (thread_liveness_check c ID)" "blind (delete_indices ns)"
  unfolding thread_liveness_check_def delete_indices_def by (intro blind_intros; simp)+

lemma blind_timer_body [blind_intros]: "blind (timer_body c A)"
  unfolding timer_body_def since_break_def timer_release_def by (intro blind_intros) simp_all

lemma blind_inside: "list_all blind (inside c A e)"
  by (cases e; simp only: inside.simps list.pred_inject; intro conjI blind_intros) simp_all

text \<open>Inside, the lock is kept and the status is not set.\<close>

lemma keeps_inside:
  assumes "untouched f"
  shows "list_all (keeps f) (inside c A e)"
  by (cases e; simp only: inside.simps list.pred_inject handle_new_def; intro conjI keeps_intros assms TrueI)

section \<open>Interleaving\<close>

text \<open>The states that the threads of a session reach together.\<close>

definition loaded :: "config \<Rightarrow> ('w, 't, 'f) lldb_api \<Rightarrow> 'w tstate \<Rightarrow> bool" where
  "loaded c A s \<longleftrightarrow> (\<exists>w. lldb_init_module c A (init_state w) = Some (Ret (), s))"

abbreviation threads :: "config \<Rightarrow> ('w, 't, 'f) lldb_api \<Rightarrow> ('w tstate, unit) prog list list \<Rightarrow> 'w tstate \<Rightarrow> bool" where
  "threads c A \<equiv> interleaved (loaded c A) (statements c A)"

text \<open>A thread that has not begun, or has only what follows the lock left to do.\<close>

inductive outside :: "config \<Rightarrow> ('w, 't, 'f) lldb_api \<Rightarrow> ('w tstate, unit) prog list \<Rightarrow> bool" for c A where
  outside_new: "outside c A (statements c A e)"
| outside_status: "outside c A [status_check c A, start_timer]"
| outside_start: "outside c A [start_timer]"
| outside_done: "outside c A []"

lemma outside_after: "outside c A (after c A e)"
  by (cases e) (simp_all add: outside.intros)

lemmas outside_intros = outside_status outside_start outside_done

text \<open>The claim: the globals are those of a run, or of one event in progress after a run; the other threads are outside.\<close>

definition at_rest :: "config \<Rightarrow> ('w, 't, 'f) lldb_api \<Rightarrow> ('w tstate, unit) prog list list \<Rightarrow> 'w tstate \<Rightarrow> bool" where
  "at_rest c A ps s \<longleftrightarrow> (\<exists>s0 n. run c A s0 \<and> s = s0\<lparr>timers := n\<rparr>) \<and> list_all (outside c A) ps"

definition at_work :: "config \<Rightarrow> ('w, 't, 'f) lldb_api \<Rightarrow> nat \<Rightarrow> ('w tstate, unit) prog list list \<Rightarrow> 'w tstate \<Rightarrow> bool" where
  "at_work c A i ps s \<longleftrightarrow> (\<exists>s0 e before todo s1 n. run c A s0 \<and> \<not> held s0 process_lock \<and> i < length ps
     \<and> inside c A e = before @ todo \<and> ps ! i = todo @ release process_lock # after c A e
     \<and> block (acquire process_lock # before) s0 = Some (Ret (), s1) \<and> s = s1\<lparr>timers := n\<rparr>
     \<and> (\<forall>j < length ps. j \<noteq> i \<longrightarrow> outside c A (ps ! j)))"

section \<open>Every step keeps the claim\<close>

lemma outside_step:
  assumes "outside c A (m # ms)" and "m s = Some (r, s')" and "r \<noteq> Block" and "\<not> STATUS_FOUND s"
  shows "r = Ret () \<and> (\<not> held s process_lock \<and> s' = locked s \<and> (\<exists>e. m # ms = statements c A e)
    \<or> outside c A ms \<and> (\<exists>n. s' = s\<lparr>timers := n\<rparr>))"
  using assms(1)
proof (cases rule: outside.cases)
  case outside_new
  then show ?thesis
    using assms(2,3) by (auto simp: statements_def acquire_def locked_def split: if_splits)
next
  case outside_status
  then have "r = Ret ()" "s' = s"
    using assms(2,4) by (simp_all add: status_check_def bnd_get whenever_def ret_def)
  moreover have "s = s\<lparr>timers := timers s\<rparr>" by simp
  ultimately show ?thesis using outside_status outside_intros(2) by blast
next
  case outside_start
  then have "r = Ret ()" "s' = s\<lparr>timers := Suc (timers s)\<rparr>"
    using assms(2) by (simp_all add: start_timer_def modify_def)
  then show ?thesis using outside_start outside_intros(3) by blast
qed

lemma rest_step:
  assumes rest: "at_rest c A ps s" and ids: "distinct_ids A" and i: "i < length ps" and p: "ps ! i = m # ms"
    and m: "m s = Some (r, s')" "r \<noteq> Block"
  shows "r = Ret () \<and> (at_rest c A (ps[i := ms]) s' \<or> at_work c A i (ps[i := ms]) s')"
proof -
  from rest obtain s0 n where s0: "run c A s0" "s = s0\<lparr>timers := n\<rparr>" and out: "list_all (outside c A) ps"
    by (auto simp: at_rest_def)
  have o: "outside c A (m # ms)" using out i p by (metis list_all_length)
  have "\<not> STATUS_FOUND s" using run_invariant [OF s0(1) ids] s0(2) by (simp add: run_ok_def)
  from outside_step [OF o m this] have r: "r = Ret ()"
    and alt: "\<not> held s process_lock \<and> s' = locked s \<and> (\<exists>e. m # ms = statements c A e)
      \<or> outside c A ms \<and> (\<exists>n. s' = s\<lparr>timers := n\<rparr>)" by blast+
  from alt show ?thesis
  proof
    assume "\<not> held s process_lock \<and> s' = locked s \<and> (\<exists>e. m # ms = statements c A e)"
    then obtain e where free: "\<not> held s0 process_lock" and s': "s' = (locked s0)\<lparr>timers := n\<rparr>" and e: "m # ms = statements c A e"
      using s0(2) by (auto simp: locked_def)
    have "block (acquire process_lock # []) s0 = Some (Ret (), locked s0)"
      using free by (simp add: bnd_def acquire_def ret_def locked_def)
    moreover have "ps[i := ms] ! i = inside c A e @ release process_lock # after c A e"
      using e i by (simp add: statements_def)
    ultimately have "at_work c A i (ps[i := ms]) s'"
      unfolding at_work_def using s0(1) free i s' out
      by (intro exI [of _ s0] exI [of _ e] exI [of _ "[]"] exI [of _ "inside c A e"] exI [of _ "locked s0"] exI [of _ n])
         (simp add: list_all_length)
    with r show ?thesis by simp
  next
    assume "outside c A ms \<and> (\<exists>n. s' = s\<lparr>timers := n\<rparr>)"
    then obtain k where "outside c A ms" "s' = s0\<lparr>timers := k\<rparr>" using s0(2) by auto
    with s0(1) out have "at_rest c A (ps[i := ms]) s'"
      by (auto simp: at_rest_def list_all_update)
    with r show ?thesis by simp
  qed
qed

lemma block_join:
  "block ms s = Some (Ret (), s1) \<Longrightarrow> block ns s1 = Some (r, s2) \<Longrightarrow> block (ms @ ns) s = Some (r, s2)"
  by (simp add: block_append bnd_def)

lemma block_snoc:
  "block ms s = Some (Ret (), s1) \<Longrightarrow> m s1 = Some (r, s2) \<Longrightarrow> block (ms @ [m]) s = Some (r, s2)"
  using block_one [of m s1] by (simp add: block_append bnd_def del: block.simps)

text \<open>While an event is in progress, the lock is held and no status has been set.\<close>

lemma before_keeps:
  assumes "inside c A e = before @ todo" and "block (acquire process_lock # before) s0 = Some (Ret (), s1)"
    and "\<not> held s0 process_lock" and "\<not> STATUS_FOUND s0"
  shows "held s1 process_lock" and "\<not> STATUS_FOUND s1"
proof -
  have "block before (locked s0) = Some (Ret (), s1)"
    using assms(2,3) by (simp add: bnd_def acquire_def locked_def)
  moreover have "keeps f (block before)" if "list_all (keeps f) (before @ todo)" for f :: "'a tstate \<Rightarrow> bool"
    using that by (induction before) (simp_all add: keeps_intros)
  ultimately show "held s1 process_lock" "\<not> STATUS_FOUND s1"
    using keeps_inside [OF untouched_fields(4), of c A e] keeps_inside [OF untouched_fields(3), of c A e] assms(1,4)
    by (fastforce dest: keepsD)+
qed

lemma block_after:
  assumes "\<not> STATUS_FOUND s"
  shows "\<exists>n. block (after c A e) s = Some (Ret (), s\<lparr>timers := n\<rparr>)"
proof -
  have "s\<lparr>timers := timers s\<rparr> = s" by simp
  then have same: "\<exists>n. s = s\<lparr>timers := n\<rparr>" by metis
  show ?thesis
    using assms same
    by (cases e) (auto simp: run_simps status_check_def start_timer_def ret_def)
qed

lemma block_stops:
  "block ms s = Some (r, s') \<Longrightarrow> r \<noteq> Ret () \<Longrightarrow> block (ms @ ns) s = Some (r, s')"
  by (simp add: block_append bnd_def) (cases r; simp)

text \<open>The next statement of the thread inside.\<close>

lemma work_step:
  assumes work: "at_work c A i ps s" and ids: "distinct_ids A" and p: "ps ! i = m # ms"
    and m: "m s = Some (r, s')" "r \<noteq> Block"
  shows "(r = Ret () \<and> (at_rest c A (ps[i := ms]) s' \<or> at_work c A i (ps[i := ms]) s'))
    \<or> (r \<noteq> Ret () \<and> at_rest c A (ps[i := []]) s')"
proof -
  from work obtain s0 e before todo s1 n where s0: "run c A s0" "\<not> held s0 process_lock" and i: "i < length ps"
    and split: "inside c A e = before @ todo" and pi: "ps ! i = todo @ release process_lock # after c A e"
    and b: "block (acquire process_lock # before) s0 = Some (Ret (), s1)" and s: "s = s1\<lparr>timers := n\<rparr>"
    and out: "\<And>j. j < length ps \<Longrightarrow> j \<noteq> i \<Longrightarrow> outside c A (ps ! j)"
    unfolding at_work_def by blast
  have unset: "\<not> STATUS_FOUND s0" using run_invariant [OF s0(1) ids] by (simp add: run_ok_def)
  note keep = before_keeps [OF split b s0(2) unset]
  have all: "list_all (outside c A) (ps[i := q])" if "outside c A q" for q
    using that out i by (auto simp: list_all_length nth_list_update)
  have run: "statements c A e = (acquire process_lock # before) @ todo @ release process_lock # after c A e"
    by (simp add: statements_def split)
  have ended: "at_rest c A (ps[i := q]) s2"
    if "outside c A q" "block (statements c A e) s0 = Some (r', s3)" "s2 = s3\<lparr>timers := k\<rparr>" for q r' s2 s3 k
    using that(3) run_step [OF s0(1) that(2) [unfolded block_statements]] all [OF that(1)]
    unfolding at_rest_def by blast
  show ?thesis
  proof (cases todo)
    case Nil
    let ?s2 = "s1\<lparr>held := (held s1)(process_lock := False)\<rparr>"
    have m_def: "m = release process_lock" "ms = after c A e" using p pi Nil by simp_all
    then have r: "r = Ret ()" "s' = ?s2\<lparr>timers := n\<rparr>" using m(1) s by (auto simp: release_def modify_def)
    have "\<not> STATUS_FOUND ?s2" using keep(2) by simp
    from block_after [OF this] obtain k where k: "block (after c A e) ?s2 = Some (Ret (), ?s2\<lparr>timers := k\<rparr>)" ..
    have "block ((acquire process_lock # before) @ [release process_lock]) s0 = Some (Ret (), ?s2)"
      by (rule block_snoc [OF b]) (simp add: release_def modify_def)
    from block_join [OF this k] have "block (statements c A e) s0 = Some (Ret (), ?s2\<lparr>timers := k\<rparr>)"
      by (simp add: run Nil del: block.simps)
    moreover have "s' = ?s2\<lparr>timers := k\<rparr>\<lparr>timers := n\<rparr>" using r(2) by simp
    ultimately show ?thesis using ended [OF outside_after [of c A e]] r(1) m_def(2) by blast
  next
    case (Cons m' todo')
    have m_def: "m' = m" "ms = todo' @ release process_lock # after c A e" using p pi Cons by simp_all
    have bm: "blind m" using blind_inside [of c A e] by (simp add: split Cons m_def(1))
    from blindD [OF bm m(1), of "timers s1"] s
    have m1: "m s1 = Some (r, s'\<lparr>timers := timers s1\<rparr>)" by simp
    from blindD [OF bm m1, of n] m(1) s have s': "s' = s'\<lparr>timers := timers s1\<rparr>\<lparr>timers := n\<rparr>" by simp
    have more: "block ((acquire process_lock # before) @ [m]) s0 = Some (r, s'\<lparr>timers := timers s1\<rparr>)"
      by (rule block_snoc, rule b, rule m1)
    show ?thesis
    proof (cases "r = Ret ()")
      case True
      have "at_work c A i (ps[i := ms]) s'"
        unfolding at_work_def using s0 i split Cons m_def more True s' out
        by (intro exI [of _ s0] exI [of _ e] exI [of _ "before @ [m]"] exI [of _ todo']
            exI [of _ "s'\<lparr>timers := timers s1\<rparr>"] exI [of _ n]) simp
      with True show ?thesis by simp
    next
      case False
      have "block (statements c A e) s0 = Some (r, s'\<lparr>timers := timers s1\<rparr>)"
        using block_stops [OF more False, of "todo' @ release process_lock # after c A e"]
        by (simp add: run Cons m_def(1) del: block.simps)
      from ended [OF outside_done this s'] False show ?thesis by simp
    qed
  qed
qed

text \<open>A statement of another thread meanwhile.\<close>

lemma work_other:
  assumes work: "at_work c A i ps s" and ids: "distinct_ids A" and j: "j < length ps" "j \<noteq> i" and p: "ps ! j = m # ms"
    and m: "m s = Some (r, s')" "r \<noteq> Block"
  shows "r = Ret () \<and> at_work c A i (ps[j := ms]) s'"
proof -
  from work obtain s0 e before todo s1 n where s0: "run c A s0" "\<not> held s0 process_lock" and i: "i < length ps"
    and split: "inside c A e = before @ todo" and pi: "ps ! i = todo @ release process_lock # after c A e"
    and b: "block (acquire process_lock # before) s0 = Some (Ret (), s1)" and s: "s = s1\<lparr>timers := n\<rparr>"
    and out: "\<And>j. j < length ps \<Longrightarrow> j \<noteq> i \<Longrightarrow> outside c A (ps ! j)"
    unfolding at_work_def by blast
  have "\<not> STATUS_FOUND s0" using run_invariant [OF s0(1) ids] by (simp add: run_ok_def)
  from before_keeps [OF split b s0(2) this] s have keep: "held s process_lock" "\<not> STATUS_FOUND s" by simp_all
  have "outside c A (m # ms)" using out [OF j] p by simp
  from outside_step [OF this m keep(2)] keep(1) obtain k where r: "r = Ret ()" "outside c A ms" "s' = s\<lparr>timers := k\<rparr>"
    by auto
  have "at_work c A i (ps[j := ms]) s'"
    unfolding at_work_def using s0 i split pi b s r j out
    by (intro exI [of _ s0] exI [of _ e] exI [of _ before] exI [of _ todo] exI [of _ s1] exI [of _ k])
       (simp add: nth_list_update)
  with r(1) show ?thesis by simp
qed

lemma threads_claim:
  assumes "threads c A ps s" and ids: "distinct_ids A"
  shows "at_rest c A ps s \<or> (\<exists>i. at_work c A i ps s)"
  using assms(1)
proof (induction rule: interleaved.induct)
  case (threads_start s)
  then obtain w where "lldb_init_module c A (init_state w) = Some (Ret (), s)" by (auto simp: loaded_def)
  moreover have "s = s\<lparr>timers := timers s\<rparr>" by simp
  ultimately show ?case unfolding at_rest_def by (metis list.pred_inject(1) run_start)
next
  case (threads_call ps s e)
  have new: "outside c A (statements c A e)" by (rule outside_new)
  from threads_call.IH show ?case
  proof
    assume "at_rest c A ps s"
    with new have "at_rest c A (ps @ [statements c A e]) s" by (auto simp: at_rest_def)
    then show ?thesis ..
  next
    assume "\<exists>i. at_work c A i ps s"
    then obtain i where "at_work c A i ps s" ..
    then have "at_work c A i (ps @ [statements c A e]) s"
      unfolding at_work_def
      by (elim exE conjE, intro exI conjI) (assumption | (auto simp: nth_append less_Suc_eq new)[1])+
    then show ?thesis by blast
  qed
next
  case (threads_step ps s i m ms s')
  from threads_step.IH show ?case
  proof
    assume "at_rest c A ps s"
    from rest_step [OF this ids threads_step.hyps(2-4)] show ?thesis by blast
  next
    assume "\<exists>i. at_work c A i ps s"
    then obtain k where k: "at_work c A k ps s" ..
    show ?thesis
    proof (cases "i = k")
      case True
      from work_step [OF k ids threads_step.hyps(3) [unfolded True] threads_step.hyps(4)] True show ?thesis by blast
    next
      case False
      from work_other [OF k ids threads_step.hyps(2) False threads_step.hyps(3,4)] show ?thesis by blast
    qed
  qed
next
  case (threads_end ps s i m ms r s')
  from threads_end.IH show ?case
  proof
    assume "at_rest c A ps s"
    from rest_step [OF this ids threads_end.hyps(2-4)] threads_end.hyps(5,6) show ?thesis by blast
  next
    assume "\<exists>i. at_work c A i ps s"
    then obtain k where k: "at_work c A k ps s" ..
    show ?thesis
    proof (cases "i = k")
      case True
      from work_step [OF k ids threads_end.hyps(3) [unfolded True] threads_end.hyps(4)] True threads_end.hyps(5,6)
      show ?thesis by blast
    next
      case False
      from work_other [OF k ids threads_end.hyps(2) False threads_end.hyps(3,4)] threads_end.hyps(5,6) show ?thesis by blast
    qed
  qed
next
  case (threads_environment ps s w)
  from threads_environment.IH show ?case
  proof
    assume "at_rest c A ps s"
    then obtain s0 n where s0: "run c A s0" "s = s0\<lparr>timers := n\<rparr>" and out: "list_all (outside c A) ps"
      by (auto simp: at_rest_def)
    have "run c A (s0\<lparr>world := w\<rparr>)"
      by (rule run_step [OF s0(1), of "Environment w"]) (simp add: modify_def)
    moreover have "s\<lparr>world := w\<rparr> = s0\<lparr>world := w\<rparr>\<lparr>timers := n\<rparr>" using s0(2) by simp
    ultimately show ?thesis using out unfolding at_rest_def by blast
  next
    assume "\<exists>i. at_work c A i ps s"
    then obtain s0 e before todo s1 n where s0: "run c A s0" "\<not> held s0 process_lock"
      and split: "inside c A e = before @ todo"
      and b: "block (acquire process_lock # before) s0 = Some (Ret (), s1)" and s: "s = s1\<lparr>timers := n\<rparr>"
      unfolding at_work_def by blast
    have "\<not> STATUS_FOUND s0" using run_invariant [OF s0(1) ids] by (simp add: run_ok_def)
    from before_keeps(1) [OF split b s0(2) this] s threads_environment.hyps(2) show ?thesis by simp
  qed
qed

section \<open>Progress\<close>

lemma can_move_outside:
  assumes "outside c A p" and "p \<noteq> []" and "\<not> held s process_lock" and "\<not> STATUS_FOUND s"
  shows "can_move p s"
  using assms(1)
proof (cases rule: outside.cases)
  case outside_new
  then show ?thesis using assms(3) by (simp add: can_move_def statements_def acquire_def)
next
  case outside_status
  then show ?thesis using assms(4) by (simp add: can_move_def status_check_def bnd_get whenever_def ret_def)
next
  case outside_start
  then show ?thesis by (simp add: can_move_def start_timer_def modify_def)
qed (use assms(2) in simp)

text \<open>A block that ends has ended each of its statements.\<close>

lemma block_reaches:
  assumes "block (ms @ m # ns) s = Some (r, s')" and "r \<noteq> Block" and "block ms s = Some (Ret (), s1)"
  shows "\<exists>r1 s2. m s1 = Some (r1, s2) \<and> r1 \<noteq> Block"
proof -
  have "bnd m (\<lambda>_. block ns) s1 = Some (r, s')"
    using assms(1,3) by (simp add: block_append bnd_def)
  then obtain r1 s2 where "m s1 = Some (r1, s2)" "pass_on (\<lambda>_. block ns) r1 s2 = Some (r, s')"
    by (auto simp: bnd_def split: option.splits)
  with assms(2) show ?thesis by (cases r1) auto
qed

lemma can_move_inside:
  assumes work: "at_work c A i ps s" and ids: "distinct_ids A" and prompt: "prompt False A"
  shows "can_move (ps ! i) s"
proof -
  from work obtain s0 e before todo s1 n where s0: "run c A s0" "\<not> held s0 process_lock"
    and split: "inside c A e = before @ todo" and pi: "ps ! i = todo @ release process_lock # after c A e"
    and b: "block (acquire process_lock # before) s0 = Some (Ret (), s1)" and s: "s = s1\<lparr>timers := n\<rparr>"
    unfolding at_work_def by blast
  show ?thesis
  proof (cases todo)
    case Nil
    with pi show ?thesis by (simp add: can_move_def release_def modify_def)
  next
    case (Cons m rest)
    have run: "statements c A e = (acquire process_lock # before) @ m # rest @ release process_lock # after c A e"
      by (simp add: statements_def split Cons)
    have "between s0" using run_invariant [OF s0(1) ids] s0(2) by (simp add: run_ok_def between_def)
    from wp_total [OF wp_run_event [OF this prompt ids, of c "event_of e"]]
    obtain r s' where "block (statements c A e) s0 = Some (r, s')" "r \<noteq> Block"
      by (auto simp: block_statements event_post_def split: if_splits)
    from block_reaches [OF this(1) [unfolded run] this(2) b] obtain r1 s2 where "m s1 = Some (r1, s2)" "r1 \<noteq> Block"
      by blast
    moreover have "blind m" using blind_inside [of c A e] by (simp add: split Cons)
    ultimately show ?thesis using pi Cons s by (simp add: can_move_def blind_def)
  qed
qed

end
