(* ===== verification/TriggerProperties.thy ===== *)
theory TriggerProperties
  imports ExampleDebugger TriggerThreads
begin

text \<open>
  The properties of \<open>scripts/conbreak/src/trigger/trigger.py\<close>: the store of suspended threads in every run, what a
  match is, when the session is stopped for one, the locks, that every event ends, the release of threads,
  the timer, the addresses read off a source line.
\<close>

section \<open>The store\<close>

text \<open>
  C11: in every state of a run, whatever callbacks and ticks come in whatever order and whatever the
  debuggee does in between, the store has at most one entry per thread, every entry has an address, and
  no two entries race: two threads at different accesses (or at one source line for both) never share an
  address. A reported race is therefore never lost among the recorded threads.
\<close>

theorem trigger_store:
  assumes "run c A s" and "distinct_ids A"
  shows "distinct (map tid_of (OBJ_ARR s)) \<and> (\<forall>x \<in> set (OBJ_ARR s). addrs_of x \<noteq> [])
    \<and> (\<forall>x \<in> set (OBJ_ARR s). \<forall>y \<in> set (OBJ_ARR s).
         tid_of x \<noteq> tid_of y \<and> (same_source (bp_source s) = Some True \<or> kind_of x \<noteq> kind_of y) \<longrightarrow>
         set (addrs_of x) \<inter> set (addrs_of y) = {})"
  using run_invariant [OF assms]
  unfolding run_ok_def store_ok_def entries_ok_def conflict_def by blast

lemma trigger_store_witness:
  "\<exists>s. run trigger_config sim_api s \<and> OBJ_ARR s = [\<lparr>addrs_of = [''0x10''], kind_of = ''W'', tid_of = 1\<rparr>]
     \<and> distinct (map tid_of (OBJ_ARR s))"
proof -
  obtain s where s: "run trigger_config sim_api s"
    "OBJ_ARR s = [\<lparr>addrs_of = [''0x10''], kind_of = ''W'', tid_of = 1\<rparr>]" by (rule sim_run_reached)
  from trigger_store [OF s(1) sim_distinct] s show ?thesis by blast
qed

text \<open>
  C16: \<open>match\<close> returns exactly the pairs of a watched address and another thread's id such that the thread is
  recorded at an access of the other kind (of any kind when both accesses are on the same source
  line) with that address, and changes nothing; with fewer than two source lines it raises
  \<open>IndexError\<close> as soon as another thread is recorded.
\<close>

theorem match_finds:
  "(same_source (bp_source s) = Some same \<longrightarrow>
     (\<exists>ms. match arr s = Some (Ret ms, s)
       \<and> set ms = {(a, t). \<exists>obj \<in> set (OBJ_ARR s). tid_of obj = t \<and> t \<noteq> tid_of arr
            \<and> (same \<or> kind_of obj \<noteq> kind_of arr) \<and> a \<in> set (addrs_of obj) \<and> a \<in> set (addrs_of arr)}))
   \<and> (same_source (bp_source s) = None \<longrightarrow>
       match arr s = (if \<exists>obj \<in> set (OBJ_ARR s). tid_of obj \<noteq> tid_of arr then Some (Raise IndexError, s)
                      else Some (Ret [], s)))"
proof (intro conjI impI)
  assume src: "same_source (bp_source s) = Some same"
  then obtain ms where ms: "matches_in (bp_source s) (OBJ_ARR s) arr = Some ms"
    using matches_in_None [of "bp_source s" "OBJ_ARR s" arr] by auto
  then have "match arr s = Some (Ret ms, s)"
    by (simp add: match_def bnd_def get_def from_option_def ret_def)
  moreover have "set ms = {(a, t). \<exists>obj \<in> set (OBJ_ARR s). tid_of obj = t \<and> t \<noteq> tid_of arr
            \<and> (same \<or> kind_of obj \<noteq> kind_of arr) \<and> a \<in> set (addrs_of obj) \<and> a \<in> set (addrs_of arr)}"
    using matches_in_set [OF ms] src by auto
  ultimately show "\<exists>ms. match arr s = Some (Ret ms, s)
       \<and> set ms = {(a, t). \<exists>obj \<in> set (OBJ_ARR s). tid_of obj = t \<and> t \<noteq> tid_of arr
            \<and> (same \<or> kind_of obj \<noteq> kind_of arr) \<and> a \<in> set (addrs_of obj) \<and> a \<in> set (addrs_of arr)}"
    by blast
next
  assume src: "same_source (bp_source s) = None"
  have "matches_in (bp_source s) objs arr = (if \<exists>obj \<in> set objs. tid_of obj \<noteq> tid_of arr then None else Some [])" for objs
    using src by (induction objs) auto
  then show "match arr s = (if \<exists>obj \<in> set (OBJ_ARR s). tid_of obj \<noteq> tid_of arr then Some (Raise IndexError, s)
                      else Some (Ret [], s))"
    by (simp add: match_def bnd_def get_def from_option_def ret_def throw_def)
qed

lemma match_finds_witness:
  "\<exists>ms. match \<lparr>addrs_of = [''0x10'', ''0x20''], kind_of = ''R'', tid_of = 2\<rparr> sim_state = Some (Ret ms, sim_state)
     \<and> set ms = {(''0x10'', 1)}"
proof -
  have src: "same_source (bp_source sim_state) = Some False"
    by (simp add: sim_state_def same_source_def)
  show ?thesis
    using match_finds [of sim_state False "\<lparr>addrs_of = [''0x10'', ''0x20''], kind_of = ''R'', tid_of = 2\<rparr>"] src
    by (auto simp: sim_state_def)
qed

section \<open>When the session stops for a race\<close>



section \<open>Locks, halting and status\<close>

text \<open>
  C18: an event that finds the process lock free either returns with all three locks free and the
  output file open, or ends otherwise and keeps the process lock. It never blocks on a lock.
\<close>

theorem locks_balanced:
  assumes "run c A s" and "distinct_ids A" and "\<not> held s process_lock" and "run_event c A e s = Some (r, s')"
  shows "(r = Ret () \<and> held s' = (\<lambda>_. False) \<and> OUTPUT_FD s' = OpenFile)
    \<or> (r \<noteq> Ret () \<and> r \<noteq> Block \<and> held s' process_lock)"
proof -
  have s: "between s"
    using run_invariant [OF assms(1,2)] assms(3) by (simp add: run_ok_def between_def)
  have "held s = (\<lambda>_. False)"
  proof
    fix l show "held s l = False" using s by (cases l) (simp_all add: between_def ready_def)
  qed
  then show ?thesis
    using wpD [OF wp_run_event [OF s prompt_partial(1) assms(2)] assms(4)]
    by (auto simp: event_post_def ready_def split: if_splits)
qed

lemma locks_balanced_witness:
  "\<exists>s s'. run trigger_config sim_api s \<and> run_event trigger_config sim_api (ReadHit 2) s = Some (Spin, s')
     \<and> held s' process_lock"
proof -
  obtain s s' where s: "run trigger_config sim_api s" "\<not> held s process_lock"
    "run_event trigger_config sim_api (ReadHit 2) s = Some (Spin, s')" by (rule sim_race_reached)
  from locks_balanced [OF s(1) sim_distinct s(2,3)] s show ?thesis by blast
qed

text \<open>
  C19: once an event has ended with the process lock held (a match, a give-up, an exception), every
  later callback and every tick blocks on that lock and changes nothing: the store, the status
  and the output stay as they are for good.
\<close>

theorem halt_is_final:
  assumes "run c A s" and "distinct_ids A" and "\<not> held s process_lock"
    and "run_event c A e s = Some (r, s')" and "r \<noteq> Ret ()"
    and "\<And>w. e' \<noteq> Environment w" and "run_event c A e' s' = Some (r', s'')"
  shows "r' = Block \<and> s'' = s'"
proof -
  have s: "between s"
    using run_invariant [OF assms(1,2)] assms(3) by (simp add: run_ok_def between_def)
  have "held s' process_lock"
    using wpD [OF wp_run_event [OF s prompt_partial(1) assms(2)] assms(4)] assms(5)
    by (simp add: event_post_def)
  from stuck_event [OF this assms(7)] assms(6) show ?thesis by blast
qed

lemma halt_is_final_witness:
  "\<exists>s s'. run trigger_config sim_api s \<and> run_event trigger_config sim_api (ReadHit 2) s = Some (Spin, s')
     \<and> run_event trigger_config sim_api Tick s' = Some (Block, s')"
proof -
  obtain s s' where s: "run trigger_config sim_api s" "\<not> held s process_lock"
    "run_event trigger_config sim_api (ReadHit 2) s = Some (Spin, s')" by (rule sim_race_reached)
  have "between s" using run_invariant [OF s(1) sim_distinct] s(2) by (simp add: run_ok_def between_def)
  from wpD [OF wp_run_event [OF this prompt_partial(1) sim_distinct] s(3)]
  have "held s' process_lock" by (simp add: event_post_def)
  then obtain r t where tick: "run_event trigger_config sim_api Tick s' = Some (r, t)"
    by (simp add: timer_split acquire_def bnd_def)
  from halt_is_final [OF s(1) sim_distinct s(2,3) _ _ tick] have "r = Block \<and> t = s'" by blast
  with tick s(1,3) show ?thesis by blast
qed

text \<open>
  C20: with an interface whose operations succeed after finitely many attempts, every callback and every
  tick that finds the lock free ends: it returns, halts the session or raises, it does not wait forever
  in a retry loop nor for a lock.
\<close>

theorem events_end:
  assumes "run c A s" and "distinct_ids A" and "prompt False A" and "\<not> held s process_lock"
  shows "\<exists>r s'. run_event c A e s = Some (r, s') \<and> r \<noteq> Block"
proof -
  have s: "between s"
    using run_invariant [OF assms(1,2)] assms(4) by (simp add: run_ok_def between_def)
  obtain r s' where "run_event c A e s = Some (r, s')" "event_post s r s'"
    using wp_total [OF wp_run_event [OF s assms(3,2), of c e]] by blast
  moreover from this(2) have "r \<noteq> Block" by (auto simp: event_post_def split: if_splits)
  ultimately show ?thesis by blast
qed

lemma events_end_witness:
  "\<exists>s r s'. run trigger_config sim_api s \<and> run_event trigger_config sim_api Tick s = Some (r, s') \<and> r \<noteq> Block"
proof -
  obtain s where s: "run trigger_config sim_api s" "\<not> held s process_lock" by (rule sim_run_reached)
  from events_end [OF s(1) sim_distinct sim_prompt s(2), of Tick] s(1) show ?thesis by blast
qed

text \<open>
  C14: a session that has started cannot go wrong: no index, no number, no attribute and no file is missing in
  any event of a run. Every event that finds the lock free returns or halts the session, without an
  exception of its own (an exception of the bindings is caught and halts it too), and leaves the globals as the
  code needs them: a source line for each access, two locations with a file and a line number, and a kind in
  every entry of the store.
\<close>

theorem events_typed:
  assumes "run c A s" and "distinct_ids A" and "random_ok A" and "\<not> held s process_lock"
    and "run_event c A e s = Some (r, s')"
  shows "(r = Ret () \<or> r = halted c) \<and> 2 \<le> length (bp_source s')
    \<and> (\<exists>f0 n0 l0 f1 n1 l1. bp_location s' = [f0 # n0 # l0, f1 # n1 # l1] \<and> py_int n0 \<noteq> None \<and> py_int n1 \<noteq> None)
    \<and> list_all (\<lambda>x. kind_of x = ''W'' \<or> kind_of x = ''R'') (OBJ_ARR s')"
proof -
  have s: "between s"
    using run_invariant [OF assms(1,2)] assms(4) by (simp add: run_ok_def between_def)
  have ends: "ends_well c r s'"
    using wpD [OF typed_event [OF s run_typed [OF assms(1-3)] assms(3)] assms(5)] .
  have two: "\<exists>f n t. l = f # n # t \<and> py_int n \<noteq> None" if "location_ok l" for l
    using that by (cases l; cases "tl l") (auto simp: location_ok_def)
  from ends obtain l0 l1 where loc: "bp_location s' = [l0, l1]" "location_ok l0" "location_ok l1"
    by (auto simp: ends_well_def typed_def)
  from two [OF loc(2)] two [OF loc(3)] obtain f0 n0 t0 f1 n1 t1
    where "bp_location s' = [f0 # n0 # t0, f1 # n1 # t1]" "py_int n0 \<noteq> None" "py_int n1 \<noteq> None"
    unfolding loc(1) by blast
  moreover have "(r = Ret () \<or> r = halted c) \<and> 2 \<le> length (bp_source s')" using ends by (auto simp: ends_well_def typed_def)
  moreover have "list_all (\<lambda>x. kind_of x = ''W'' \<or> kind_of x = ''R'') (OBJ_ARR s')"
    using ends unfolding ends_well_def typed_def kinds_ok_def by simp
  ultimately show ?thesis by blast
qed

lemma events_typed_witness:
  "\<exists>s s'. run trigger_config sim_api s \<and> run_event trigger_config sim_api (ReadHit 2) s = Some (Spin, s')
     \<and> 2 \<le> length (bp_source s')"
proof -
  obtain s s' where s: "run trigger_config sim_api s" "\<not> held s process_lock"
    "run_event trigger_config sim_api (ReadHit 2) s = Some (Spin, s')" by (rule sim_race_reached)
  from events_typed [OF s(1) sim_distinct sim_random s(2,3)] s show ?thesis by blast
qed

section \<open>Threads\<close>

text \<open>A write callback that has taken the lock, while a tick waits for it.\<close>

lemma sim_threads_reached:
  obtains ps s where "threads trigger_config sim_api ps s" "length ps = 2" "held s process_lock" "hd ps \<noteq> []" "ps \<noteq> []"
proof -
  obtain s where s: "lldb_init_module trigger_config sim_api (init_state sim_world) = Some (Ret (), s)"
    using sim_run_some by (auto simp: sim_run_def returned_def split: option.splits prod.splits outcome.splits)
  have free: "\<not> held s process_lock" using between_init [OF s] by (simp add: between_def)
  let ?ps = "[statements trigger_config sim_api (WriteCall 1), statements trigger_config sim_api TimerCall]"
  let ?rest = "inside trigger_config sim_api (WriteCall 1) @ release process_lock # after trigger_config sim_api (WriteCall 1)"
  have "threads trigger_config sim_api ([] @ [statements trigger_config sim_api (WriteCall 1)] @ [statements trigger_config sim_api TimerCall]) s"
    unfolding append_assoc [symmetric] by (intro threads_call threads_start) (use s in \<open>auto simp: loaded_def\<close>)
  then have two: "threads trigger_config sim_api ?ps s" by simp
  have "threads trigger_config sim_api (?ps[0 := ?rest]) (locked s)"
    by (rule threads_step [OF two, of 0 "acquire process_lock"])
       (use free in \<open>simp_all add: statements_def acquire_def locked_def\<close>)
  then show ?thesis by (rule that) simp_all
qed

text \<open>
  C13: the callbacks and the ticks of the timer are threads whose statements interleave, and the process lock makes
  them atomic: in every state the threads reach together, the globals are, up to the number of timers started,
  those of a run in which one event happens at a time, or those in the middle of one event after such a run; that
  event's thread then holds the lock, and every other thread has yet to take it or has given it back.
\<close>

theorem serialisable:
  assumes "threads c A ps s" and "distinct_ids A"
  shows "\<exists>s0. run c A s0 \<and>
    (s = s0\<lparr>timers := timers s\<rparr> \<and> list_all (outside c A) ps
     \<or> (\<exists>i e before todo s1. \<not> held s0 process_lock \<and> held s process_lock
          \<and> inside c A e = before @ todo \<and> i < length ps \<and> ps ! i = todo @ release process_lock # after c A e
          \<and> block (acquire process_lock # before) s0 = Some (Ret (), s1) \<and> s = s1\<lparr>timers := timers s\<rparr>
          \<and> list_all (outside c A) (ps[i := []])))"
  using threads_claim [OF assms]
proof
  assume "at_rest c A ps s"
  then show ?thesis unfolding at_rest_def by auto
next
  assume "\<exists>i. at_work c A i ps s"
  then obtain i s0 e before todo s1 n where s0: "run c A s0" "\<not> held s0 process_lock" and i: "i < length ps"
    and e: "inside c A e = before @ todo" "ps ! i = todo @ release process_lock # after c A e"
    and b: "block (acquire process_lock # before) s0 = Some (Ret (), s1)" "s = s1\<lparr>timers := n\<rparr>"
    and out: "\<And>j. j < length ps \<Longrightarrow> j \<noteq> i \<Longrightarrow> outside c A (ps ! j)"
    unfolding at_work_def by blast
  have "\<not> STATUS_FOUND s0" using run_invariant [OF s0(1) assms(2)] by (simp add: run_ok_def)
  from before_keeps(1) [OF e(1) b(1) s0(2) this] b(2) have "held s process_lock" by simp
  moreover have "list_all (outside c A) (ps[i := []])"
    using out i by (auto simp: list_all_length nth_list_update intro: outside.intros)
  moreover have "s = s1\<lparr>timers := timers s\<rparr>" using b(2) by simp
  ultimately show ?thesis using s0 i e b(1) by blast
qed

lemma serialisable_witness:
  "\<exists>ps s s0. threads trigger_config sim_api ps s \<and> length ps = 2 \<and> held s process_lock \<and> run trigger_config sim_api s0"
proof -
  obtain ps s where s: "threads trigger_config sim_api ps s" "length ps = 2" "held s process_lock" "hd ps \<noteq> []" "ps \<noteq> []"
    by (rule sim_threads_reached)
  from serialisable [OF s(1) sim_distinct] s show ?thesis by blast
qed

text \<open>
  C15: the threads do not deadlock: with an interface whose operations succeed after finitely many attempts, as long
  as a thread has something left to do, some thread can move, unless a session has been halted, and then the globals are
  those of a run that ended with the process lock held.
\<close>

theorem no_deadlock:
  assumes "threads c A ps s" and "distinct_ids A" and "prompt False A" and "p \<in> set ps" and "p \<noteq> []"
  shows "list_ex (\<lambda>q. can_move q s) ps \<or> (\<exists>s0. run c A s0 \<and> held s0 process_lock \<and> s = s0\<lparr>timers := timers s\<rparr>)"
  using threads_claim [OF assms(1,2)]
proof
  assume "at_rest c A ps s"
  then obtain s0 n where s0: "run c A s0" "s = s0\<lparr>timers := n\<rparr>" and out: "list_all (outside c A) ps"
    unfolding at_rest_def by blast
  show ?thesis
  proof (cases "held s process_lock")
    case True
    with s0 show ?thesis by auto
  next
    case False
    have "\<not> STATUS_FOUND s" using run_invariant [OF s0(1) assms(2)] s0(2) by (simp add: run_ok_def)
    with can_move_outside [OF _ assms(5) False] out assms(4) show ?thesis by (auto simp: list_ex_iff list_all_iff)
  qed
next
  assume "\<exists>i. at_work c A i ps s"
  then obtain i where i: "at_work c A i ps s" ..
  then have "i < length ps" unfolding at_work_def by blast
  with can_move_inside [OF i assms(2,3)] show ?thesis by (auto simp: list_ex_length)
qed

lemma no_deadlock_witness:
  "\<exists>ps s. threads trigger_config sim_api ps s \<and> length ps = 2 \<and>
     (list_ex (\<lambda>q. can_move q s) ps
      \<or> (\<exists>s0. run trigger_config sim_api s0 \<and> held s0 process_lock \<and> s = s0\<lparr>timers := timers s\<rparr>))"
proof -
  obtain ps s where s: "threads trigger_config sim_api ps s" "length ps = 2" "held s process_lock" "hd ps \<noteq> []" "ps \<noteq> []"
    by (rule sim_threads_reached)
  from no_deadlock [OF s(1) sim_distinct sim_prompt hd_in_set [OF s(5)] s(4)] s(1,2) show ?thesis by blast
qed

end
