(* ===== verification/TriggerFunctions.thy ===== *)
theory TriggerFunctions
  imports ExampleDebugger ValgrindParser
begin

text \<open>
  What the functions of \<open>scripts/conbreak/src/trigger/trigger.py\<close> do one by one: the tokens and addresses of a
  source line, the release of a thread, the removal of a thread that resumed, the suspended threads left
  after a match, the timer's patience, the breakpoint a line of a parsed report stands for.
\<close>

section \<open>Tokens\<close>

lemma split_passes_class:
  "split_passes chs (split_at P s) = split_at (\<lambda>x. P x \<or> x \<in> set chs) s"
proof (induction chs arbitrary: P)
  case Nil
  then show ?case by simp
next
  case (Cons ch chs)
  have "map (py_split ch) (split_at P s) = map (split_at (\<lambda>x. x = ch)) (split_at P s)"
    by (simp add: py_split_def)
  then have "split_passes (ch # chs) (split_at P s) = split_passes chs (split_at (\<lambda>x. P x \<or> x = ch) s)"
    by (simp only: split_passes.simps split_at_split_at)
  also have "\<dots> = split_at (\<lambda>x. (P x \<or> x = ch) \<or> x \<in> set chs) s" by (rule Cons.IH)
  finally show ?case by (simp add: disj_assoc)
qed

lemma split_passes_split: "split_passes chs [s] = split_at (\<lambda>x. x \<in> set chs) s"
proof -
  have "split_at (\<lambda>x. False) s = [s]" by (rule split_at_none) (simp add: list_all_iff)
  with split_passes_class [of chs "\<lambda>x. False" s] show ?thesis by simp
qed

fun strip_operators :: "string list \<Rightarrow> string \<Rightarrow> string" where
  "strip_operators [] t = t"
| "strip_operators (op # ops) t = strip_operators ops (py_remove op t)"

lemma remove_passes_map: "remove_passes ops ts = map (strip_operators ops) ts"
  by (induction ops arbitrary: ts) (simp_all add: map_idI)

lemma set_strip_operators: "set (strip_operators ops t) \<subseteq> set t"
proof (induction ops arbitrary: t)
  case (Cons op ops)
  then show ?case using set_py_remove [of op t] by auto
qed simp

lemma strip_single: "[d] \<in> set ops \<Longrightarrow> d \<notin> set (strip_operators ops t)"
proof (induction ops arbitrary: t)
  case (Cons op ops)
  show ?case
  proof (cases "[d] = op")
    case True
    then show ?thesis
      using set_strip_operators [of ops "py_remove op t"] by (auto simp: py_remove_single)
  next
    case False
    with Cons show ?thesis by auto
  qed
qed simp

text \<open>
  C21: the tokens of a source line are what lies between the delimiters, blank pieces dropped, each without
  the operators, empty ones dropped: the passes of \<open>split\<close>, one delimiter after the other, amount to one
  split at any of them. No token is empty or has a delimiter, \<open>!\<close>, \<open>*\<close> or \<open>&\<close> in it.
\<close>

theorem tokens_of_line:
  "src_tokens delims line = filter (\<lambda>t. t \<noteq> [])
      (map (strip_operators operators) (filter not_blank (split_at (\<lambda>x. x \<in> set delims) line)))
   \<and> list_all (\<lambda>t. t \<noteq> [] \<and> set t \<inter> (set delims \<union> set ''!*&'') = {}) (src_tokens delims line)"
proof
  show eq: "src_tokens delims line = filter (\<lambda>t. t \<noteq> [])
      (map (strip_operators operators) (filter not_blank (split_at (\<lambda>x. x \<in> set delims) line)))"
    by (simp add: src_tokens_def split_passes_split remove_passes_map)
  show "list_all (\<lambda>t. t \<noteq> [] \<and> set t \<inter> (set delims \<union> set ''!*&'') = {}) (src_tokens delims line)"
    unfolding list_all_iff
  proof
    fix t
    assume "t \<in> set (src_tokens delims line)"
    then obtain u where u: "t = strip_operators operators u" "u \<in> set (split_at (\<lambda>x. x \<in> set delims) line)"
      and ne: "t \<noteq> []" unfolding eq by auto
    from split_at_members [OF u(2)] have "set u \<inter> set delims = {}" by (auto simp: list_all_iff)
    then have "set t \<inter> set delims = {}" using set_strip_operators [of operators u] u(1) by blast
    moreover have "\<forall>ch \<in> set ''!*&''. [ch] \<in> set operators" by (simp add: operators_def)
    then have "\<forall>ch \<in> set ''!*&''. ch \<notin> set t" unfolding u(1) using strip_single by blast
    ultimately show "t \<noteq> [] \<and> set t \<inter> (set delims \<union> set ''!*&'') = {}" using ne by blast
  qed
qed

section \<open>Addresses\<close>

text \<open>The values of the tokens up to the first failing lookup, and the addresses among them.\<close>

fun lookup_all :: "(string \<Rightarrow> var_value) \<Rightarrow> string list \<Rightarrow> string + string list" where
  "lookup_all val [] = Inr []"
| "lookup_all val (t # ts) =
     (case val t of
        Fails e \<Rightarrow> Inl e
      | No_value \<Rightarrow> lookup_all val ts
      | Address h \<Rightarrow> map_sum (\<lambda>e. e) (\<lambda>as. h # as) (lookup_all val ts))"

lemma token_addrs_run:
  "token_addrs A frame ts acc s =
     (case lookup_all (\<lambda>t. GetValueForVariablePath A frame t (world s)) ts of
        Inl e \<Rightarrow> Some (Raise (OtherError e), s) | Inr as \<Rightarrow> Some (Ret (acc @ as), s))"
  by (induction ts arbitrary: acc)
     (auto simp: ret_def throw_def bnd_def ask_def get_def split: var_value.splits sum.splits)

text \<open>Writing a message leaves the world alone.\<close>

lemma out_run:
  assumes "ready s"
  obtains s' where "out c m s = Some (Ret (), s')" "alike s s'" "world s' = world s"
proof -
  have "wp False (out c m) (\<lambda>r s'. r = Ret () \<and> alike s s' \<and> world s' = world s) s"
    using assms by (simp add: out_def wp_simps ready_def alike_def)
  from wp_total [OF this] that show ?thesis by blast
qed

lemma maybe_out_run:
  assumes "ready s"
  obtains s' where "whenever b (out c m) s = Some (Ret (), s')" "alike s s'" "world s' = world s"
proof (cases b)
  case True
  obtain s' where "out c m s = Some (Ret (), s')" "alike s s'" "world s' = world s"
    by (rule out_run [OF assms])
  with True that show ?thesis by (simp add: whenever_def)
next
  case False
  with that [of s] show ?thesis by (simp add: whenever_def ret_def)
qed

lemma terminate_run:
  assumes "ready s"
  obtains s' where "terminate c A s = Some (halted c, s')" "alike (s\<lparr>OUTPUT_FD := ClosedFile\<rparr>) s'"
proof -
  have "wp False (terminate c A) (\<lambda>r s'. r = halted c \<and> alike (s\<lparr>OUTPUT_FD := ClosedFile\<rparr>) s') s"
    using assms by (intro wp_terminate noiseI) simp_all
  from wp_total [OF this] that show ?thesis by blast
qed

lemma message_terminate_run:
  assumes "ready s"
  obtains s' where "block [out c m, terminate c A] s = Some (halted c, s')"
proof -
  have "wp False (block [out c m, terminate c A]) (\<lambda>r s'. r = halted c) s"
    using assms by (intro wp_message_terminate noiseI) simp_all
  from wp_total [OF this] that show ?thesis by blast
qed

lemma get_addr_run:
  assumes "ready s"
  shows "\<exists>r s'. get_addr c A frame line s = Some (r, s') \<and>
    (if FrameIsValid A frame (world s)
     then case lookup_all (\<lambda>t. GetValueForVariablePath A frame t (world s)) (src_tokens (break_chars c) line) of
            Inl e \<Rightarrow> r = halted c
          | Inr as \<Rightarrow> if as = [] then r = halted c else r = Ret as \<and> alike s s'
     else r = halted c)"
proof -
  let ?tokens = "src_tokens (break_chars c) line"
  let ?look = "lookup_all (\<lambda>t. GetValueForVariablePath A frame t (world s)) ?tokens"
  let ?warn = "whenever (?tokens = []) (out c ''####### WARN: Couldn't obtain source code line #######'')"
  let ?rest = "\<lambda>addrs. bnd (whenever (length addrs = 0) (block
      [out c ''####### ERROR: No variables found! Stop!! #######'', terminate c A])) (\<lambda>_. ret addrs)"
  let ?body = "bnd ?warn (\<lambda>_. bnd (out c (str_strings ?tokens)) (\<lambda>_. bnd (token_addrs A frame ?tokens []) ?rest))"
  let ?handler = "\<lambda>e. bnd (block
      [out c ''####### ERROR: Unable to extract variable name from source #######'',
       out c (exn_class e), terminate c A]) (\<lambda>_. ret [])"
  have unf: "get_addr c A frame line s = (if FrameIsValid A frame (world s) then try_except ?body ?handler s
      else bnd (block [out c '' ####### ERROR: Couldn't obtain frame ####### '', terminate c A])
             (\<lambda>_. try_except ?body ?handler) s)"
    unfolding get_addr_def Let_def bnd_ask
    by (cases "FrameIsValid A frame (world s)") (simp_all only: bnd_whenever simp_thms if_True if_False)
  have halt_pass: "pass_on k (halted c) s' = Some (halted c, s')" for k :: "unit \<Rightarrow> _" and s'
    by (simp add: halted_def)
  show ?thesis
  proof (cases "FrameIsValid A frame (world s)")
    case False
    obtain s' where "block [out c '' ####### ERROR: Couldn't obtain frame ####### '', terminate c A] s
        = Some (halted c, s')" by (rule message_terminate_run [OF assms])
    then have "get_addr c A frame line s = Some (halted c, s')"
      unfolding unf using False by (simp add: bnd_def [of "block _"] halt_pass del: block.simps)
    with False show ?thesis by simp
  next
    case True
    obtain s1 where s1: "?warn s = Some (Ret (), s1)" "alike s s1" "world s1 = world s"
      by (rule maybe_out_run [OF assms])
    obtain s2 where s2: "out c (str_strings ?tokens) s1 = Some (Ret (), s2)" "alike s1 s2" "world s2 = world s1"
      using out_run [OF ready_alike [OF assms s1(2)]] by blast
    have al: "alike s s2" and rd: "ready s2"
      using alike_trans [OF s1(2) s2(2)] ready_alike [OF assms] by blast+
    have body: "?body s = bnd (token_addrs A frame ?tokens []) ?rest s2"
      using s1(1) s2(1) by (simp add: bnd_def [of ?warn] bnd_def [of "out c _"])
    show ?thesis
    proof (cases ?look)
      case (Inl e)
      then have "?body s = Some (Raise (OtherError e), s2)"
        unfolding body by (simp add: bnd_def [of "token_addrs _ _ _ _"] token_addrs_run s1 s2)
      then have "get_addr c A frame line s = ?handler (OtherError e) s2"
        unfolding unf using True by (simp add: try_except_def del: block.simps)
      moreover have "wp False (?handler (OtherError e)) (\<lambda>r s'. r = halted c) s2"
        unfolding wp_bnd
        by (rule wp_quiet_block [OF quiet_out rd], rule wp_message_terminate) (auto intro: noiseI)
      ultimately show ?thesis using wp_total True Inl by fastforce
    next
      case (Inr as)
      then have body2: "?body s = ?rest as s2"
        unfolding body by (simp add: bnd_def [of "token_addrs _ _ _ _"] token_addrs_run s1 s2)
      show ?thesis
      proof (cases "as = []")
        case False
        then have "?body s = Some (Ret as, s2)"
          unfolding body2 by (simp add: bnd_whenever ret_def)
        with True Inr False al show ?thesis unfolding unf by (simp add: try_except_def)
      next
        case empty: True
        obtain s' where "block [out c ''####### ERROR: No variables found! Stop!! #######'', terminate c A] s2
            = Some (halted c, s')" by (rule message_terminate_run [OF rd])
        then have "?body s = Some (halted c, s')"
          unfolding body2 using empty
          by (simp add: bnd_whenever bnd_def [of "block _"] halt_pass del: block.simps)
        then have "get_addr c A frame line s = Some (halted c, s')"
          unfolding unf using True by (simp add: try_except_def halted_def)
        with True Inr empty show ?thesis by simp
      qed
    qed
  qed
qed

text \<open>
  C22: with a valid frame, \<open>get_addr\<close> returns the addresses of those tokens of the source line that have one in
  that frame, in order; if a lookup throws, or no token has an address, the session is halted and
  nothing is returned. An invalid frame halts as well. A caller never sees an empty list.
\<close>

theorem addresses_of_line:
  assumes "ready s"
  shows "\<exists>r s'. get_addr c A frame line s = Some (r, s') \<and>
    (if FrameIsValid A frame (world s)
     then case lookup_all (\<lambda>t. GetValueForVariablePath A frame t (world s)) (src_tokens (break_chars c) line) of
            Inl e \<Rightarrow> r = halted c
          | Inr as \<Rightarrow> if as = [] then r = halted c else r = Ret as \<and> alike s s'
     else r = halted c)"
  by (rule get_addr_run [OF assms])

lemma addresses_of_line_witness:
  "\<exists>s'. get_addr trigger_config sim_api 1 ''x = 1;'' sim_state = Some (Ret [''0x10''], s') \<and> alike sim_state s'"
proof -
  have "src_tokens (break_chars trigger_config) ''x = 1;'' = [''x'', ''1'']" by code_simp
  then have "lookup_all (\<lambda>t. GetValueForVariablePath sim_api 1 t (world sim_state))
      (src_tokens (break_chars trigger_config) ''x = 1;'') = Inr [''0x10'']"
    by (simp add: sim_api_def)
  moreover have "FrameIsValid sim_api 1 (world sim_state)" by (simp add: sim_api_def)
  moreover have "ready sim_state" using sim_state_between by (simp add: between_def)
  ultimately show ?thesis using addresses_of_line [of sim_state trigger_config sim_api 1 "''x = 1;''"] by auto
qed

section \<open>Releasing threads\<close>

text \<open>
  C23: \<open>release_bp\<close>, with operations that succeed after finitely many attempts, ends and leaves every lock as
  it was: it returns \<open>False\<close> and takes nothing when the process is invalid or no thread is held;
  otherwise it returns \<open>True\<close> and takes exactly the entry the random choice names.
\<close>

theorem release_takes_one:
  assumes "ready s" and "prompt False A" and "random_ok A"
  shows "\<exists>r s'. release_bp c A s = Some (r, s') \<and> held s' = held s \<and> ready s' \<and>
    (if \<not> IsValid A (world s) \<or> OBJ_ARR s = [] then r = Ret False \<and> OBJ_ARR s' = OBJ_ARR s
     else r = Ret True \<and> fst (randrange A (length (OBJ_ARR s)) (world s)) < length (OBJ_ARR s)
        \<and> OBJ_ARR s' = del_at (fst (randrange A (length (OBJ_ARR s)) (world s))) (OBJ_ARR s)
        \<and> Suc (length (OBJ_ARR s')) = length (OBJ_ARR s))"
proof -
  let ?i = "fst (randrange A (length (OBJ_ARR s)) (world s))"
  have "wp False (release_bp c A) (\<lambda>r s'. held s' = held s \<and> ready s' \<and>
    (if \<not> IsValid A (world s) \<or> OBJ_ARR s = [] then r = Ret False \<and> OBJ_ARR s' = OBJ_ARR s
     else r = Ret True \<and> ?i < length (OBJ_ARR s) \<and> OBJ_ARR s' = del_at ?i (OBJ_ARR s)
        \<and> Suc (length (OBJ_ARR s')) = length (OBJ_ARR s))) s"
  proof (rule wp_release_bp [OF assms(1,2)])
    assume "OBJ_ARR s \<noteq> []" and le: "length (OBJ_ARR s) \<le> ?i"
    then have "?i < length (OBJ_ARR s)" using assms(3) by (simp add: random_ok_def)
    with le show "noise (\<lambda>s'. held s' = held s \<and> ready s' \<and>
      (if \<not> IsValid A (world s) \<or> OBJ_ARR s = [] then Raise IndexError = Ret False \<and> OBJ_ARR s' = OBJ_ARR s
       else Raise IndexError = Ret True \<and> ?i < length (OBJ_ARR s) \<and> OBJ_ARR s' = del_at ?i (OBJ_ARR s)
          \<and> Suc (length (OBJ_ARR s')) = length (OBJ_ARR s))) s"
      by simp
  qed (use assms(1) in \<open>auto intro!: noiseI simp: alike_def ready_def length_del_at\<close>)
  from wp_total [OF this] show ?thesis .
qed

lemma release_takes_one_witness:
  "\<exists>s'. release_bp trigger_config sim_api sim_state = Some (Ret True, s') \<and> OBJ_ARR s' = []"
proof -
  have "ready sim_state" using sim_state_between by (simp add: between_def)
  moreover have "IsValid sim_api (world sim_state)" by (simp add: sim_api_def)
  moreover have "length (OBJ_ARR sim_state) = 1" "OBJ_ARR sim_state \<noteq> []" by (simp_all add: sim_state_def)
  ultimately show ?thesis
    using release_takes_one [OF _ sim_prompt sim_random, of sim_state trigger_config] by fastforce
qed

section \<open>Threads left suspended\<close>

text \<open>
  What LLDB documents of \<open>SBThread.Resume\<close>: on success the thread is no longer suspended, no other thread's
  state changes, and no thread comes or goes; a failed call or a pause changes no suspension.
\<close>

definition resume_law :: "('w, 't, 'f) lldb_api \<Rightarrow> bool" where
  "resume_law A \<longleftrightarrow> (\<forall>t w ok w'. Resume A t w = (ok, w') \<longrightarrow> ProcessThreads A w' = ProcessThreads A w
       \<and> (\<forall>u. u \<noteq> t \<longrightarrow> IsSuspended A u w' = IsSuspended A u w) \<and> (ok \<longrightarrow> \<not> IsSuspended A t w'))
     \<and> (\<forall>w. ProcessThreads A (time_sleep A w) = ProcessThreads A w
       \<and> (\<forall>u. IsSuspended A u (time_sleep A w) = IsSuspended A u w))"

definition resumed :: "('w, 't, 'f) lldb_api \<Rightarrow> 't set \<Rightarrow> 'w tstate \<Rightarrow> 'w tstate \<Rightarrow> bool" where
  "resumed A T s s' \<longleftrightarrow> alike s s' \<and> ProcessThreads A (world s') = ProcessThreads A (world s)
     \<and> (\<forall>u. IsSuspended A u (world s') = (IsSuspended A u (world s) \<and> u \<notin> T))"

lemma wp_out_world:
  assumes "ready s" and "\<And>s'. alike s s' \<Longrightarrow> world s' = world s \<Longrightarrow> Q (Ret ()) s'"
  shows "wp b (out c m) Q s"
proof -
  obtain s' where "out c m s = Some (Ret (), s')" "alike s s'" "world s' = world s"
    by (rule out_run [OF assms(1)])
  with assms(2) show ?thesis by (simp add: wp_def)
qed

lemma wp_resume_one:
  assumes ready: "ready s" and law: "resume_law A"
    and Q: "\<And>s'. resumed A {t} s s' \<Longrightarrow> Q (Ret ()) s'"
  shows "wp True (retry_call c A (Resume A t) m) Q s"
proof -
  define I where "I = (\<lambda>s'. alike s s' \<and> ProcessThreads A (world s') = ProcessThreads A (world s)
      \<and> (\<forall>u. u \<noteq> t \<longrightarrow> IsSuspended A u (world s') = IsSuspended A u (world s)))"
  have start: "I s" by (simp add: I_def)
  have test: "wp True (act (Resume A t)) (at_seq (\<lambda>b s'. if b then Q (Ret ()) s' else I s') Q) s1"
    if I: "I s1" for s1
  proof -
    obtain ok w' where w': "Resume A t (world s1) = (ok, w')" by fastforce
    with law have res: "ProcessThreads A w' = ProcessThreads A (world s1)"
      "\<And>u. u \<noteq> t \<Longrightarrow> IsSuspended A u w' = IsSuspended A u (world s1)" "ok \<Longrightarrow> \<not> IsSuspended A t w'"
      unfolding resume_law_def by blast+
    have I': "I (s1\<lparr>world := w'\<rparr>)" using res(1,2) I by (simp add: I_def)
    have "resumed A {t} s (s1\<lparr>world := w'\<rparr>)" if ok
    proof -
      have "IsSuspended A u w' = (IsSuspended A u (world s) \<and> u \<notin> {t})" for u
        using res(2) [of u] res(3) [OF that] I by (cases "u = t") (simp_all add: I_def)
      with I' show ?thesis by (simp add: resumed_def I_def)
    qed
    with I' show ?thesis using w' Q by (simp add: wp_simps)
  qed
  have body: "wp True (block [out c m, perform (time_sleep A)]) (at_seq (\<lambda>_. I) Q) s1" if I: "I s1" for s1
  proof (subst wp_block, rule wp_out_world)
    have al: "alike s s1" using I by (simp add: I_def)
    then show "ready s1" by (rule ready_alike [OF ready])
    fix s2
    assume s2: "alike s1 s2" "world s2 = world s1"
    have "I (s2\<lparr>world := time_sleep A (world s2)\<rparr>)"
      using I law s2(2) alike_trans [OF al s2(1)] by (simp add: I_def resume_law_def)
    then show "at_seq (\<lambda>_. wp True (block [perform (time_sleep A)]) (at_seq (\<lambda>_. I) Q)) (at_seq (\<lambda>_. I) Q) (Ret ()) s2"
      by (simp add: wp_simps)
  qed
  show ?thesis
    unfolding retry_call_def by (rule wp_until_partial [of I _ _ _ I, OF start test body])
qed

text \<open>
  The loop's invariant: a thread that is suspended was so before, the excepted ones still are if they were,
  and of the others only those still to come can be.
\<close>

definition spared :: "('w, 't, 'f) lldb_api \<Rightarrow> nat set \<Rightarrow> 'w tstate \<Rightarrow> 't list \<Rightarrow> 'w tstate \<Rightarrow> bool" where
  "spared A except s us s' \<longleftrightarrow> alike s s'
     \<and> (\<forall>t. IsSuspended A t (world s') \<longrightarrow> IsSuspended A t (world s))
     \<and> (\<forall>t. GetThreadID A t \<in> except \<longrightarrow> IsSuspended A t (world s) \<longrightarrow> IsSuspended A t (world s'))
     \<and> (\<forall>t \<in> set (ProcessThreads A (world s)) - set us.
          GetThreadID A t \<notin> except \<longrightarrow> \<not> IsSuspended A t (world s'))"

lemma spared_start: "spared A except s (ProcessThreads A (world s)) s"
  by (simp add: spared_def)

lemma spared_end:
  "spared A except s [] s' \<Longrightarrow> t \<in> set (ProcessThreads A (world s))
   \<Longrightarrow> IsSuspended A t (world s') \<longleftrightarrow> IsSuspended A t (world s) \<and> GetThreadID A t \<in> except"
  unfolding spared_def by auto

lemma spared_skip:
  "spared A except s (t # us) s' \<Longrightarrow> GetThreadID A t \<in> except \<or> \<not> IsSuspended A t (world s')
   \<Longrightarrow> spared A except s us s'"
  unfolding spared_def by auto

lemma spared_resumed:
  assumes "spared A except s (t # us) s1" and "resumed A {t} s1 s2" and "GetThreadID A t \<notin> except"
  shows "spared A except s us s2"
proof -
  from assms(2) have al: "alike s1 s2"
    and sus: "\<And>u. IsSuspended A u (world s2) \<longleftrightarrow> IsSuspended A u (world s1) \<and> u \<noteq> t"
    by (simp_all add: resumed_def)
  from assms(1) have "alike s s1" by (simp add: spared_def)
  from this al have "alike s s2" by (rule alike_trans)
  moreover have "\<forall>u. IsSuspended A u (world s2) \<longrightarrow> IsSuspended A u (world s)"
    using assms(1) by (simp add: spared_def sus)
  moreover have "\<forall>u. GetThreadID A u \<in> except \<longrightarrow> IsSuspended A u (world s) \<longrightarrow> IsSuspended A u (world s2)"
    using assms(1,3) unfolding spared_def sus by blast
  moreover have "\<forall>u \<in> set (ProcessThreads A (world s)) - set us.
      GetThreadID A u \<notin> except \<longrightarrow> \<not> IsSuspended A u (world s2)"
    using assms(1) unfolding spared_def sus by auto
  ultimately show ?thesis unfolding spared_def by simp
qed

lemma wp_resume_threads_spared:
  assumes "ready s" and "resume_law A"
  shows "wp True (resume_threads c A except) (\<lambda>r s'. r = Ret () \<and> spared A except s [] s') s"
  unfolding resume_threads_def
proof (subst wp_bnd, unfold wp_ask at_seq_fun, subst wp_bnd)
  let ?Q = "\<lambda>r s'. r = Ret () \<and> spared A except s [] s'"
  let ?last = "\<lambda>_::unit. wp True (out c ''####### INFO: THREADS RESUMED. #######'') ?Q"
  let ?step = "\<lambda>thd. if GetThreadID A thd \<in> except then ret ()
      else bnd (ask (IsSuspended A thd)) (\<lambda>suspended.
             whenever suspended (retry_call c A (Resume A thd) resume_msg))"
  have final: "?last () s1" if "spared A except s [] s1" for s1
  proof (rule wp_out_world)
    show "ready s1" using that ready_alike [OF assms(1)] by (simp add: spared_def)
    fix s2
    assume "alike s1 s2" and w: "world s2 = world s1"
    moreover have "alike s s1" using that by (simp add: spared_def)
    ultimately have "alike s s2" by (meson alike_trans)
    with that show "?Q (Ret ()) s2" by (simp add: spared_def w)
  qed
  show "wp True (for_each (ProcessThreads A (world s)) ?step) (at_seq ?last ?Q) s"
  proof (rule wp_for_each_inv [of "spared A except s"])
    show "spared A except s (ProcessThreads A (world s)) s" by (rule spared_start)
  next
    fix s1
    assume "spared A except s [] s1"
    then show "at_seq ?last ?Q (Ret ()) s1" unfolding at_seq_fun by (rule final)
  next
    fix t us s1
    assume "set (t # us) \<subseteq> set (ProcessThreads A (world s))" and I: "spared A except s (t # us) s1"
    let ?R = "at_seq (\<lambda>_::unit. spared A except s us) (at_seq ?last ?Q)"
    have r1: "ready s1" using I ready_alike [OF assms(1)] by (simp add: spared_def)
    have retry: "wp True (retry_call c A (Resume A t) resume_msg) ?R s1" if "GetThreadID A t \<notin> except"
    proof (rule wp_resume_one [OF r1 assms(2)], unfold at_seq_fun)
      fix s2
      assume "resumed A {t} s1 s2"
      from spared_resumed [OF I this that] show "spared A except s us s2" .
    qed
    show "wp True (?step t) ?R s1"
    proof (cases "GetThreadID A t \<in> except")
      case True
      with spared_skip [OF I] show ?thesis by (simp add: wp_ret_fun)
    next
      case False
      show ?thesis
      proof (cases "IsSuspended A t (world s1)")
        case True
        with False retry [OF False] show ?thesis
          by (simp only: if_False wp_bnd wp_ask at_seq_fun wp_whenever if_True)
      next
        case sus: False
        then have "spared A except s us s1" using spared_skip [OF I] by blast
        with False sus show ?thesis
          by (simp only: if_False wp_bnd wp_ask at_seq_fun wp_whenever)
      qed
    qed
  qed
qed

text \<open>
  C24: when \<open>resume_threads\<close> returns, the threads that are suspended are those that were and that the call
  excepts: after a match, of all the threads of the process only the racing ones stay
  suspended (if they were), for the user to look at.
\<close>

theorem resume_threads_spares:
  assumes "ready s" and "resume_law A" and "resume_threads c A except s = Some (Ret (), s')"
    and "t \<in> set (ProcessThreads A (world s))"
  shows "IsSuspended A t (world s') \<longleftrightarrow> IsSuspended A t (world s) \<and> GetThreadID A t \<in> except"
  using wpD [OF wp_resume_threads_spared [OF assms(1,2)] assms(3)] spared_end [OF _ assms(4)] by blast

definition sim_suspended :: "sim tstate" where
  "sim_suspended = sim_state\<lparr>world := sim_world\<lparr>sim_susp := [1, 2]\<rparr>\<rparr>"

lemma sim_resume_law: "resume_law sim_api"
  by (simp add: resume_law_def sim_api_def)

lemma sim_resumes: "case resume_threads trigger_config sim_api {1} sim_suspended of
    Some (Ret (), s) \<Rightarrow> True | _ \<Rightarrow> False"
  by code_simp

lemma resume_threads_spares_witness:
  "\<exists>s. resume_threads trigger_config sim_api {1} sim_suspended = Some (Ret (), s)
     \<and> IsSuspended sim_api 1 (world s) \<and> \<not> IsSuspended sim_api 2 (world s)"
proof -
  obtain s where s: "resume_threads trigger_config sim_api {1} sim_suspended = Some (Ret (), s)"
    using sim_resumes by (auto split: option.splits outcome.splits)
  have ready: "ready sim_suspended"
    by (simp add: sim_suspended_def sim_state_def init_state_def ready_def)
  have "t \<in> set (ProcessThreads sim_api (world sim_suspended))
      \<Longrightarrow> IsSuspended sim_api t (world s) \<longleftrightarrow> IsSuspended sim_api t (world sim_suspended) \<and> GetThreadID sim_api t \<in> {1}" for t
    by (rule resume_threads_spares [OF ready sim_resume_law s])
  from this [of 1] this [of 2] s show ?thesis
    by (simp add: sim_suspended_def sim_world_def sim_api_def)
qed

end
