(* ===== verification/TriggerRaces.thy ===== *)
theory TriggerRaces
  imports TriggerFunctions TriggerThreads
begin

text \<open>
  A whole callback, from the breakpoint to the verdict: the frame of the thread that stopped, the access its line
  stands for, the addresses of the variables on that line and the search among the recorded threads, composed as the
  callbacks compose them. What the debugger shows of a stopped process enters by the hypothesis \<open>shows_same\<close>.
\<close>

section \<open>What the debugger shows\<close>

definition view :: "('w, 't, 'f) lldb_api \<Rightarrow> 'w \<Rightarrow> 't list \<times> ('t \<Rightarrow> bool) \<times> ('t \<Rightarrow> 'f) \<times> ('t \<Rightarrow> 'f) \<times> ('f \<Rightarrow> int)
    \<times> ('f \<Rightarrow> bool) \<times> ('f \<Rightarrow> string \<Rightarrow> var_value)" where
  "view A w = (ProcessThreads A w, \<lambda>t. StopReasonBreakpoint A t w, \<lambda>t. GetFrameAtIndex0 A t w, \<lambda>t. GetSelectedFrame A t w,
     \<lambda>fr. FrameLine A fr w, \<lambda>fr. FrameIsValid A fr w, \<lambda>fr tok. GetValueForVariablePath A fr tok w)"

text \<open>Marking a thread as suspended, reading the clock and waiting do not move a stopped process.\<close>

definition shows_same :: "('w, 't, 'f) lldb_api \<Rightarrow> bool" where
  "shows_same A \<longleftrightarrow> (\<forall>w. view A (time_sleep A w) = view A w \<and> (\<forall>t. view A (snd (Suspend A t w)) = view A w))"

lemma viewD:
  assumes "view A w = view A w'"
  shows "ProcessThreads A w = ProcessThreads A w'" "StopReasonBreakpoint A t w = StopReasonBreakpoint A t w'"
    "GetFrameAtIndex0 A t w = GetFrameAtIndex0 A t w'" "GetSelectedFrame A t w = GetSelectedFrame A t w'"
    "FrameLine A fr w = FrameLine A fr w'" "FrameIsValid A fr w = FrameIsValid A fr w'"
    "GetValueForVariablePath A fr tok w = GetValueForVariablePath A fr tok w'"
  using assms unfolding view_def prod.inject by (blast dest: fun_cong)+

lemma keeps_world [keeps_intros]:
  "keeps (\<lambda>s. g (world s)) (acquire l)" "keeps (\<lambda>s. g (world s)) (release l)"
  "keeps (\<lambda>s. g (world s)) (py_print m)" "keeps (\<lambda>s. g (world s)) (fd_write m)"
  by (auto simp: keeps_def acquire_def release_def modify_def py_print_def fd_write_def split: if_splits fd_state.splits)

lemma keeps_world_out [keeps_intros]: "keeps (\<lambda>s. g (world s)) (out c m)"
  unfolding out_def by (intro keeps_intros)

lemma keeps_view_suspend:
  assumes "shows_same A"
  shows "keeps (\<lambda>s. view A (world s)) (retry_call c A (Suspend A t) m)"
proof -
  have "keeps (\<lambda>s. view A (world s)) (act (Suspend A t))" "keeps (\<lambda>s. view A (world s)) (perform (time_sleep A))"
    using assms by (auto simp: keeps_def act_def call_def perform_def modify_def shows_same_def split: prod.splits) (metis snd_conv)
  then show ?thesis
    unfolding retry_call_def by (intro keeps_until keeps_block keeps_world_out)
qed

text \<open>A quiet statement that keeps the view.\<close>

lemma wp_keeps: "wp b m Q s \<Longrightarrow> keeps g m \<Longrightarrow> wp b m (\<lambda>r s'. Q r s' \<and> g s' = g s) s"
  by (auto simp: wp_def keeps_def split: option.splits)

lemma wp_watching:
  assumes "quiet b m" and "keeps g m" and "ready s"
    and "\<And>s'. alike s s' \<Longrightarrow> ready s' \<Longrightarrow> g s' = g s \<Longrightarrow> Q (Ret ()) s'"
  shows "wp b m Q s"
proof (rule wp_mono)
  show "wp b m (\<lambda>r s'. (r = Ret () \<and> alike s s' \<and> ready s') \<and> g s' = g s) s"
    by (rule wp_keeps [OF wp_quiet [OF assms(1,3)] assms(2)]) simp
qed (use assms(4) in auto)

lemma wp_watching_seq:
  assumes "quiet b m" and "keeps g m" and "ready s"
    and "\<And>s'. alike s s' \<Longrightarrow> ready s' \<Longrightarrow> g s' = g s \<Longrightarrow> wp b (k ()) Q s'"
  shows "wp b (bnd m k) Q s"
  unfolding wp_bnd by (rule wp_watching [OF assms(1-3)]) (simp add: assms(4))

section \<open>The verdict\<close>

definition verdict :: "config \<Rightarrow> string list \<Rightarrow> watch list \<Rightarrow> watch \<Rightarrow> unit outcome \<Rightarrow> watch list \<Rightarrow> bool" where
  "verdict c src objs arr r objs' \<longleftrightarrow>
     (if \<exists>x \<in> set objs. conflict src x arr then r = halted c \<and> objs' = objs
      else r = Ret () \<and> (objs' = objs @ [arr] \<or> (\<exists>i \<le> length objs. objs' = del_at i (objs @ [arr]))))"

definition judged :: "config \<Rightarrow> 'w tstate \<Rightarrow> watch \<Rightarrow> unit outcome \<Rightarrow> 'w tstate \<Rightarrow> bool" where
  "judged c s arr r s' \<longleftrightarrow> verdict c (bp_source s) (OBJ_ARR s) arr r (OBJ_ARR s') \<and> (r = Ret () \<longrightarrow> ready s')"

lemma noise_judged: "judged c s arr r s1 \<Longrightarrow> noise (judged c s arr r) s1"
  by (rule noiseI) (auto simp: judged_def alike_def ready_def)

lemma wp_judged:
  assumes ready: "ready s" and prompt: "prompt b A" and random: "random_ok A" and lt: "lt \<le> 1"
    and src: "same_source (bp_source s) \<noteq> None"
  shows "wp b (breakpoint_match_check c A as lt ID) (judged c s (entry_for as lt ID)) s"
proof (rule wp_breakpoint_match_check [OF ready prompt lt])
  let ?arr = "entry_for as lt ID"
  assume "matches_in (bp_source s) (OBJ_ARR s) ?arr = None"
  with src show "noise (judged c s ?arr (Raise IndexError)) s" by (simp add: matches_in_None)
next
  fix ms
  assume "matches_in (bp_source s) (OBJ_ARR s) (entry_for as lt ID) = Some ms" "ms \<noteq> []"
  with no_match_iff [OF this(1)] show "noise (judged c s (entry_for as lt ID) (halted c)) (s\<lparr>OUTPUT_FD := ClosedFile\<rparr>)"
    by (intro noise_judged) (simp add: judged_def verdict_def)
next
  fix t i
  assume m: "matches_in (bp_source s) (OBJ_ARR s) (entry_for as lt ID) = Some []"
  from no_match_iff [OF m] ready
  show "noise (judged c s (entry_for as lt ID) (Ret ())) (s\<lparr>LAST_BREAK := t, OBJ_ARR := OBJ_ARR s @ [entry_for as lt ID]\<rparr>)"
    by (intro noise_judged) (simp add: judged_def verdict_def)
  from no_match_iff [OF m] ready show "i \<le> length (OBJ_ARR s) \<Longrightarrow> noise (judged c s (entry_for as lt ID) (Ret ()))
      (s\<lparr>LAST_BREAK := t, OBJ_ARR := del_at i (OBJ_ARR s @ [entry_for as lt ID])\<rparr>)"
    by (intro noise_judged) (auto simp: judged_def verdict_def)
  assume "\<not> random_ok A"
  with random show "noise (judged c s (entry_for as lt ID) (Raise IndexError))
      (s\<lparr>LAST_BREAK := t, OBJ_ARR := OBJ_ARR s @ [entry_for as lt ID]\<rparr>)" by simp
qed

lemma wp_get_addr_found:
  assumes "ready s" and "FrameIsValid A fr (world s)"
    and "lookup_all (\<lambda>tok. GetValueForVariablePath A fr tok (world s)) (src_tokens (break_chars c) line) = Inr as" and "as \<noteq> []"
    and "\<And>s'. alike s s' \<Longrightarrow> Q (Ret as) s'"
  shows "wp b (get_addr c A fr line) Q s"
  using get_addr_run [OF assms(1), of c A fr line] assms(2-) by (auto simp: wp_def)

section \<open>The thread that stopped\<close>

text \<open>The access whose line a frame is at: 0 for the write's, 1 for the read's.\<close>

definition bp_line :: "'w tstate \<Rightarrow> nat \<Rightarrow> int option" where
  "bp_line s k = py_int (bp_location s ! k ! 1)"

definition access_at :: "('w, 't, 'f) lldb_api \<Rightarrow> 'w tstate \<Rightarrow> 'f \<Rightarrow> nat option" where
  "access_at A s fr = (if bp_line s 0 = Some (FrameLine A fr (world s)) then Some 0
     else if bp_line s 1 = Some (FrameLine A fr (world s)) then Some 1 else None)"

definition line_addrs :: "config \<Rightarrow> ('w, 't, 'f) lldb_api \<Rightarrow> 'w tstate \<Rightarrow> 'f \<Rightarrow> nat \<Rightarrow> string + string list" where
  "line_addrs c A s fr k =
     lookup_all (\<lambda>tok. GetValueForVariablePath A fr tok (world s)) (src_tokens (break_chars c) (bp_source s ! k))"

lemma access_same:
  assumes "bp_location s1 = bp_location s" and "view A (world s1) = view A (world s)"
  shows "access_at A s1 fr = access_at A s fr"
  unfolding access_at_def bp_line_def assms(1) viewD(5) [OF assms(2)] by (rule refl)

lemma line_addrs_same:
  assumes "bp_source s1 = bp_source s" and "view A (world s1) = view A (world s)"
  shows "line_addrs c A s1 fr k = line_addrs c A s fr k"
  unfolding line_addrs_def assms(1) viewD(7) [OF assms(2)] by (rule refl)

lemma access_le: "access_at A s fr = Some k \<Longrightarrow> k \<le> 1"
  by (auto simp: access_at_def split: if_splits)

lemma wp_location:
  assumes "typed s" and "k \<le> 1"
  shows "wp b (location_line (int k)) Q s = (case bp_line s k of None \<Rightarrow> False | Some n \<Rightarrow> Q (Ret n) s)"
proof -
  obtain l0 l1 where l: "bp_location s = [l0, l1]" "location_ok l0" "location_ok l1" using assms(1) by (auto simp: typed_def)
  have "k = 0 \<or> k = 1" using assms(2) by auto
  with l show ?thesis
    by (auto simp: location_line_def wp_simps py_index_def location_ok_def bp_line_def split: option.splits)
qed

lemma wp_source_seq:
  assumes "typed s" and "k \<le> 1"
  shows "wp b (bnd (source_line (int k)) f) Q s = wp b (f (bp_source s ! k)) Q s"
  using assms by (auto simp: source_line_def wp_simps py_index_def typed_def)

lemma wp_dispatch:
  fixes fr :: 'f and line :: int
  assumes typed: "typed s" and k: "access_at A s fr = Some k" and line: "line = FrameLine A fr (world s)"
    and check: "wp b (bnd (bnd (source_line (int k)) (get_addr c A fr)) (\<lambda>addrs. breakpoint_match_check c A addrs k ID)) Q s"
  shows "wp b (bnd (location_line 0) (\<lambda>line0.
     if line = line0 then
       bnd (bnd (source_line 0) (get_addr c A fr)) (\<lambda>addrs. breakpoint_match_check c A addrs 0 ID)
     else
     bnd (ask (FrameLine A fr)) (\<lambda>line.
     bnd (location_line 1) (\<lambda>line1.
     if line = line1 then
       bnd (bnd (source_line 1) (get_addr c A fr)) (\<lambda>addrs. breakpoint_match_check c A addrs 1 ID)
     else block [out c ''####### ERROR: thd.GetSelectedFrame FAILED. #######'', terminate c A])))) Q s"
proof (cases "k = 0")
  case True
  with k have "bp_line s 0 = Some line" by (auto simp: access_at_def line split: if_splits)
  with check True show ?thesis using wp_location [OF typed, of 0 b] by (subst wp_bnd) simp
next
  case False
  with k have k1: "k = 1" "bp_line s 1 = Some line" "bp_line s 0 \<noteq> Some line"
    by (auto simp: access_at_def line split: if_splits)
  have "bp_line s 0 \<noteq> None" using typed by (auto simp: typed_def location_ok_def bp_line_def)
  then obtain n where n: "bp_line s 0 = Some n" by auto
  with k1(3) have "line \<noteq> n" by auto
  moreover have "wp b (bnd (ask (FrameLine A fr)) (\<lambda>line.
     bnd (location_line 1) (\<lambda>line1.
     if line = line1 then
       bnd (bnd (source_line 1) (get_addr c A fr)) (\<lambda>addrs. breakpoint_match_check c A addrs 1 ID)
     else block [out c ''####### ERROR: thd.GetSelectedFrame FAILED. #######'', terminate c A]))) Q s"
    using check k1 line wp_location [OF typed, of 1 b] by (subst wp_bnd, unfold wp_ask at_seq_fun, subst wp_bnd) simp
  ultimately show ?thesis using n wp_location [OF typed, of 0 b] by (subst wp_bnd) simp
qed

lemma judged_same: "alike s s1 \<Longrightarrow> judged c s1 arr = judged c s arr"
  by (auto simp: judged_def alike_def fun_eq_iff)

lemma wp_handle_one:
  assumes ready: "ready s" and typed: "typed s" and prompt: "prompt b A" and random: "random_ok A" and same: "shows_same A"
    and fo: "fo \<in> {GetFrameAtIndex0 A, GetSelectedFrame A}" and fr: "fr = fo t (world s)"
    and k: "access_at A s fr = Some k" and valid: "FrameIsValid A fr (world s)"
    and as: "line_addrs c A s fr k = Inr as" "as \<noteq> []"
  shows "wp b (handle_thread c A fo t) (judged c s (entry_for as k (GetThreadID A t))) s"
  unfolding handle_thread_def
proof (rule wp_watching_seq [OF quiet_suspend [OF prompt] keeps_view_suspend [OF same] ready], unfold wp_bnd [of b "ask _"] wp_ask at_seq_fun)
  fix s1
  assume al: "alike s s1" and ready1: "ready s1" and v: "view A (world s1) = view A (world s)"
  note see = viewD [OF v]
  have typed1: "typed s1" by (rule typed_alike [OF typed al])
  have fr1: "fo t (world s1) = fr" using fo fr see(3,4) [of t] by auto
  have at1: "access_at A s1 fr = Some k" "line_addrs c A s1 fr k = Inr as"
    using k as(1) access_same [OF _ v, of fr] line_addrs_same [OF _ v, of c fr k] al by (simp_all add: alike_def)
  show "wp b (bnd (location_line 0) (\<lambda>line0.
     if FrameLine A (fo t (world s1)) (world s1) = line0 then
       bnd (bnd (source_line 0) (get_addr c A (fo t (world s1)))) (\<lambda>addrs.
         breakpoint_match_check c A addrs 0 (GetThreadID A t))
     else
     bnd (ask (FrameLine A (fo t (world s1)))) (\<lambda>line.
     bnd (location_line 1) (\<lambda>line1.
     if line = line1 then
       bnd (bnd (source_line 1) (get_addr c A (fo t (world s1)))) (\<lambda>addrs.
         breakpoint_match_check c A addrs 1 (GetThreadID A t))
     else block [out c ''####### ERROR: thd.GetSelectedFrame FAILED. #######'', terminate c A]))))
     (judged c s (entry_for as k (GetThreadID A t))) s1"
    unfolding fr1
  proof (rule wp_dispatch [OF typed1 at1(1) refl], unfold wp_bnd [of b "bnd _ _"] wp_source_seq [OF typed1 access_le [OF k]],
      rule wp_get_addr_found [OF ready1 _ _ as(2)], unfold at_seq_fun)
    show "FrameIsValid A fr (world s1)" using valid see by simp
    show "lookup_all (\<lambda>tok. GetValueForVariablePath A fr tok (world s1)) (src_tokens (break_chars c) (bp_source s1 ! k)) = Inr as"
      using at1(2) by (simp add: line_addrs_def)
    fix s2
    assume al2: "alike s1 s2"
    have "typed s2" by (rule typed_alike [OF typed1 al2])
    then have "same_source (bp_source s2) \<noteq> None"
      by (auto simp: typed_def same_source_def py_index_def)
    from wp_judged [OF ready_alike [OF ready1 al2] prompt random access_le [OF k] this, of c as "GetThreadID A t"]
    show "wp b (breakpoint_match_check c A as k (GetThreadID A t)) (judged c s (entry_for as k (GetThreadID A t))) s2"
      by (simp only: judged_same [OF alike_trans [OF al al2]])
  qed
qed

section \<open>The callback\<close>

lemma keeps_world_untracked: "keeps (\<lambda>s. g (world s)) (untracked_breakpoint_check c A)"
proof -
  have ask: "keeps f (ask h)" for f :: "'a tstate \<Rightarrow> 'x" and h :: "'a \<Rightarrow> 'y"
    by (simp add: keeps_def ask_def get_def)
  show ?thesis
    unfolding untracked_breakpoint_check_def Let_def
    by (intro keeps_bnd keeps_get ask keeps_if keeps_block keeps_world_out keeps_ret)
qed

lemma wp_one_untracked:
  assumes ready: "ready s" and typed: "typed s" and prompt: "prompt b A" and random: "random_ok A" and same: "shows_same A"
    and fo: "fo \<in> {GetFrameAtIndex0 A, GetSelectedFrame A}" and one: "untracked A s = [t]" and fr: "fr = fo t (world s)"
    and k: "access_at A s fr = Some k" and valid: "FrameIsValid A fr (world s)"
    and as: "line_addrs c A s fr k = Inr as" "as \<noteq> []"
  shows "wp b (handle_untracked c A fo)
    (\<lambda>r s'. verdict c (bp_source s) (OBJ_ARR s) (entry_for as k (GetThreadID A t)) r (OBJ_ARR s')) s"
  unfolding handle_untracked_def wp_bnd [of b "untracked_breakpoint_check c A"]
proof (rule wp_mono [OF wp_keeps [OF wp_untracked keeps_world_untracked]])
  show "ready s" by (rule ready)
  show "noise (\<lambda>s'. Ret (untracked A s) = Ret [t] \<and> alike s s') s" using one by (simp add: noise_def)
  fix r s1
  assume "(r = Ret [t] \<and> alike s s1) \<and> view A (world s1) = view A (world s)"
  then have r: "r = Ret [t]" and al: "alike s s1" and v: "view A (world s1) = view A (world s)" by simp_all
  note see = viewD [OF v]
  let ?arr = "entry_for as k (GetThreadID A t)"
  let ?Q = "\<lambda>r s'. verdict c (bp_source s) (OBJ_ARR s) ?arr r (OBJ_ARR s')"
  have fr1: "fr = fo t (world s1)" using fo fr see(3,4) [of t] by auto
  have same1: "access_at A s1 fr = Some k" "line_addrs c A s1 fr k = Inr as" "FrameIsValid A fr (world s1)"
    using k as(1) valid see(6) access_same [OF _ v, of fr] line_addrs_same [OF _ v, of c fr k] al by (simp_all add: alike_def)
  have "wp b (handle_thread c A fo t) (judged c s1 ?arr) s1"
    by (rule wp_handle_one [OF ready_alike [OF ready al] typed_alike [OF typed al] prompt random same fo fr1 same1(1,3,2) as(2)])
  then have "wp b (handle_thread c A fo t) (at_seq (\<lambda>_. wp b (block
      [modify (\<lambda>s. s\<lparr>RUNNING := True\<rparr>), continue_process c A, release process_lock]) ?Q) ?Q) s1"
  proof (rule wp_mono)
    fix r :: "unit outcome" and s2
    assume "judged c s1 ?arr r s2"
    then have j: "?Q r s2" "r = Ret () \<longrightarrow> ready s2" using al by (simp_all add: judged_def alike_def)
    have "wp b (block [modify (\<lambda>s. s\<lparr>RUNNING := True\<rparr>), continue_process c A, release process_lock]) ?Q s2" if "r = Ret ()"
      using j that unfolding wp_assign
      by (intro wp_quiet_block [OF quiet_continue [OF prompt]]) (auto simp: wp_simps alike_def)
    with j(1) show "at_seq (\<lambda>_. wp b (block
      [modify (\<lambda>s. s\<lparr>RUNNING := True\<rparr>), continue_process c A, release process_lock]) ?Q) ?Q r s2"
      by (cases r) auto
  qed
  then show "at_seq (\<lambda>ts. wp b (bnd (for_each ts (handle_thread c A fo)) (\<lambda>_. block
      [modify (\<lambda>s. s\<lparr>RUNNING := True\<rparr>), continue_process c A, release process_lock])) ?Q) ?Q r s1"
    unfolding r at_seq_fun for_each.simps by (simp only: wp_bnd wp_ret_fun at_seq_fun at_seq_tail)
qed

lemma wp_drop:
  assumes "ready s" and "distinct (map tid_of (OBJ_ARR s))"
    and "\<And>s'. alike (s\<lparr>OBJ_ARR := filter (\<lambda>x. tid_of x \<noteq> ID) (OBJ_ARR s)\<rparr>) s' \<Longrightarrow> world s' = world s \<Longrightarrow> Q (Ret ()) s'"
  shows "wp b (bnd (thread_liveness_check c ID) delete_indices) Q s"
  unfolding wp_bnd
proof (rule wp_mono [OF wp_keeps [OF wp_liveness, where g = world and Q = "\<lambda>r s'. r = Ret (indices_of ID (OBJ_ARR s)) \<and> alike s s'"]])
  show "ready s" by (rule assms(1))
  show "noise (\<lambda>s'. (Ret (indices_of ID (OBJ_ARR s)) :: nat list outcome) = Ret (indices_of ID (OBJ_ARR s)) \<and> alike s s') s" by (simp add: noise_def)
  show "keeps world (thread_liveness_check c ID)"
    unfolding thread_liveness_check_def by (intro keeps_bnd keeps_get keeps_whenever keeps_ret keeps_world_out [where g = "\<lambda>w. w"])
  fix r :: "nat list outcome" and s1
  assume "(r = Ret (indices_of ID (OBJ_ARR s)) \<and> alike s s1) \<and> world s1 = world s"
  then have r: "r = Ret (indices_of ID (OBJ_ARR s1))" and a: "alike s s1" "world s1 = world s" by (simp_all add: alike_def)
  have "wp b (delete_indices (indices_of ID (OBJ_ARR s1))) Q s1"
    by (rule wp_delete_indices) (use assms(2,3) a in \<open>simp_all add: alike_def\<close>)
  then show "at_seq (\<lambda>x. wp b (delete_indices x) Q) Q r s1" by (simp add: r)
qed

text \<open>What a call finds in the store after dropping its own thread, if that resumed unexpectedly, and the frame it looks at.\<close>

fun store_at :: "('w, 't, 'f) lldb_api \<Rightarrow> 'f call \<Rightarrow> 'w tstate \<Rightarrow> watch list" where
  "store_at A (WriteCall frame) s = filter (\<lambda>x. tid_of x \<noteq> GetThreadID A (GetThread A frame)) (OBJ_ARR s)"
| "store_at A _ s = OBJ_ARR s"

fun frame_at :: "('w, 't, 'f) lldb_api \<Rightarrow> 'f call \<Rightarrow> 't \<Rightarrow> 'w \<Rightarrow> 'f" where
  "frame_at A (WriteCall frame) = GetSelectedFrame A"
| "frame_at A _ = GetFrameAtIndex0 A"

definition new_threads :: "('w, 't, 'f) lldb_api \<Rightarrow> 'f call \<Rightarrow> 'w tstate \<Rightarrow> 't list" where
  "new_threads A e s = untracked A (s\<lparr>OBJ_ARR := store_at A e s\<rparr>)"

lemma wp_call_race:
  assumes s: "between s" "typed s" and prompt: "prompt b A" and random: "random_ok A" and same: "shows_same A"
    and stopped: "is_stopped A (world s)" and e: "e \<noteq> TimerCall" and one: "new_threads A e s = [t]"
    and fr: "fr = frame_at A e t (world s)" and k: "access_at A s fr = Some k" and valid: "FrameIsValid A fr (world s)"
    and as: "line_addrs c A s fr k = Inr as" "as \<noteq> []"
  shows "wp b (run_event c A (event_of e))
    (\<lambda>r s'. verdict c (bp_source s) (store_at A e s) (entry_for as k (GetThreadID A t)) r (OBJ_ARR s')) s"
proof -
  let ?Q = "\<lambda>r s'. verdict c (bp_source s) (store_at A e s) (entry_for as k (GetThreadID A t)) r (OBJ_ARR s')"
  have ready: "ready s" and free: "\<not> held s process_lock" and ok: "store_ok s" using s(1) by (simp_all add: between_def)
  have body: "wp b (handle_untracked c A (frame_at A e)) ?Q s2"
    if a: "alike (s1\<lparr>RUNNING := False, OBJ_ARR := store_at A e s\<rparr>) s2" "alike (locked s) s1" and w: "world s2 = world s" for s1 s2
  proof -
    have a2: "OBJ_ARR s2 = store_at A e s" "bp_source s2 = bp_source s" "bp_location s2 = bp_location s" "ready s2"
      using a ready by (simp_all add: alike_def ready_def locked_def)
    have "kinds_ok (store_at A e s)" using s(2) by (cases e) (auto intro: kinds_subset dest: typed_kinds)
    then have t2: "typed s2" using s(2) a2 by (simp add: typed_def)
    have at: "untracked A s2 = [t]" "fr = frame_at A e t (world s2)" "access_at A s2 fr = Some k" "FrameIsValid A fr (world s2)"
      "line_addrs c A s2 fr k = Inr as"
      using one fr k valid as(1) access_same [of s2 s A fr] line_addrs_same [of s2 s A c fr k]
      by (simp_all add: a2 w new_threads_def untracked_def tids_def)
    have fo: "frame_at A e \<in> {GetFrameAtIndex0 A, GetSelectedFrame A}" by (cases e) simp_all
    show ?thesis
      using wp_one_untracked [OF a2(4) t2 prompt random same fo at as(2)] by (simp only: a2)
  qed
  have stop: "wp b (block (stop_process c A # ms)) ?Q s1 \<longleftrightarrow> wp b (block ms) ?Q s1" if "world s1 = world s" for s1 ms
    using that stopped by (simp add: stop_process_def wp_simps)
  have enter: "wp b (block (acquire process_lock # out c m # stop_process c A # modify (\<lambda>s. s\<lparr>RUNNING := False\<rparr>) # ms)) ?Q s"
    if "\<And>s1. alike (locked s) s1 \<Longrightarrow> ready s1 \<Longrightarrow> world s1 = world s \<Longrightarrow> wp b (block ms) ?Q (s1\<lparr>RUNNING := False\<rparr>)" for m ms
  proof (rule wp_enter [OF free], subst wp_block, rule wp_watching [OF quiet_out keeps_world_out [of "\<lambda>w. w"]])
    show "ready (locked s)" using ready by simp
  qed (use that in \<open>auto simp: stop wp_assign locked_def simp del: block.simps\<close>)
  show ?thesis
  proof (cases e)
    case (ReadCall frame)
    show ?thesis
      unfolding ReadCall event_of.simps run_event.simps read_callback_def
    proof (rule enter [unfolded ReadCall], unfold wp_block_last)
      fix s1
      assume "alike (locked s) s1" "world s1 = world s"
      then show "wp b (handle_untracked c A (GetFrameAtIndex0 A)) (\<lambda>r s'. verdict c (bp_source s) (store_at A (ReadCall frame) s)
          (entry_for as k (GetThreadID A t)) r (OBJ_ARR s')) (s1\<lparr>RUNNING := False\<rparr>)"
        using body [of s1 "s1\<lparr>RUNNING := False\<rparr>"] by (simp add: ReadCall alike_def)
    qed
  next
    case (WriteCall frame)
    let ?ID = "GetThreadID A (GetThread A frame)"
    have ids: "distinct (map tid_of (OBJ_ARR s))" using ok by (simp add: store_ok_def entries_ok_def)
    show ?thesis
      unfolding WriteCall event_of.simps run_event.simps write_callback_def
    proof (rule enter [unfolded WriteCall])
      fix s1
      assume s1: "alike (locked s) s1" "ready s1" "world s1 = world s"
      show "wp b (block [bnd (thread_liveness_check c ?ID) delete_indices, handle_untracked c A (GetSelectedFrame A)])
          (\<lambda>r s'. verdict c (bp_source s) (store_at A (WriteCall frame) s) (entry_for as k (GetThreadID A t)) r (OBJ_ARR s'))
          (s1\<lparr>RUNNING := False\<rparr>)"
      proof (subst wp_block, rule wp_drop, unfold wp_block_last at_seq_fun)
        fix s2
        assume "alike (s1\<lparr>RUNNING := False, OBJ_ARR := filter (\<lambda>x. tid_of x \<noteq> ?ID) (OBJ_ARR (s1\<lparr>RUNNING := False\<rparr>))\<rparr>) s2"
          "world s2 = world (s1\<lparr>RUNNING := False\<rparr>)"
        then show "wp b (handle_untracked c A (GetSelectedFrame A)) (\<lambda>r s'. verdict c (bp_source s) (store_at A (WriteCall frame) s)
            (entry_for as k (GetThreadID A t)) r (OBJ_ARR s')) s2"
          using body [of s1 s2] s1 by (simp add: WriteCall alike_def)
      qed (use s1 ids in \<open>simp_all add: alike_def\<close>)
    qed
  qed (use e in simp)
qed

section \<open>Detection\<close>



end
