(* ===== verification/TriggerOld.thy ===== *)
theory TriggerOld
  imports Trigger
begin

text \<open>
  The first generation of the trigger script, which seven test programs and \<open>apache-21287/old\<close> each have a copy
  of under \<open>scripts/conbreak/\<close>: the functions of \<open>apache-21287/trigger/trigger.py\<close>, with a suffix \<open>_old\<close>
  where \<open>Trigger\<close> has a function of that name. The copies differ in the constants \<open>c\<close> and in the configuration's
  last two fields; \<open>old_copies\<close> lists them. Breakpoints are looked up by the thread that hit them, threads
  are suspended and resumed with one attempt, and the process keeps a lock when the script gives up.
\<close>

section \<open>Output and exit\<close>

definition out_old :: "config \<Rightarrow> string \<Rightarrow> ('w tstate, unit) prog" where
  "out_old c msg =
     (if INTERACTIVE c then py_print msg
      else block [acquire print_lock, fd_write (msg @ [nl]), release print_lock])"

definition exit_garbage :: string where
  "exit_garbage = ''@@@EXIT@@@''"

definition kill :: "config \<Rightarrow> ('w, 't, 'f) lldb_api \<Rightarrow> ('w tstate, unit) prog" where
  "kill c A = block
     [whenever (INTERACTIVE c) (throw (SystemExit 0)),
      fd_close,
      perform (HandleCommand A exit_garbage),
      throw (SystemExit 0)]"

section \<open>Releasing a thread\<close>

text \<open>A call whose result the code drops.\<close>

definition attempt :: "('w \<Rightarrow> bool \<times> 'w) \<Rightarrow> ('w tstate, unit) prog" where
  "attempt op = bnd (act op) (\<lambda>_. ret ())"

definition release_msg_old :: "string \<Rightarrow> nat \<Rightarrow> string" where
  "release_msg_old t ID = t @ '' >>>>>>>>>> INFO: Attempting to release thread '' @ str_nat ID"

definition release_bp_old :: "config \<Rightarrow> ('w, 't, 'f) lldb_api \<Rightarrow> ('w tstate, bool) prog" where
  "release_bp_old c A =
     bnd (ask (IsValid A)) (\<lambda>valid.
     if \<not> valid then bnd (out_old c ''######## WARNING: PROCESS IS INVALID ########'') (\<lambda>_. ret False)
     else
     bnd (get (\<lambda>s. length (OBJ_ARR s))) (\<lambda>obj_arr_len.
     if obj_arr_len = 0 then ret False
     else
     bnd (act (randrange A obj_arr_len)) (\<lambda>rand.
     bnd (bnd (get OBJ_ARR) (\<lambda>objs. indexed objs (int rand))) (\<lambda>obj.
     bnd (ask (GetThreadByID A (tid_of obj))) (\<lambda>thread.
     bnd (act (time_time A)) (\<lambda>t.
     bnd (out_old c (release_msg_old (str_time A t) (GetThreadID A thread))) (\<lambda>_.
     bnd (bnd (ask (is_stopped A)) (\<lambda>stopped. whenever (\<not> stopped) (attempt (Stop A)))) (\<lambda>_.
     bnd (act (Resume A thread)) (\<lambda>resumed.
     if \<not> resumed then bnd (out_old c ''### ERROR IN THREAD.RESUME() ###'') (\<lambda>_. ret False)
     else
     bnd (modify (\<lambda>s. s\<lparr>OBJ_ARR := del_at rand (OBJ_ARR s)\<rparr>)) (\<lambda>_.
     ret True))))))))))"

section \<open>Addresses of a source line\<close>

text \<open>Unlike the later script, this one drops empty strings before the control characters.\<close>

definition src_tokens_old :: "string \<Rightarrow> string \<Rightarrow> string list" where
  "src_tokens_old delims src_line =
     filter (\<lambda>t. t \<noteq> []) (remove_passes operators
       (filter not_blank (filter (\<lambda>t. t \<noteq> []) (split_passes delims [src_line]))))"

definition get_addr_old ::
    "config \<Rightarrow> ('w, 't, 'f) lldb_api \<Rightarrow> 'f \<Rightarrow> string \<Rightarrow> int \<Rightarrow> ('w tstate, string list) prog" where
  "get_addr_old c A frame filename line_num =
     bnd (whenever (\<not> FileSpecIsValid A filename) (block
            [out_old c '' ####### ERROR: Filespec is invalid ####### '', kill c A])) (\<lambda>_.
     bnd (ask (DisplaySourceLines A filename line_num)) (\<lambda>data.
     bnd (try_except
            (bnd (indexed (py_split nl data) 0) (\<lambda>src_line.
             token_addrs A frame (src_tokens_old (break_chars c) src_line) []))
            (\<lambda>e. bnd (block
               [out_old c ''####### ERROR: Unable to extract variable name from source #######'',
                out_old c (exn_class e),
                kill c A]) (\<lambda>_. ret []))) (\<lambda>addrs.
     bnd (whenever (length addrs = 0) (block
            [out_old c ''####### ERROR: No variables found #######'', kill c A])) (\<lambda>_.
     ret addrs))))"

section \<open>Matching\<close>

text \<open>The two nested loops over addresses, for one recorded thread.\<close>

definition hits_old :: "watch \<Rightarrow> watch \<Rightarrow> (string \<times> nat) list" where
  "hits_old obj arr = concat (map (\<lambda>addr1.
     map (\<lambda>addr2. (addr1, tid_of obj)) (filter (\<lambda>addr2. addr1 = addr2) (addrs_of arr))) (addrs_of obj))"

fun matches_in_old :: "watch list \<Rightarrow> watch \<Rightarrow> (string \<times> nat) list" where
  "matches_in_old [] arr = []"
| "matches_in_old (obj # objs) arr =
     (if tid_of obj \<noteq> tid_of arr \<and> kind_of obj \<noteq> kind_of arr then hits_old obj arr else [])
     @ matches_in_old objs arr"

definition match_old :: "watch \<Rightarrow> ('w tstate, (string \<times> nat) list) prog" where
  "match_old arr = get (\<lambda>s. matches_in_old (OBJ_ARR s) arr)"

section \<open>The callbacks\<close>

text \<open>
  Both callbacks are one text but for the kind of access, its messages, its source line and one word: only
  \<open>read_callback\<close> declares \<open>STATUS_FOUND\<close> global, so in \<open>write_callback\<close> the assignment is to a local.
\<close>

datatype access = Read_access | Write_access

fun kind_letter :: "access \<Rightarrow> string" where
  "kind_letter Read_access = ''R''"
| "kind_letter Write_access = ''W''"

fun checking_msg :: "access \<Rightarrow> string \<Rightarrow> nat \<Rightarrow> string \<Rightarrow> string" where
  "checking_msg Read_access t ID obj = t @ '' READ:  ['' @ str_nat ID @ ''] Checking '' @ obj @ ''...''"
| "checking_msg Write_access t ID obj = t @ '' WRITE: ['' @ str_nat ID @ ''] Setting  '' @ obj @ ''...''"

fun found_msg_old :: "access \<Rightarrow> nat \<Rightarrow> string" where
  "found_msg_old Read_access ID = ''>>>>>>>>>> READ:  ['' @ str_nat ID @ ''] Found match!''"
| "found_msg_old Write_access ID = ''>>>>>>>>>> WRITE: ['' @ str_nat ID @ ''] Found match!''"

definition match_msg_old :: "nat \<Rightarrow> string \<times> nat \<Rightarrow> string" where
  "match_msg_old ID m = ''addr='' @ fst m @ ''  tid1='' @ str_nat (snd m) @ ''  tid2='' @ str_nat ID"

definition stars :: string where
  "stars = ''**************************************************************''"

definition halt_line :: string where
  "halt_line = ''**************************** HALT ****************************''"

fun set_status :: "access \<Rightarrow> ('w tstate, unit) prog" where
  "set_status Read_access = modify (\<lambda>s. s\<lparr>STATUS_FOUND := True\<rparr>)"
| "set_status Write_access = ret ()"

definition update_timer_old :: "('w, 't, 'f) lldb_api \<Rightarrow> ('w tstate, unit) prog" where
  "update_timer_old A = block
     [acquire timer_lock,
      bnd (act (time_time A)) (\<lambda>t. modify (\<lambda>s. s\<lparr>LAST_BREAK := t\<rparr>)),
      release timer_lock]"

definition all_bp_hit_old :: "('w, 't, 'f) lldb_api \<Rightarrow> ('w tstate, bool) prog" where
  "all_bp_hit_old A = ask (\<lambda>w. list_all (\<lambda>t. IsSuspended A t w) (ProcessThreads A w))"

definition report_match :: "config \<Rightarrow> ('w, 't, 'f) lldb_api \<Rightarrow> access \<Rightarrow> nat \<Rightarrow> (string \<times> nat) list
    \<Rightarrow> ('w tstate, unit) prog" where
  "report_match c A acc ID matches = block
     [out_old c (found_msg_old acc ID),
      for_each matches (\<lambda>m. out_old c (match_msg_old ID m)),
      out_old c stars,
      out_old c halt_line,
      out_old c stars,
      set_status acc,
      attempt (Stop A),
      whenever (\<not> INTERACTIVE c) (kill c A)]"

definition record_thread :: "config \<Rightarrow> ('w, 't, 'f) lldb_api \<Rightarrow> watch \<Rightarrow> ('w tstate, unit) prog" where
  "record_thread c A arr = block
     [update_timer_old A,
      modify (\<lambda>s. s\<lparr>OBJ_ARR := OBJ_ARR s @ [arr]\<rparr>),
      bnd (all_bp_hit_old A) (\<lambda>all_hit. whenever all_hit (bnd (release_bp_old c A) (\<lambda>_. ret ()))),
      modify (\<lambda>s. s\<lparr>RUNNING := True\<rparr>),
      attempt (Continue A)]"

definition callback_old :: "config \<Rightarrow> ('w, 't, 'f) lldb_api \<Rightarrow> access \<Rightarrow> ('w tstate \<Rightarrow> string \<times> int) \<Rightarrow> 'f
    \<Rightarrow> ('w tstate, unit) prog" where
  "callback_old c A acc place frame =
     (let thread = GetThread A frame; ID = GetThreadID A thread in
     bnd (block
       [acquire process_lock,
        modify (\<lambda>s. s\<lparr>RUNNING := False\<rparr>),
        attempt (Suspend A thread)]) (\<lambda>_.
     bnd (get place) (\<lambda>p.
     bnd (get_addr_old c A frame (fst p) (snd p)) (\<lambda>addrs.
     bnd (for_each addrs (\<lambda>obj.
            bnd (act (time_time A)) (\<lambda>t. out_old c (checking_msg acc (str_time A t) ID obj)))) (\<lambda>_.
     let arr = \<lparr>addrs_of = addrs, kind_of = kind_letter acc, tid_of = ID\<rparr> in
     bnd (match_old arr) (\<lambda>matches.
     bnd (if 0 < length matches then report_match c A acc ID matches else record_thread c A arr) (\<lambda>_.
     release process_lock)))))))"

definition read_callback_old :: "config \<Rightarrow> ('w, 't, 'f) lldb_api \<Rightarrow> 'f \<Rightarrow> ('w tstate, unit) prog" where
  "read_callback_old c A = callback_old c A Read_access (\<lambda>s. (FILE_READ s, LINE_NUM_READ s))"

definition write_callback_old :: "config \<Rightarrow> ('w, 't, 'f) lldb_api \<Rightarrow> 'f \<Rightarrow> ('w tstate, unit) prog" where
  "write_callback_old c A = callback_old c A Write_access (\<lambda>s. (FILE_WRITE s, LINE_NUM_WRITE s))"

section \<open>The timer\<close>

definition release_late :: "config \<Rightarrow> ('w, 't, 'f) lldb_api \<Rightarrow> ('w tstate, unit) prog" where
  "release_late c A = block
     [modify (\<lambda>s. s\<lparr>RUNNING := False\<rparr>),
      bnd (release_bp_old c A) (\<lambda>released. whenever released (update_timer_old A)),
      modify (\<lambda>s. s\<lparr>RUNNING := True\<rparr>),
      attempt (Continue A)]"

definition timer_old :: "config \<Rightarrow> ('w, 't, 'f) lldb_api \<Rightarrow> ('w tstate, unit) prog" where
  "timer_old c A = block
     [acquire process_lock,
      bnd (get RUNNING) (\<lambda>running.
        if running then block
          [bnd (since_break A (WAIT_TIME c)) (\<lambda>late. whenever late (release_late c A)),
           bnd (get (\<lambda>s. (kill_when_interactive c \<or> \<not> INTERACTIVE c) \<and> length (OBJ_ARR s) = 0)) (\<lambda>idle.
             whenever idle
             (bnd (since_break A (KILL_TIME c)) (\<lambda>late. whenever late (block
               [out_old c (''TERMINATE: No breakpoints hit in '' @ seconds (KILL_TIME c) @ '' sec...''),
                kill c A]))))]
        else whenever (\<not> INTERACTIVE c)
          (bnd (since_break A (TERM_TIME c)) (\<lambda>late. whenever late (block
            [out_old c (''TERMINATE: Unable to start up after '' @ seconds (TERM_TIME c) @ '' sec...''),
             kill c A])))),
      release process_lock,
      bnd (get STATUS_FOUND) (\<lambda>found. whenever found (block
        [out_old c ''### STATUS: MATCH FOUND ###'', throw (SystemExit 0)])),
      modify (\<lambda>s. s\<lparr>timers := Suc (timers s)\<rparr>)]"

section \<open>Initialisation\<close>

definition int_of :: "string list \<Rightarrow> ('w tstate, int) prog" where
  "int_of tokens = bnd (indexed tokens 1) (\<lambda>t. from_option (ValueError t) (py_int t))"

definition set_trigger_old :: "config \<Rightarrow> ('w, 't, 'f) lldb_api \<Rightarrow> string \<Rightarrow> string \<Rightarrow> ('w tstate, unit) prog" where
  "set_trigger_old c A in_read in_write =
     (let tokens_read = py_split (CHR '':'') in_read;
          tokens_write = py_split (CHR '':'') in_write in
     bnd (out_old c ''Setting breakpoints...'') (\<lambda>_.
     bnd (indexed tokens_read 0) (\<lambda>file_read.
     bnd (modify (\<lambda>s. s\<lparr>FILE_READ := file_read\<rparr>)) (\<lambda>_.
     bnd (int_of tokens_read) (\<lambda>line_read.
     bnd (modify (\<lambda>s. s\<lparr>LINE_NUM_READ := line_read\<rparr>)) (\<lambda>_.
     bnd (indexed tokens_write 0) (\<lambda>file_write.
     bnd (modify (\<lambda>s. s\<lparr>FILE_WRITE := file_write\<rparr>)) (\<lambda>_.
     bnd (int_of tokens_write) (\<lambda>line_write.
     bnd (modify (\<lambda>s. s\<lparr>LINE_NUM_WRITE := line_write\<rparr>)) (\<lambda>_.
     bnd (act (BreakpointCreateByLocation A file_read line_read)) (\<lambda>bp_read.
     bnd (act (BreakpointCreateByLocation A file_write line_write)) (\<lambda>bp_write.
     block
       [perform (SetScriptCallbackFunction A bp_read ''trigger.read_callback''),
        perform (SetScriptCallbackFunction A bp_write ''trigger.write_callback''),
        update_timer_old A,
        timer_old c A,
        out_old c ''Configuration done!'']))))))))))))"

text \<open>\<open>line.rstrip().split(" ")[1][1:-1]\<close>\<close>

definition breakpoint_of :: "string \<Rightarrow> string option" where
  "breakpoint_of line = map_option (\<lambda>t. butlast (drop 1 t)) (py_index (py_split (CHR '' '') (rstrip line)) 1)"

fun breakpoints_of :: "string list \<Rightarrow> string list option" where
  "breakpoints_of [] = Some []"
| "breakpoints_of (line # ls) =
     (case breakpoint_of line of None \<Rightarrow> None | Some b \<Rightarrow> map_option (\<lambda>bs. b # bs) (breakpoints_of ls))"

text \<open>\<open>f.readline()\<close>: the first line, or the empty string.\<close>

fun first_line :: "string list \<Rightarrow> string" where
  "first_line [] = []"
| "first_line (l # ls) = l"

definition run_command :: "string list \<Rightarrow> string" where
  "run_command arg_lines = ''run '' @ butlast (first_line arg_lines)"

definition lldb_init_module_old :: "config \<Rightarrow> ('w, 't, 'f) lldb_api \<Rightarrow> ('w tstate, unit) prog" where
  "lldb_init_module_old c A =
     bnd (bnd (ask (read_lines A (ARG_FILE c))) (from_option (IOError (ARG_FILE c)))) (\<lambda>arg_lines.
     bnd (whenever (\<not> INTERACTIVE c) (open_for_write (OUTPUT_FILENAME c))) (\<lambda>_.
     bnd (bnd (ask (read_lines A (TSAN_REPORT_FILE c))) (from_option (IOError (TSAN_REPORT_FILE c)))) (\<lambda>lines.
     bnd (from_option IndexError (breakpoints_of lines)) (\<lambda>filenames.
     bnd (out_old c ''Setting trigger...'') (\<lambda>_.
     bnd (indexed filenames 1) (\<lambda>in_read.
     bnd (indexed filenames 0) (\<lambda>in_write.
     bnd (set_trigger_old c A in_read in_write) (\<lambda>_.
     perform (HandleCommand A (run_command arg_lines))))))))))"

end
