(* ===== verification/TriggerOldRules.thy ===== *)
theory TriggerOldRules
  imports TriggerOld TriggerStore
begin

text \<open>
  The first generation of the trigger script: its store and what its statements leave of it. The interface
  \<open>race_store\<close> is what both generations' \<open>match\<close> functions promise a caller that records a thread only
  when nothing is found; it is interpreted on both. \<open>safe\<close> says of a statement that it ends, keeps the store
  free of races and the process lock held, whatever its outcome.
\<close>

section \<open>The interface of the store\<close>

definition apart :: "(watch \<Rightarrow> watch \<Rightarrow> bool) \<Rightarrow> watch list \<Rightarrow> bool" where
  "apart races objs \<longleftrightarrow> (\<forall>x \<in> set objs. \<forall>y \<in> set objs. \<not> races x y)"

lemma apart_Nil [simp]: "apart races []"
  by (simp add: apart_def)

lemma apart_subset: "apart races objs \<Longrightarrow> set objs' \<subseteq> set objs \<Longrightarrow> apart races objs'"
  unfolding apart_def by blast

lemma apart_del: "apart races objs \<Longrightarrow> apart races (del_at i objs)"
  by (erule apart_subset) (rule set_del_at)

locale race_store =
  fixes finds :: "watch list \<Rightarrow> watch \<Rightarrow> (string \<times> nat) list"
    and races :: "watch \<Rightarrow> watch \<Rightarrow> bool"
  assumes finds_set: "(a, t) \<in> set (finds objs arr) \<longleftrightarrow>
      (\<exists>obj \<in> set objs. tid_of obj = t \<and> races obj arr \<and> a \<in> set (addrs_of obj) \<and> a \<in> set (addrs_of arr))"
    and races_sym: "races x y = races y x"
    and races_irrefl: "\<not> races x x"
    and races_share: "races x y \<Longrightarrow> set (addrs_of x) \<inter> set (addrs_of y) \<noteq> {}"
begin

lemma finds_nothing: "finds objs arr = [] \<longleftrightarrow> (\<forall>obj \<in> set objs. \<not> races obj arr)"
proof
  assume "finds objs arr = []"
  then have "(a, t) \<notin> set (finds objs arr)" for a t by simp
  then show "\<forall>obj \<in> set objs. \<not> races obj arr"
    unfolding finds_set using races_share by blast
next
  assume no: "\<forall>obj \<in> set objs. \<not> races obj arr"
  have "p \<notin> set (finds objs arr)" for p
    using no by (cases p) (auto simp: finds_set)
  then show "finds objs arr = []" by (cases "finds objs arr") auto
qed

lemma apart_record: "apart races objs \<Longrightarrow> finds objs arr = [] \<Longrightarrow> apart races (objs @ [arr])"
  using races_irrefl [of arr] races_sym [of arr, THEN iffD1] unfolding apart_def finds_nothing by auto

end

definition race_old :: "watch \<Rightarrow> watch \<Rightarrow> bool" where
  "race_old x y \<longleftrightarrow> tid_of x \<noteq> tid_of y \<and> kind_of x \<noteq> kind_of y \<and> set (addrs_of x) \<inter> set (addrs_of y) \<noteq> {}"

lemma hits_old_set:
  "(a, t) \<in> set (hits_old obj arr) \<longleftrightarrow> t = tid_of obj \<and> a \<in> set (addrs_of obj) \<and> a \<in> set (addrs_of arr)"
  by (auto simp: hits_old_def)

lemma matches_in_old_set:
  "(a, t) \<in> set (matches_in_old objs arr) \<longleftrightarrow>
   (\<exists>obj \<in> set objs. tid_of obj = t \<and> race_old obj arr \<and> a \<in> set (addrs_of obj) \<and> a \<in> set (addrs_of arr))"
  by (induction objs) (auto simp: hits_old_set race_old_def)

interpretation old_store: race_store matches_in_old race_old
  by unfold_locales (auto simp: matches_in_old_set race_old_def)

text \<open>The later script's \<open>match\<close>, once it has two source lines to compare.\<close>

definition matches_new :: "string list \<Rightarrow> watch list \<Rightarrow> watch \<Rightarrow> (string \<times> nat) list" where
  "matches_new src objs arr = (case matches_in src objs arr of None \<Rightarrow> [] | Some ms \<Rightarrow> ms)"

lemma matches_new_set:
  assumes "same_source src \<noteq> None"
  shows "(a, t) \<in> set (matches_new src objs arr) \<longleftrightarrow>
   (\<exists>obj \<in> set objs. tid_of obj = t \<and> conflict src obj arr \<and> a \<in> set (addrs_of obj) \<and> a \<in> set (addrs_of arr))"
proof -
  obtain ms where ms: "matches_in src objs arr = Some ms"
    using assms matches_in_None [of src objs arr] by auto
  show ?thesis unfolding matches_new_def ms option.case matches_in_set [OF ms] conflict_def by blast
qed

interpretation new_store: race_store "matches_new (a # b # src)" "conflict (a # b # src)" for a b src
  by unfold_locales (simp_all add: matches_new_set same_source_def conflict_sym, simp_all add: conflict_def)

section \<open>Statements\<close>

text \<open>Output works: it goes to the terminal, or the file is open.\<close>

definition able :: "config \<Rightarrow> 'w tstate \<Rightarrow> bool" where
  "able c s \<longleftrightarrow> (INTERACTIVE c \<or> OUTPUT_FD s = OpenFile) \<and> \<not> held s print_lock \<and> \<not> held s timer_lock"

definition old_ok :: "'w tstate \<Rightarrow> bool" where
  "old_ok s \<longleftrightarrow> list_all (\<lambda>x. addrs_of x \<noteq> []) (OBJ_ARR s) \<and> apart race_old (OBJ_ARR s)"

definition in_event :: "config \<Rightarrow> 'w tstate \<Rightarrow> bool" where
  "in_event c s \<longleftrightarrow> able c s \<and> old_ok s \<and> held s process_lock"

definition going :: "config \<Rightarrow> ('a \<Rightarrow> 'w tstate \<Rightarrow> bool) \<Rightarrow> 'a outcome \<Rightarrow> 'w tstate \<Rightarrow> bool" where
  "going c P r s \<longleftrightarrow> old_ok s \<and> held s process_lock \<and> r \<noteq> Block \<and> r \<noteq> Spin \<and> (\<forall>x. r = Ret x \<longrightarrow> able c s \<and> P x s)"

lemma going_simps [simp]:
  "going c P (Ret x) s \<longleftrightarrow> in_event c s \<and> P x s"
  "going c P (Raise e) s \<longleftrightarrow> old_ok s \<and> held s process_lock"
  by (auto simp: going_def in_event_def)

lemma wp_going_bnd:
  assumes "wp b m (going c P) s" and "\<And>x s'. in_event c s' \<Longrightarrow> P x s' \<Longrightarrow> wp b (k x) (going c P') s'"
  shows "wp b (bnd m k) (going c P') s"
  unfolding wp_bnd
proof (rule wp_mono [OF assms(1)])
  fix r s'
  assume "going c P r s'"
  with assms(2) show "at_seq (\<lambda>x. wp b (k x) (going c P')) (going c P') r s'"
    by (cases r) (auto simp: going_def in_event_def)
qed

definition safe :: "config \<Rightarrow> ('w tstate, 'a) prog \<Rightarrow> bool" where
  "safe c m \<longleftrightarrow> (\<forall>b s. in_event c s \<longrightarrow> wp b m (going c (\<lambda>_ _. True)) s)"

named_theorems safe_intros

lemma safeD: "safe c m \<Longrightarrow> in_event c s \<Longrightarrow> wp b m (going c (\<lambda>_ _. True)) s"
  by (simp add: safe_def)

lemma safe_bnd [safe_intros]: "safe c m \<Longrightarrow> (\<And>x. safe c (k x)) \<Longrightarrow> safe c (bnd m k)"
  unfolding safe_def by (intro allI impI, rule wp_going_bnd) auto

lemma safe_ret [safe_intros]: "safe c (ret x)"
  by (simp add: safe_def)

lemma safe_block [safe_intros]: "list_all (safe c) ms \<Longrightarrow> safe c (block ms)"
  by (induction ms) (simp_all add: safe_intros)

lemma safe_whenever [safe_intros]: "(p \<Longrightarrow> safe c m) \<Longrightarrow> safe c (whenever p m)"
  by (simp add: whenever_def safe_ret)

lemma safe_for_each [safe_intros]: "(\<And>x. safe c (body x)) \<Longrightarrow> safe c (for_each xs body)"
  by (induction xs) (simp_all add: safe_intros)

lemma safe_if [safe_intros]: "(p \<Longrightarrow> safe c m) \<Longrightarrow> (\<not> p \<Longrightarrow> safe c m') \<Longrightarrow> safe c (if p then m else m')"
  by simp

lemma in_event_upd [simp]:
  "in_event c (s\<lparr>world := w\<rparr>) = in_event c s" "in_event c (s\<lparr>printed := ps\<rparr>) = in_event c s"
  "in_event c (s\<lparr>written := ws\<rparr>) = in_event c s" "in_event c (s\<lparr>RUNNING := r\<rparr>) = in_event c s"
  "in_event c (s\<lparr>LAST_BREAK := t\<rparr>) = in_event c s" "in_event c (s\<lparr>STATUS_FOUND := f\<rparr>) = in_event c s"
  "in_event c (s\<lparr>timers := n\<rparr>) = in_event c s"
  by (simp_all add: in_event_def able_def old_ok_def)

lemma safe_modify [safe_intros]: "(\<And>s. in_event c s \<Longrightarrow> in_event c (f s)) \<Longrightarrow> safe c (modify f)"
  by (simp add: safe_def wp_simps)

lemma safe_throw [safe_intros]: "safe c (throw e)"
  by (simp add: safe_def wp_simps in_event_def)

lemma safe_query [safe_intros]: "safe c (get f)" "safe c (ask g)" "safe c (act h)" "safe c (perform k)"
  by (simp_all add: safe_def wp_simps)

lemma safe_attempt [safe_intros]: "safe c (attempt op)"
  unfolding attempt_def by (intro safe_intros)

lemma safe_lookup [safe_intros]: "safe c (indexed xs i)" "safe c (from_option e r)"
  by (auto simp: safe_def wp_simps in_event_def split: option.splits)

lemma in_event_held:
  "in_event c s \<Longrightarrow> \<not> held s print_lock \<and> \<not> held s timer_lock \<and> (\<not> INTERACTIVE c \<longrightarrow> OUTPUT_FD s = OpenFile)"
  by (auto simp: in_event_def able_def)

lemma safe_out_old [safe_intros]: "safe c (out_old c m)"
proof -
  have "wp b (out_old c m) (going c (\<lambda>_ _. True)) s" if "in_event c s" for b and s :: "'a tstate"
    using that in_event_held [OF that] by (simp add: out_old_def wp_simps)
  then show ?thesis by (simp add: safe_def)
qed

lemma safe_update_timer_old [safe_intros]: "safe c (update_timer_old A)"
proof -
  have "wp b (update_timer_old A) (going c (\<lambda>_ _. True)) s" if "in_event c s" for b and s :: "'a tstate"
    using that in_event_held [OF that] by (simp add: update_timer_old_def wp_simps)
  then show ?thesis by (simp add: safe_def)
qed

lemma going_mono: "going c P r s \<Longrightarrow> (\<And>x. P x s \<Longrightarrow> P' x s) \<Longrightarrow> going c P' r s"
  by (auto simp: going_def)

text \<open>\<open>kill\<close> never returns.\<close>

lemma wp_kill: "in_event c s \<Longrightarrow> wp b (kill c A) (going c (\<lambda>_ _. False)) s"
  using in_event_held [of c s]
  by (cases "INTERACTIVE c") (simp_all add: kill_def wp_simps in_event_def old_ok_def)

lemma safe_kill [safe_intros]: "safe c (kill c A)"
  unfolding safe_def by (blast intro: wp_mono [OF wp_kill] going_mono)

text \<open>The \<open>try\<close> block of \<open>get_addr\<close> changes nothing, so its handler starts where it started.\<close>

lemma safe_lookups [safe_intros]:
  assumes "\<And>e. safe c (h e)"
  shows "safe c (try_except (bnd (indexed xs i) (\<lambda>l. token_addrs A frame (g l) as)) h)"
proof -
  have "wp b (try_except (bnd (indexed xs i) (\<lambda>l. token_addrs A frame (g l) as)) h) (going c (\<lambda>_ _. True)) s"
    if "in_event c s" for b s
    using that safeD [OF assms that]
    by (auto simp: wp_try wp_bnd wp_indexed in_event_def split: option.splits intro!: wp_token_addrs)
  then show ?thesis by (simp add: safe_def)
qed

text \<open>Statements with a value of which something is known.\<close>

definition yields :: "config \<Rightarrow> ('a \<Rightarrow> bool) \<Rightarrow> ('w tstate, 'a) prog \<Rightarrow> bool" where
  "yields c P m \<longleftrightarrow> (\<forall>b s. in_event c s \<longrightarrow> wp b m (going c (\<lambda>x _. P x)) s)"

lemma yieldsD: "yields c P m \<Longrightarrow> in_event c s \<Longrightarrow> wp b m (going c (\<lambda>x _. P x)) s"
  by (simp add: yields_def)

lemma yields_bnd: "safe c m \<Longrightarrow> (\<And>x. yields c P (k x)) \<Longrightarrow> yields c P (bnd m k)"
  unfolding yields_def safe_def by (intro allI impI, rule wp_going_bnd) auto

lemma yields_kill: "safe c m \<Longrightarrow> yields c (\<lambda>_. False) (block [m, kill c A])"
  unfolding block.simps
  by (rule yields_bnd) (auto simp: yields_def intro!: wp_going_bnd [OF wp_kill])

lemma yields_nonempty:
  "yields c (\<lambda>as. as \<noteq> []) (bnd (whenever (length as = 0) (block [out_old c m, kill c A])) (\<lambda>_. ret as))"
proof (cases "as = []")
  case False
  then show ?thesis by (simp add: yields_def whenever_def wp_simps)
next
  case True
  show ?thesis
    unfolding yields_def whenever_def True list.size simp_thms(6) if_True
    by (intro allI impI, rule wp_going_bnd [OF yieldsD [OF yields_kill [OF safe_out_old]]]) simp_all
qed

lemma yields_get_addr_old: "yields c (\<lambda>as. as \<noteq> []) (get_addr_old c A frame filename line)"
  unfolding get_addr_old_def by (intro yields_bnd yields_nonempty safe_intros) (simp add: safe_intros)+

lemma safe_delete [safe_intros]: "safe c (modify (\<lambda>s. s\<lparr>OBJ_ARR := del_at i (OBJ_ARR s)\<rparr>))"
proof (rule safe_modify)
  fix s :: "'a tstate"
  assume "in_event c s"
  then show "in_event c (s\<lparr>OBJ_ARR := del_at i (OBJ_ARR s)\<rparr>)"
    using set_del_at [of i "OBJ_ARR s"] by (auto simp: in_event_def able_def old_ok_def apart_del list_all_iff)
qed

lemma safe_release_bp_old [safe_intros]: "safe c (release_bp_old c A)"
  unfolding release_bp_old_def by (intro safe_intros)



section \<open>Recording a thread\<close>

lemma wp_update_timer_old:
  "in_event c s \<Longrightarrow> wp b (update_timer_old A) (going c (\<lambda>_ s'. OBJ_ARR s' = OBJ_ARR s)) s"
  using in_event_held [of c s] by (simp add: update_timer_old_def wp_simps)

lemma in_event_record:
  "in_event c s \<Longrightarrow> matches_in_old (OBJ_ARR s) arr = [] \<Longrightarrow> addrs_of arr \<noteq> [] \<Longrightarrow>
   in_event c (s\<lparr>OBJ_ARR := OBJ_ARR s @ [arr]\<rparr>)"
  by (simp add: in_event_def able_def old_ok_def old_store.apart_record)

lemma wp_record_thread:
  fixes s :: "'w tstate"
  assumes "in_event c s" and "matches_in_old (OBJ_ARR s) arr = []" and "addrs_of arr \<noteq> []"
  shows "wp b (record_thread c A arr) (going c (\<lambda>_ _. True)) s"
  unfolding record_thread_def block.simps(2) [of "update_timer_old A"]
proof (rule wp_going_bnd [OF wp_update_timer_old [OF assms(1)]])
  fix s1 :: "'w tstate"
  assume s1: "in_event c s1" "OBJ_ARR s1 = OBJ_ARR s"
  with assms in_event_record [of c s1 arr]
  have s2: "in_event c (s1\<lparr>OBJ_ARR := OBJ_ARR s1 @ [arr]\<rparr>)" by simp
  have "safe c (block [bnd (all_bp_hit_old A) (\<lambda>all_hit. whenever all_hit (bnd (release_bp_old c A) (\<lambda>_. ret ()))),
      modify (\<lambda>s. s\<lparr>RUNNING := True\<rparr>), attempt (Continue A)])"
    unfolding all_bp_hit_old_def
    by (intro safe_intros, simp only: list.pred_inject) (intro conjI safe_intros; simp)
  from safeD [OF this s2] show "wp b (block [modify (\<lambda>s. s\<lparr>OBJ_ARR := OBJ_ARR s @ [arr]\<rparr>),
      bnd (all_bp_hit_old A) (\<lambda>all_hit. whenever all_hit (bnd (release_bp_old c A) (\<lambda>_. ret ()))),
      modify (\<lambda>s. s\<lparr>RUNNING := True\<rparr>), attempt (Continue A)]) (going c (\<lambda>_ _. True)) s1"
    by (subst block.simps(2), subst wp_bnd, simp only: wp_modify at_seq.simps)
qed

lemma safe_report_match: "safe c (report_match c A acc ID ms)"
  unfolding report_match_def
  by (cases acc; intro safe_intros, simp only: list.pred_inject set_status.simps) (intro conjI safe_intros; simp)+

section \<open>A callback\<close>

text \<open>Of a callback: the addresses of its line, the search, and the report or the record.\<close>

definition handle_old :: "config \<Rightarrow> ('w, 't, 'f) lldb_api \<Rightarrow> access \<Rightarrow> ('w tstate \<Rightarrow> string \<times> int) \<Rightarrow> 'f
    \<Rightarrow> ('w tstate, unit) prog" where
  "handle_old c A acc place frame =
     (let ID = GetThreadID A (GetThread A frame) in
     bnd (get place) (\<lambda>p.
     bnd (get_addr_old c A frame (fst p) (snd p)) (\<lambda>addrs.
     bnd (for_each addrs (\<lambda>obj.
            bnd (act (time_time A)) (\<lambda>t. out_old c (checking_msg acc (str_time A t) ID obj)))) (\<lambda>_.
     let arr = \<lparr>addrs_of = addrs, kind_of = kind_letter acc, tid_of = ID\<rparr> in
     bnd (match_old arr) (\<lambda>matches.
     if 0 < length matches then report_match c A acc ID matches else record_thread c A arr)))))"

lemma callback_block:
  "callback_old c A acc place frame = block [acquire process_lock, modify (\<lambda>s. s\<lparr>RUNNING := False\<rparr>),
     attempt (Suspend A (GetThread A frame)), handle_old c A acc place frame, release process_lock]"
proof -
  have tail: "block [release process_lock] = release process_lock" by (rule ext) (rule block_one)
  have end_block: "block [m, release process_lock] = bnd m (\<lambda>_. release process_lock)" for m :: "('a tstate, unit) prog"
    unfolding block.simps(2) [of m] tail by (rule refl)
  show ?thesis
    unfolding callback_old_def handle_old_def Let_def block.simps(2) [of "acquire _"] block.simps(2) [of "modify _"]
      block.simps(2) [of "attempt _"] end_block bnd_assoc_fun
    by (simp only: block.simps bnd_ret_fun)
qed

lemma safe_handle_old: "safe c (handle_old c A acc place frame)"
  unfolding safe_def handle_old_def Let_def
proof (intro allI impI)
  fix b and s1 :: "'a tstate"
  assume s1: "in_event c s1"
  let ?ID = "GetThreadID A (GetThread A frame)"
  let ?arr = "\<lambda>as. \<lparr>addrs_of = as, kind_of = kind_letter acc, tid_of = ?ID\<rparr>"
  let ?last = "\<lambda>ms arr. if 0 < length ms then report_match c A acc ?ID ms else record_thread c A arr"
  have last: "wp b (?last ms (?arr as)) (going c (\<lambda>_ _. True)) s3"
    if "in_event c s3" "as \<noteq> []" "ms = matches_in_old (OBJ_ARR s3) (?arr as)" for ms as s3
    using that safeD [OF safe_report_match that(1)] by (cases "ms = []") (simp_all add: wp_record_thread)
  have lines: "safe c (for_each as (\<lambda>obj. bnd (act (time_time A)) (\<lambda>t. out_old c (checking_msg acc (str_time A t) ?ID obj))))"
    for as by (intro safe_intros)
  show "wp b (bnd (get place) (\<lambda>p. bnd (get_addr_old c A frame (fst p) (snd p)) (\<lambda>addrs.
     bnd (for_each addrs (\<lambda>obj. bnd (act (time_time A)) (\<lambda>t. out_old c (checking_msg acc (str_time A t) ?ID obj)))) (\<lambda>_.
     bnd (match_old (?arr addrs)) (\<lambda>matches. ?last matches (?arr addrs)))))) (going c (\<lambda>_ _. True)) s1"
  proof (rule wp_going_bnd [OF safeD [OF safe_query(1) s1]], rule wp_going_bnd [OF yieldsD [OF yields_get_addr_old]], assumption)
    fix as :: "string list" and s2 :: "'a tstate"
    assume s2: "in_event c s2" and ne: "as \<noteq> []"
    show "wp b (bnd (for_each as (\<lambda>obj. bnd (act (time_time A)) (\<lambda>t. out_old c (checking_msg acc (str_time A t) ?ID obj)))) (\<lambda>_.
       bnd (match_old (?arr as)) (\<lambda>matches. ?last matches (?arr as)))) (going c (\<lambda>_ _. True)) s2"
    proof (rule wp_going_bnd [OF safeD [OF lines s2]])
      fix s3 :: "'a tstate"
      assume "in_event c s3"
      then show "wp b (bnd (match_old (?arr as)) (\<lambda>matches. ?last matches (?arr as))) (going c (\<lambda>_ _. True)) s3"
        unfolding match_old_def by (subst wp_bnd, unfold wp_get at_seq.simps) (rule last [OF _ ne refl])
    qed
  qed
qed

section \<open>Events\<close>

text \<open>
  After an event: it has returned with every lock free, or ended with the process lock held; the one
  exception is the timer's exit after a match, which has let go of the lock.
\<close>

definition over :: "config \<Rightarrow> unit outcome \<Rightarrow> 'w tstate \<Rightarrow> bool" where
  "over c r s \<longleftrightarrow> old_ok s \<and> r \<noteq> Block \<and> r \<noteq> Spin \<and> (r = Ret () \<longrightarrow> able c s \<and> \<not> held s process_lock)
     \<and> (r \<noteq> Ret () \<longrightarrow> held s process_lock \<or> able c s \<and> STATUS_FOUND s)"

definition idle :: "config \<Rightarrow> 'w tstate \<Rightarrow> bool" where
  "idle c s \<longleftrightarrow> able c s \<and> old_ok s \<and> \<not> held s process_lock"

lemma wp_over_bnd:
  assumes "wp b m (going c P) s" and "\<And>x s'. in_event c s' \<Longrightarrow> P x s' \<Longrightarrow> wp b (k x) (over c) s'"
  shows "wp b (bnd m k) (over c) s"
  unfolding wp_bnd
proof (rule wp_mono [OF assms(1)])
  fix r s'
  assume "going c P r s'"
  with assms(2) show "at_seq (\<lambda>x. wp b (k x) (over c)) (over c) r s'"
    by (cases r) (auto simp: going_def in_event_def over_def)
qed

lemma in_event_acquired: "idle c s \<Longrightarrow> in_event c (s\<lparr>held := (held s)(process_lock := True)\<rparr>)"
  by (simp add: idle_def in_event_def able_def old_ok_def)

lemma idle_released: "in_event c s \<Longrightarrow> idle c (s\<lparr>held := (held s)(process_lock := False)\<rparr>)"
  by (simp add: idle_def in_event_def able_def old_ok_def)

lemma idle_over: "idle c s \<Longrightarrow> over c (Ret ()) s"
  by (simp add: idle_def over_def)

lemma wp_release_over: "in_event c s \<Longrightarrow> wp b (release process_lock) (over c) s"
  by (simp add: wp_release idle_over idle_released)

lemma wp_callback_old:
  fixes s :: "'w tstate"
  assumes "idle c s"
  shows "wp b (callback_old c A acc place frame) (over c) s"
proof -
  have safe: "safe c (block [modify (\<lambda>s. s\<lparr>RUNNING := False\<rparr>), attempt (Suspend A (GetThread A frame)),
      handle_old c A acc place frame])"
    by (intro safe_intros, simp only: list.pred_inject) (intro conjI safe_intros safe_handle_old; simp)
  have last: "block [a, b, m, release process_lock] = bnd (block [a, b, m]) (\<lambda>_. release process_lock)" for a b m :: "('w tstate, unit) prog"
    using block_append [of "[a, b, m]" "[release process_lock]"] unfolding append_Cons append_Nil block_one [abs_def] .
  have "callback_old c A acc place frame = bnd (acquire process_lock) (\<lambda>_. bnd (block [modify (\<lambda>s. s\<lparr>RUNNING := False\<rparr>),
      attempt (Suspend A (GetThread A frame)), handle_old c A acc place frame]) (\<lambda>_. release process_lock))"
    unfolding callback_block block.simps(2) [of "acquire process_lock"] by (simp only: last)
  moreover have "\<not> held s process_lock" using assms by (simp add: idle_def)
  moreover have "wp b (bnd (block [modify (\<lambda>s. s\<lparr>RUNNING := False\<rparr>), attempt (Suspend A (GetThread A frame)),
      handle_old c A acc place frame]) (\<lambda>_. release process_lock)) (over c) (s\<lparr>held := (held s)(process_lock := True)\<rparr>)"
    by (rule wp_over_bnd [OF safeD [OF safe in_event_acquired [OF assms]] wp_release_over])
  ultimately show ?thesis by (simp only: wp_bnd [of b "acquire _"] wp_acquire if_False at_seq_fun)
qed

end
