(* ===== verification/TriggerOldRuns.thy ===== *)
theory TriggerOldRuns
  imports TriggerOldRules TriggerRuns
begin

text \<open>
  The first generation's timer and initialisation, the events of a session, and the invariant of its runs.
\<close>

lemma safe_timer_body:
  "safe c (bnd (get RUNNING) (\<lambda>running.
        if running then block
          [bnd (since_break A (WAIT_TIME c)) (\<lambda>late. whenever late (release_late c A)),
           bnd (get (\<lambda>s. (kill_when_interactive c \<or> \<not> INTERACTIVE c) \<and> length (OBJ_ARR s) = 0)) (\<lambda>idle.
             whenever idle
             (bnd (since_break A (KILL_TIME c)) (\<lambda>late. whenever late (block
               [out_old c m, kill c A]))))]
        else whenever (\<not> INTERACTIVE c)
          (bnd (since_break A (TERM_TIME c)) (\<lambda>late. whenever late (block
            [out_old c m', kill c A])))))"
proof -
  have late: "safe c (release_late c A)"
    unfolding release_late_def
    by (intro safe_intros, simp only: list.pred_inject) (intro conjI safe_intros; simp)
  have stop: "safe c (block [out_old c t, kill c A])" for t
    by (intro safe_intros, simp only: list.pred_inject) (intro conjI safe_intros; simp)
  have since: "safe c (since_break A l)" for l
    unfolding since_break_def by (intro safe_intros)
  show ?thesis
    by (intro safe_intros late stop since, simp only: list.pred_inject) (intro conjI safe_intros late stop since; simp)
qed

lemma idle_able: "idle c s \<Longrightarrow> \<not> held s print_lock \<and> (\<not> INTERACTIVE c \<longrightarrow> OUTPUT_FD s = OpenFile)"
  by (auto simp: idle_def able_def)

lemma wp_out_old_idle:
  "idle c s \<Longrightarrow> wp b (out_old c m) (\<lambda>r s'. r = Ret () \<and> idle c s' \<and> STATUS_FOUND s' = STATUS_FOUND s) s"
  using idle_able [of c s] by (simp add: out_old_def wp_simps) (simp add: idle_def able_def old_ok_def)

lemma wp_timer_end:
  assumes "idle c s"
  shows "wp b (block
     [bnd (get STATUS_FOUND) (\<lambda>found. whenever found (block [out_old c m, throw (SystemExit 0)])),
      modify (\<lambda>s. s\<lparr>timers := Suc (timers s)\<rparr>)]) (over c) s"
proof (cases "STATUS_FOUND s")
  case False
  with assms show ?thesis by (simp add: wp_simps) (simp add: idle_def over_def able_def old_ok_def)
next
  case True
  then show ?thesis
    unfolding wp_block wp_bnd wp_get at_seq.simps wp_whenever if_P [OF True]
    by (intro wp_mono [OF wp_out_old_idle [OF assms]]) (auto simp: wp_simps idle_def over_def)
qed

lemma wp_timer_old:
  fixes s :: "'w tstate"
  assumes "idle c s"
  shows "wp b (timer_old c A) (over c) s"
proof -
  have free: "\<not> held s process_lock" using assms by (simp add: idle_def)
  show ?thesis
    unfolding timer_old_def
    by (subst block.simps(2), subst wp_bnd, unfold wp_acquire if_not_P [OF free] at_seq.simps,
        subst block.simps(2), rule wp_over_bnd [OF safeD [OF safe_timer_body in_event_acquired [OF assms]]],
        subst block.simps(2), subst wp_bnd, unfold wp_release at_seq.simps,
        rule wp_timer_end, rule idle_released)
qed

section \<open>Runs\<close>

fun event_old :: "config \<Rightarrow> ('w, 't, 'f) lldb_api \<Rightarrow> ('w, 'f) event \<Rightarrow> ('w tstate, unit) prog" where
  "event_old c A (ReadHit frame) = read_callback_old c A frame"
| "event_old c A (WriteHit frame) = write_callback_old c A frame"
| "event_old c A Tick = timer_old c A"
| "event_old c A (Environment w) = modify (\<lambda>s. s\<lparr>world := w\<rparr>)"

inductive run_old :: "config \<Rightarrow> ('w, 't, 'f) lldb_api \<Rightarrow> 'w tstate \<Rightarrow> bool" for c A where
  old_start: "lldb_init_module_old c A (init_state w) = Some (Ret (), s) \<Longrightarrow> run_old c A s"
| old_step: "run_old c A s \<Longrightarrow> event_old c A e s = Some (r, s') \<Longrightarrow> run_old c A s'"

lemma stuck_event_old:
  "held s process_lock \<Longrightarrow> event_old c A e s = Some (r, s') \<Longrightarrow>
     (\<exists>w. e = Environment w \<and> s' = s\<lparr>world := w\<rparr>) \<or> r = Block \<and> s' = s"
  by (cases e) (auto simp: read_callback_old_def write_callback_old_def callback_old_def timer_old_def
      acquire_def bnd_def modify_def Let_def)

lemma wp_event_old: "idle c s \<Longrightarrow> wp b (event_old c A e) (over c) s"
  by (cases e) (simp_all add: read_callback_old_def write_callback_old_def wp_callback_old wp_timer_old wp_modify
      over_def idle_def able_def old_ok_def)

section \<open>Initialisation\<close>

text \<open>A statement that returns between events if it returns at all.\<close>

definition calm :: "config \<Rightarrow> ('w tstate, 'a) prog \<Rightarrow> bool" where
  "calm c m \<longleftrightarrow> (\<forall>s. idle c s \<longrightarrow> wp True m (on_ret (\<lambda>_. idle c)) s)"

named_theorems calm_intros

lemma calm_bnd [calm_intros]: "calm c m \<Longrightarrow> (\<And>x. calm c (k x)) \<Longrightarrow> calm c (bnd m k)"
  unfolding calm_def by (intro allI impI, rule wp_on_ret_bnd [where P = "\<lambda>_. idle c"]) auto

lemma calmD: "calm c m \<Longrightarrow> idle c s \<Longrightarrow> wp True m (on_ret (\<lambda>_. idle c)) s"
  by (simp add: calm_def)

lemma calm_ret [calm_intros]: "calm c (ret x)"
  by (simp add: calm_def)

lemma calm_block [calm_intros]: "list_all (calm c) ms \<Longrightarrow> calm c (block ms)"
  by (induction ms) (simp_all add: calm_bnd calm_ret)

lemma calm_query [calm_intros]:
  "calm c (get f)" "calm c (ask g)" "calm c (act h)" "calm c (perform k)" "calm c (indexed xs i)" "calm c (from_option e r)"
  by (auto simp: calm_def wp_simps idle_def able_def old_ok_def split: option.splits)

lemma calm_modify [calm_intros]: "(\<And>s. idle c s \<Longrightarrow> idle c (f s)) \<Longrightarrow> calm c (modify f)"
  by (simp add: calm_def wp_simps)

lemma idle_upd [simp]:
  "idle c (s\<lparr>FILE_READ := f\<rparr>) = idle c s" "idle c (s\<lparr>LINE_NUM_READ := n\<rparr>) = idle c s"
  "idle c (s\<lparr>FILE_WRITE := f\<rparr>) = idle c s" "idle c (s\<lparr>LINE_NUM_WRITE := n\<rparr>) = idle c s"
  by (simp_all add: idle_def able_def old_ok_def)

lemma calm_out_old [calm_intros]: "calm c (out_old c m)"
  unfolding calm_def by (auto intro!: wp_mono [OF wp_out_old_idle])

lemma calm_update_timer_old [calm_intros]: "calm c (update_timer_old A)"
  by (simp add: calm_def update_timer_old_def wp_simps idle_def able_def old_ok_def)

lemma calm_timer_old [calm_intros]: "calm c (timer_old c A)"
  unfolding calm_def by (auto intro!: wp_mono [OF wp_timer_old] simp: on_ret_def over_def idle_def)

lemma calm_set_trigger_old: "calm c (set_trigger_old c A in_read in_write)"
  unfolding set_trigger_old_def int_of_def Let_def
  by (intro calm_intros; simp add: calm_intros)

lemma idle_init:
  assumes "lldb_init_module_old c A (init_state w) = Some (Ret (), s)"
  shows "idle c s"
proof -
  let ?rest = "\<lambda>arg_lines :: string list. bnd (bnd (ask (read_lines A (TSAN_REPORT_FILE c))) (from_option (IOError (TSAN_REPORT_FILE c)))) (\<lambda>lines.
     bnd (from_option IndexError (breakpoints_of lines)) (\<lambda>filenames.
     bnd (out_old c ''Setting trigger...'') (\<lambda>_.
     bnd (indexed filenames 1) (\<lambda>in_read.
     bnd (indexed filenames 0) (\<lambda>in_write.
     bnd (set_trigger_old c A in_read in_write) (\<lambda>_.
     perform (HandleCommand A (run_command arg_lines))))))))"
  have rest: "calm c (?rest arg_lines)" for arg_lines
    by (intro calm_intros calm_set_trigger_old)
  obtain arg_lines where args: "read_lines A (ARG_FILE c) (world (init_state w)) = Some arg_lines"
    using assms by (cases "read_lines A (ARG_FILE c) (world (init_state w))")
      (simp_all only: lldb_init_module_old_def bnd_assoc bnd_ask bnd_from_option option.case
         option.simps prod.simps outcome.simps simp_thms)
  let ?s = "if INTERACTIVE c then init_state w else (init_state w)\<lparr>OUTPUT_FD := OpenFile, written := []\<rparr>"
  have "lldb_init_module_old c A (init_state w) = ?rest arg_lines ?s"
    unfolding lldb_init_module_old_def bnd_assoc bnd_ask bnd_from_option args option.case bnd_whenever
      open_for_write_def bnd_modify
    by (cases "INTERACTIVE c") (simp_all only: simp_thms if_True if_False)
  then have run: "?rest arg_lines ?s = Some (Ret (), s)" using assms by (simp only:)
  have "idle c ?s" by (simp add: idle_def able_def old_ok_def init_state_def)
  from wpD [OF calmD [OF rest this] run] show ?thesis by (simp only: on_ret_simps)
qed

text \<open>Where a run can be: between two events, or with the process lock held for good.\<close>

lemma run_old_invariant: "run_old c A s \<Longrightarrow> old_ok s \<and> (held s process_lock \<or> able c s)"
proof (induction rule: run_old.induct)
  case (old_start w s)
  from idle_init [OF this] show ?case by (simp add: idle_def)
next
  case (old_step s e r s')
  show ?case
  proof (cases "held s process_lock")
    case True
    from stuck_event_old [OF this old_step(2)] old_step.IH True show ?thesis
      by (auto simp: old_ok_def)
  next
    case False
    with old_step.IH have "idle c s" by (simp add: idle_def)
    from wpD [OF wp_event_old [OF this, of True] old_step(2)] show ?thesis
      by (auto simp: over_def)
  qed
qed

end
