(* ===== verification/TriggerOldProperties.thy ===== *)
theory TriggerOldProperties
  imports TriggerOldRuns
begin

text \<open>
  The properties of the trigger script's first generation: the store of suspended threads in every run, how
  its \<open>match\<close> and its tokens compare with the later script's, that events end and when they keep the process
  lock, what follows a match, the release of a thread. The concrete debugger at the end gives closed instances.
\<close>

section \<open>A concrete debugger\<close>

record old_sim =
  old_threads :: "nat list"
  old_susp :: "nat list"
  old_clock :: int

definition old_lines :: "string list" where
  "old_lines = [''f (a.c:10)'' @ [nl], ''g (a.c:20)'' @ [nl]]"

definition old_api :: "bool \<Rightarrow> (old_sim, nat, nat) lldb_api" where
  "old_api resumes = \<lparr>
     ProcessThreads = old_threads,
     IsValid = (\<lambda>w. True),
     is_stopped = (\<lambda>w. True),
     Stop = (\<lambda>w. (True, w)),
     Continue = (\<lambda>w. (True, w)),
     GetThreadID = (\<lambda>t. t),
     GetThreadByID = (\<lambda>n w. n),
     StopReasonBreakpoint = (\<lambda>t w. True),
     IsSuspended = (\<lambda>t w. t \<in> set (old_susp w)),
     Suspend = (\<lambda>t w. (True, w\<lparr>old_susp := t # old_susp w\<rparr>)),
     Resume = (\<lambda>t w. (resumes, w\<lparr>old_susp := filter (\<lambda>u. u \<noteq> t) (old_susp w)\<rparr>)),
     GetFrameAtIndex0 = (\<lambda>t w. t),
     GetSelectedFrame = (\<lambda>t w. t),
     GetThread = (\<lambda>f. f),
     FrameIsValid = (\<lambda>f w. True),
     FrameLine = (\<lambda>f w. 0),
     GetValueForVariablePath = (\<lambda>f tok w. if tok = ''x'' then Address ''0x10'' else No_value),
     FileSpecIsValid = (\<lambda>f. True),
     DisplaySourceLines = (\<lambda>f l w. ''  x = y;''),
     BreakpointCreateByLocation = (\<lambda>f l w. (nat l, w)),
     SetScriptCallbackFunction = (\<lambda>n f w. w),
     SetAsync = (\<lambda>b w. w),
     HandleCommand = (\<lambda>m w. w),
     SBDebugger_Terminate = (\<lambda>w. w),
     time_time = (\<lambda>w. (old_clock w, w\<lparr>old_clock := old_clock w + 1\<rparr>)),
     time_sleep = (\<lambda>w. w),
     str_time = (\<lambda>t. ''t''),
     randrange = (\<lambda>n w. (0, w)),
     read_lines = (\<lambda>f w. Some old_lines),
     pipe_output = (\<lambda>p q w. (Inr [], w))\<rparr>"

definition old_world :: old_sim where
  "old_world = \<lparr>old_threads = [1, 2], old_susp = [], old_clock = 0\<rparr>"

definition old_config :: "bool \<Rightarrow> config" where
  "old_config interactive = \<lparr>WAIT_TIME = 1000, KILL_TIME = 5000, TERM_TIME = 20000, INTERACTIVE = interactive,
     TSAN_REPORT_FILE = ''report.txt'', ARG_FILE = ''args.txt'', OUTPUT_FILENAME = ''lldb_out.txt'',
     break_chars = [CHR '' '', nl, CHR '','', CHR '';'', CHR ''('', CHR '')''], kill_when_interactive = False\<rparr>"

text \<open>Initialisation, then thread 1 at the write.\<close>

definition ended :: "('a outcome \<times> 's) option \<Rightarrow> 's option" where
  "ended r = (case r of Some (Ret _, s) \<Rightarrow> Some s | _ \<Rightarrow> None)"

definition old_run :: "bool \<Rightarrow> old_sim tstate option" where
  "old_run interactive = (case ended (lldb_init_module_old (old_config interactive) (old_api True) (init_state old_world)) of
     None \<Rightarrow> None | Some s \<Rightarrow> ended (event_old (old_config interactive) (old_api True) (WriteHit 1) s))"

definition old_run_good :: "bool \<Rightarrow> bool" where
  "old_run_good interactive = (case old_run interactive of
     Some s \<Rightarrow> OBJ_ARR s = [\<lparr>addrs_of = [''0x10''], kind_of = ''W'', tid_of = 1\<rparr>]
       \<and> \<not> held s process_lock | None \<Rightarrow> False)"

lemma old_run_good_both: "old_run_good True \<and> old_run_good False"
  by code_simp

lemma old_run_reached:
  obtains s where "run_old (old_config interactive) (old_api True) s"
    "OBJ_ARR s = [\<lparr>addrs_of = [''0x10''], kind_of = ''W'', tid_of = 1\<rparr>]" "\<not> held s process_lock"
proof -
  have good: "old_run_good interactive" using old_run_good_both by (cases interactive) simp_all
  obtain s where s: "old_run interactive = Some s"
    using good unfolding old_run_good_def by (cases "old_run interactive") simp_all
  have objs: "OBJ_ARR s = [\<lparr>addrs_of = [''0x10''], kind_of = ''W'', tid_of = 1\<rparr>] \<and> \<not> held s process_lock"
    using good unfolding old_run_good_def s option.case .
  from s obtain s0 where "lldb_init_module_old (old_config interactive) (old_api True) (init_state old_world) = Some (Ret (), s0)"
    "event_old (old_config interactive) (old_api True) (WriteHit 1) s0 = Some (Ret (), s)"
    unfolding old_run_def ended_def by (auto split: option.splits prod.splits outcome.splits)
  then have "run_old (old_config interactive) (old_api True) s" by (blast intro: run_old.intros)
  from that [OF this] objs show ?thesis by blast
qed

section \<open>The store\<close>

text \<open>
  In every state of a run of the first script, in either mode and whatever order callbacks and ticks come in,
  every recorded thread has an address, and two entries of different threads and different kinds never share
  one. Unlike in the later script this needs nothing of the debugger, not even one entry per thread.
\<close>

theorem old_trigger_store:
  assumes "run_old c A s"
  shows "(\<forall>x \<in> set (OBJ_ARR s). addrs_of x \<noteq> [])
    \<and> (\<forall>x \<in> set (OBJ_ARR s). \<forall>y \<in> set (OBJ_ARR s).
         tid_of x \<noteq> tid_of y \<and> kind_of x \<noteq> kind_of y \<longrightarrow> set (addrs_of x) \<inter> set (addrs_of y) = {})"
  using run_old_invariant [OF assms] unfolding old_ok_def list_all_iff apart_def race_old_def by blast

section \<open>The two generations\<close>

text \<open>
  C26: on a store and two source lines, whatever the first script's \<open>match\<close> reports the later script's
  reports as well, and when the two lines differ they report the same pairs: the nested loops
  over addresses and the membership test agree, and only a race of one line with itself is new.
\<close>

theorem matches_agree:
  assumes "bp_source s = a # b # src"
  shows "\<exists>old new. match_old arr s = Some (Ret old, s) \<and> match arr s = Some (Ret new, s)
    \<and> set old \<subseteq> set new \<and> (a \<noteq> b \<longrightarrow> set old = set new)"
proof -
  let ?old = "matches_in_old (OBJ_ARR s) arr" and ?new = "matches_new (bp_source s) (OBJ_ARR s) arr"
  have src: "same_source (bp_source s) = Some (a = b)" by (simp add: assms same_source_def)
  obtain ms where ms: "matches_in (bp_source s) (OBJ_ARR s) arr = Some ms"
    using src matches_in_None [of "bp_source s" "OBJ_ARR s" arr] by auto
  have race: "race_old x y \<Longrightarrow> conflict (bp_source s) x y" "a \<noteq> b \<Longrightarrow> conflict (bp_source s) x y \<Longrightarrow> race_old x y" for x y
    by (auto simp: race_old_def conflict_def src)
  have sub: "set ?old \<subseteq> set ?new"
    unfolding assms using race(1) [unfolded assms]
    by (clarsimp simp: old_store.finds_set new_store.finds_set) blast
  moreover have "set ?new \<subseteq> set ?old" if "a \<noteq> b"
    unfolding assms using race(2) [OF that, unfolded assms]
    by (clarsimp simp: old_store.finds_set new_store.finds_set) blast
  moreover have "match_old arr s = Some (Ret ?old, s)" by (simp add: match_old_def get_def)
  moreover have "match arr s = Some (Ret ?new, s)"
    using ms by (simp add: match_def bnd_get from_option_def ret_def matches_new_def)
  ultimately show ?thesis by blast
qed

lemma matches_agree_witness:
  "\<exists>old new. match_old \<lparr>addrs_of = [''0x10''], kind_of = ''R'', tid_of = 2\<rparr>
       ((init_state old_world)\<lparr>bp_source := [''x = 1;'', ''y = x;''], OBJ_ARR := [\<lparr>addrs_of = [''0x10''], kind_of = ''W'', tid_of = 1\<rparr>]\<rparr>)
     = Some (Ret old, (init_state old_world)\<lparr>bp_source := [''x = 1;'', ''y = x;''], OBJ_ARR := [\<lparr>addrs_of = [''0x10''], kind_of = ''W'', tid_of = 1\<rparr>]\<rparr>)
     \<and> set old = set new"
  using matches_agree [of "(init_state old_world)\<lparr>bp_source := [''x = 1;'', ''y = x;''], OBJ_ARR := [\<lparr>addrs_of = [''0x10''], kind_of = ''W'', tid_of = 1\<rparr>]\<rparr>"
      "''x = 1;''" "''y = x;''" "[]" "\<lparr>addrs_of = [''0x10''], kind_of = ''R'', tid_of = 2\<rparr>"] by fastforce

text \<open>
  The tokens of a source line are the same in both generations, for the same delimiters: dropping
  the empty strings before the strings of control characters changes nothing.
\<close>

lemma tokens_agree: "src_tokens_old delims line = src_tokens delims line"
proof -
  have "not_blank t \<Longrightarrow> t \<noteq> []" for t by (auto simp: not_blank_def)
  then have "filter not_blank (filter (\<lambda>t. t \<noteq> []) ts) = filter not_blank ts" for ts
    by (induction ts) auto
  then show ?thesis by (simp only: src_tokens_old_def src_tokens_def)
qed

section \<open>Events\<close>



section \<open>After a match\<close>

lemma wp_out_old_same:
  assumes "in_event c s"
    and "\<And>s'. in_event c s' \<Longrightarrow> OBJ_ARR s' = OBJ_ARR s \<Longrightarrow> STATUS_FOUND s' = STATUS_FOUND s
          \<Longrightarrow> RUNNING s' = RUNNING s \<Longrightarrow> held s' = held s \<Longrightarrow> Q (Ret ()) s'"
  shows "wp b (out_old c m) Q s"
  using in_event_held [OF assms(1)] assms(1) by (auto simp: out_old_def wp_simps intro!: assms(2))

text \<open>What of a state matters for the report of a match.\<close>

definition same_store :: "config \<Rightarrow> 'w tstate \<Rightarrow> 'w tstate \<Rightarrow> bool" where
  "same_store c s s' \<longleftrightarrow> in_event c s' \<and> OBJ_ARR s' = OBJ_ARR s \<and> STATUS_FOUND s' = STATUS_FOUND s
     \<and> RUNNING s' = RUNNING s \<and> held s' = held s"

lemma wp_out_old_store: "same_store c s s' \<Longrightarrow> wp b (out_old c m) (\<lambda>r s''. r = Ret () \<and> same_store c s s'') s'"
  by (rule wp_out_old_same) (simp_all add: same_store_def)

lemma wp_lines_store:
  "same_store c s s' \<Longrightarrow> wp b (for_each ms (\<lambda>m. out_old c (f m))) (\<lambda>r s''. r = Ret () \<and> same_store c s s'') s'"
proof (induction ms arbitrary: s')
  case (Cons m ms)
  show ?case
    unfolding wp_for_each
    by (rule wp_mono [OF wp_out_old_store [OF Cons.prems]]) (use Cons.IH in auto)
qed (simp add: wp_for_each)

lemma wp_before_status:
  assumes "same_store c s s'"
    and "\<And>s''. same_store c s s'' \<Longrightarrow> wp b (block ms') Q s''"
  shows "wp b (block (out_old c m # for_each ms (\<lambda>m. out_old c (f m)) # out_old c l # out_old c h # out_old c l # ms')) Q s'"
  unfolding block.simps(2) wp_bnd
  by (rule wp_mono [OF wp_out_old_store [OF assms(1)]], clarsimp, rule wp_mono [OF wp_lines_store], assumption, clarsimp,
      (rule wp_mono [OF wp_out_old_store], assumption, clarsimp)+, rule assms(2))

lemma wp_report_match:
  fixes s :: "'w tstate"
  assumes "in_event c s"
  shows "wp b (report_match c A acc ID ms) (\<lambda>r s'. OBJ_ARR s' = OBJ_ARR s \<and> RUNNING s' = RUNNING s
     \<and> held s' = held s \<and> STATUS_FOUND s' = (STATUS_FOUND s \<or> acc = Read_access)
     \<and> (if INTERACTIVE c then r = Ret () \<and> in_event c s'
        else r = Raise (SystemExit 0) \<and> OUTPUT_FD s' = ClosedFile)) s"
  unfolding report_match_def
proof (rule wp_before_status [of c s])
  show "same_store c s s" using assms by (simp add: same_store_def)
next
  fix s2
  assume s2: "same_store c s s2"
  then have "in_event c s2" by (simp add: same_store_def)
  from in_event_held [OF this] s2
  show "wp b (block [set_status acc, attempt (Stop A), whenever (\<not> INTERACTIVE c) (kill c A)])
      (\<lambda>r s'. OBJ_ARR s' = OBJ_ARR s \<and> RUNNING s' = RUNNING s
     \<and> held s' = held s \<and> STATUS_FOUND s' = (STATUS_FOUND s \<or> acc = Read_access)
     \<and> (if INTERACTIVE c then r = Ret () \<and> in_event c s'
        else r = Raise (SystemExit 0) \<and> OUTPUT_FD s' = ClosedFile)) s2"
    by (cases acc; cases "INTERACTIVE c") (simp_all add: wp_simps attempt_def kill_def same_store_def)
qed

text \<open>Inside a callback of the interactive script, nothing found yet.\<close>

definition old_inside :: "old_sim tstate" where
  "old_inside = (init_state old_world)\<lparr>held := (\<lambda>l. l = process_lock)\<rparr>"

lemma in_event_inside: "in_event (old_config True) old_inside"
  by (simp add: in_event_def able_def old_ok_def old_inside_def init_state_def old_config_def)



end
