(* ===== verification/TriggerOldRaces.thy ===== *)
theory TriggerOldRaces
  imports TriggerOldProperties TriggerFunctions
begin

text \<open>
  A whole callback of the first script, which nine copies under \<open>scripts/conbreak/\<close> share: from the breakpoint that is hit
  to the addresses on its source line, the search among the recorded threads, and the report or the record.
\<close>

section \<open>The addresses of the line\<close>

text \<open>The callback looks at the debuggee after the one attempt to suspend the thread.\<close>

definition suspended_world :: "('w, 't, 'f) lldb_api \<Rightarrow> 'f \<Rightarrow> 'w \<Rightarrow> 'w" where
  "suspended_world A frame w = snd (Suspend A (GetThread A frame) w)"

definition shown_line :: "('w, 't, 'f) lldb_api \<Rightarrow> string \<times> int \<Rightarrow> 'w \<Rightarrow> string" where
  "shown_line A place w = hd (py_split nl (DisplaySourceLines A (fst place) (snd place) w))"

definition shown_addrs :: "config \<Rightarrow> ('w, 't, 'f) lldb_api \<Rightarrow> 'f \<Rightarrow> string \<times> int \<Rightarrow> 'w \<Rightarrow> string + string list" where
  "shown_addrs c A frame place w =
     lookup_all (\<lambda>tok. GetValueForVariablePath A frame tok w) (src_tokens_old (break_chars c) (shown_line A place w))"

lemma wp_token_addrs_found:
  assumes "lookup_all (\<lambda>tok. GetValueForVariablePath A frame tok (world s)) ts = Inr as" and "Q (Ret (acc @ as)) s"
  shows "wp b (token_addrs A frame ts acc) Q s"
  using assms token_addrs_run [of A frame ts acc s] by (simp add: wp_def)

lemma py_split_hd: "py_index (py_split ch s) 0 = Some (hd (py_split ch s))"
  by (cases "py_split ch s") (simp_all add: py_split_def split_at_nonempty)

lemma wp_get_addr_old_found:
  assumes "FileSpecIsValid A (fst place)" and "shown_addrs c A frame place (world s) = Inr as" and "as \<noteq> []" and "Q (Ret as) s"
  shows "wp b (get_addr_old c A frame (fst place) (snd place)) Q s"
proof -
  have "wp b (bnd (indexed (py_split nl (DisplaySourceLines A (fst place) (snd place) (world s))) 0) (\<lambda>src_line.
      token_addrs A frame (src_tokens_old (break_chars c) src_line) [])) Q' s"
    if "Q' (Ret as) s" for Q' :: "string list outcome \<Rightarrow> 'a tstate \<Rightarrow> bool"
    using that assms(2)
    by (auto simp: wp_bnd wp_indexed py_split_hd shown_addrs_def shown_line_def intro!: wp_token_addrs_found)
  then show ?thesis
    unfolding get_addr_old_def
    by (subst wp_bnd, subst wp_whenever, subst if_not_P) (use assms in \<open>simp_all add: wp_bnd wp_ask wp_try wp_whenever wp_ret\<close>)
qed

section \<open>Recording\<close>

text \<open>What is left of a state, with the given store, by statements that neither report nor give up.\<close>

definition left :: "config \<Rightarrow> 'w tstate \<Rightarrow> watch list \<Rightarrow> 'w tstate \<Rightarrow> bool" where
  "left c s objs s' \<longleftrightarrow> able c s' \<and> held s' = held s \<and> STATUS_FOUND s' = STATUS_FOUND s \<and> OBJ_ARR s' = objs"

lemma left_upd [simp]:
  "left c s objs (s'\<lparr>world := w\<rparr>) = left c s objs s'" "left c s objs (s'\<lparr>RUNNING := r\<rparr>) = left c s objs s'"
  "left c s objs (s'\<lparr>LAST_BREAK := t\<rparr>) = left c s objs s'" "left c s objs (s'\<lparr>printed := ps\<rparr>) = left c s objs s'"
  "left c s objs (s'\<lparr>written := ws\<rparr>) = left c s objs s'"
  by (simp_all add: left_def able_def)

lemma left_del: "left c s objs s' \<Longrightarrow> left c s (del_at i objs) (s'\<lparr>OBJ_ARR := del_at i (OBJ_ARR s')\<rparr>)"
  unfolding left_def able_def by (simp, metis)

lemma left_add: "left c s objs s' \<Longrightarrow> left c s (objs @ [x]) (s'\<lparr>OBJ_ARR := OBJ_ARR s' @ [x]\<rparr>)"
  unfolding left_def able_def by (simp, metis)

lemma left_held:
  "left c s objs s' \<Longrightarrow> held s' = held s \<and> \<not> held s print_lock \<and> \<not> held s timer_lock \<and> (\<not> INTERACTIVE c \<longrightarrow> OUTPUT_FD s' = OpenFile)"
  unfolding left_def able_def by metis

lemma wp_out_left:
  assumes "left c s objs s'" and "\<And>s''. left c s objs s'' \<Longrightarrow> world s'' = world s' \<Longrightarrow> Q (Ret ()) s''"
  shows "wp b (out_old c m) Q s'"
  using left_held [OF assms(1)] assms(1) by (auto simp: out_old_def wp_simps left_def able_def intro!: assms(2))

lemma wp_timer_left:
  assumes "left c s objs s'" and "\<And>s''. left c s objs s'' \<Longrightarrow> Q (Ret ()) s''"
  shows "wp b (update_timer_old A) Q s'"
  using left_held [OF assms(1)] assms(1) by (auto simp: update_timer_old_def wp_simps left_def able_def intro!: assms(2))

lemma wp_attempt: "wp b (attempt op) Q s = Q (Ret ()) (s\<lparr>world := snd (op (world s))\<rparr>)"
  by (simp add: attempt_def wp_simps split: prod.splits)

lemma wp_release_left:
  assumes "random_ok A" and "left c s objs s'"
    and kept: "\<And>v s''. left c s objs s'' \<Longrightarrow> Q (Ret v) s''"
    and freed: "\<And>v i s''. i < length objs \<Longrightarrow> left c s (del_at i objs) s'' \<Longrightarrow> Q (Ret v) s''"
  shows "wp b (release_bp_old c A) Q s'"
proof -
  have n: "OBJ_ARR s' = objs" using assms(2) by (simp add: left_def)
  let ?finish = "\<lambda>i resumed. if \<not> resumed then bnd (out_old c ''### ERROR IN THREAD.RESUME() ###'') (\<lambda>_. ret False)
     else bnd (modify (\<lambda>s. s\<lparr>OBJ_ARR := del_at i (OBJ_ARR s)\<rparr>)) (\<lambda>_. ret True)"
  have tail: "wp b (bnd (bnd (ask (is_stopped A)) (\<lambda>stopped. whenever (\<not> stopped) (attempt (Stop A)))) (\<lambda>_.
      bnd (act (Resume A thread)) (?finish i))) Q s2" if "left c s objs s2" "i < length objs" for i thread s2
    using that by (auto simp: wp_bnd wp_ask wp_whenever wp_attempt wp_act wp_ret wp_modify
        intro!: wp_out_left kept [where v = False] freed [where v = True] left_del [where s' = "s2\<lparr>world := w\<rparr>" for w, simplified])
  show ?thesis
    unfolding release_bp_old_def
  proof (unfold wp_bnd [of b "ask (IsValid A)"] wp_ask at_seq_fun, cases "IsValid A (world s')", goal_cases)
    case 1
    then show ?case
    proof (simp only: not_True_eq_False if_False wp_bnd [of b "get _"] wp_get at_seq_fun n, cases "objs = []", goal_cases)
      case 1
      with assms(2) kept show ?case by (simp add: wp_ret)
    next
      case 2
      let ?i = "fst (randrange A (length objs) (world s'))"
      have i: "?i < length objs" using assms(1) 2 by (simp add: random_ok_def)
      from 2 i show ?case
        by (simp add: wp_bnd wp_act wp_get wp_indexed py_index_nat n wp_ask)
          (rule wp_out_left, unfold left_upd, rule assms(2), unfold at_seq_fun, rule tail, assumption+)
    qed
  next
    case 2
    with assms(2) show ?case by (auto simp: wp_bnd wp_ret intro!: wp_out_left kept)
  qed
qed

lemma wp_record_left:
  assumes "random_ok A" and "left c s objs s'"
    and kept: "\<And>s''. left c s (objs @ [arr]) s'' \<Longrightarrow> Q (Ret ()) s''"
    and freed: "\<And>i s''. i \<le> length objs \<Longrightarrow> left c s (del_at i (objs @ [arr])) s'' \<Longrightarrow> Q (Ret ()) s''"
  shows "wp b (record_thread c A arr) Q s'"
proof -
  let ?last = "block [modify (\<lambda>s. s\<lparr>RUNNING := True\<rparr>), attempt (Continue A)]"
  have last: "wp b ?last Q s1" if "left c s (objs @ [arr]) s1 \<or> (\<exists>i \<le> length objs. left c s (del_at i (objs @ [arr])) s1)" for s1
    using that kept freed by (auto simp: wp_bnd wp_modify wp_attempt wp_ret)
  have "wp b (bnd (bnd (all_bp_hit_old A) (\<lambda>all_hit. whenever all_hit (bnd (release_bp_old c A) (\<lambda>_. ret ())))) (\<lambda>_. ?last)) Q s1"
    if s1: "left c s (objs @ [arr]) s1" for s1
    unfolding wp_bnd all_bp_hit_old_def wp_ask at_seq_fun wp_whenever
  proof (cases "list_all (\<lambda>t. IsSuspended A t (world s1)) (ProcessThreads A (world s1))", goal_cases)
    case 1
    show ?case
      unfolding if_P [OF 1] wp_bnd
      by (rule wp_release_left [OF assms(1) s1]; unfold at_seq_fun wp_ret; rule last) (auto intro: less_Suc_eq_le [THEN iffD1])
  next
    case 2
    show ?case unfolding if_not_P [OF 2] at_seq_fun by (rule last) (simp add: s1)
  qed
  note rest = this
  show ?thesis
    unfolding record_thread_def block.simps(2) [of "update_timer_old A"] wp_bnd [of b "update_timer_old A"]
  proof (rule wp_timer_left [OF assms(2)], unfold at_seq_fun)
    fix s1
    assume "left c s objs s1"
    from rest [OF left_add [OF this]]
    show "wp b (block [modify (\<lambda>s. s\<lparr>OBJ_ARR := OBJ_ARR s @ [arr]\<rparr>),
        bnd (all_bp_hit_old A) (\<lambda>all_hit. whenever all_hit (bnd (release_bp_old c A) (\<lambda>_. ret ()))),
        modify (\<lambda>s. s\<lparr>RUNNING := True\<rparr>), attempt (Continue A)]) Q s1"
      by (subst block.simps(2), subst wp_bnd, unfold wp_modify at_seq_fun, subst block.simps(2))
  qed
qed

lemma wp_checking_left:
  assumes "left c s objs s'" and "\<And>s''. left c s objs s'' \<Longrightarrow> Q (Ret ()) s''"
  shows "wp b (for_each as (\<lambda>obj. bnd (act (time_time A)) (\<lambda>t. out_old c (m t obj)))) Q s'"
  using assms
proof (induction as arbitrary: s')
  case (Cons a as)
  show ?case
    unfolding wp_for_each wp_bnd wp_act at_seq_fun
    by (rule wp_out_left, unfold left_upd, rule Cons.prems(1), unfold at_seq_fun) (use Cons in blast)
qed (simp add: wp_for_each)

section \<open>The callback\<close>

fun place_of :: "access \<Rightarrow> 'w tstate \<Rightarrow> string \<times> int" where
  "place_of Read_access s = (FILE_READ s, LINE_NUM_READ s)"
| "place_of Write_access s = (FILE_WRITE s, LINE_NUM_WRITE s)"

fun hit_by :: "access \<Rightarrow> 'f \<Rightarrow> ('w, 'f) event" where
  "hit_by Read_access frame = ReadHit frame"
| "hit_by Write_access frame = WriteHit frame"

lemma event_hit: "event_old c A (hit_by acc frame) = callback_old c A acc (place_of acc) frame"
  by (cases acc) (simp_all add: read_callback_old_def write_callback_old_def place_of.simps [abs_def])

definition entry_old :: "('w, 't, 'f) lldb_api \<Rightarrow> access \<Rightarrow> 'f \<Rightarrow> string list \<Rightarrow> watch" where
  "entry_old A acc frame as = \<lparr>addrs_of = as, kind_of = kind_letter acc, tid_of = GetThreadID A (GetThread A frame)\<rparr>"

definition reported :: "config \<Rightarrow> access \<Rightarrow> 'w tstate \<Rightarrow> unit outcome \<Rightarrow> 'w tstate \<Rightarrow> bool" where
  "reported c acc s r s' \<longleftrightarrow> OBJ_ARR s' = OBJ_ARR s \<and> STATUS_FOUND s' = (STATUS_FOUND s \<or> acc = Read_access)
     \<and> (if INTERACTIVE c then r = Ret () \<and> \<not> held s' process_lock
        else r = Raise (SystemExit 0) \<and> OUTPUT_FD s' = ClosedFile \<and> held s' process_lock)"

definition recorded :: "watch \<Rightarrow> 'w tstate \<Rightarrow> unit outcome \<Rightarrow> 'w tstate \<Rightarrow> bool" where
  "recorded arr s r s' \<longleftrightarrow> r = Ret () \<and> \<not> held s' process_lock \<and> STATUS_FOUND s' = STATUS_FOUND s
     \<and> (OBJ_ARR s' = OBJ_ARR s @ [arr] \<or> (\<exists>i \<le> length (OBJ_ARR s). OBJ_ARR s' = del_at i (OBJ_ARR s @ [arr])))"

lemma wp_report_left:
  fixes s1 s2 :: "'w tstate"
  assumes "in_event c s1" and "left c s1 (OBJ_ARR s1) s2"
    and "\<And>r s'. reported c acc s1 r s' \<Longrightarrow> Q r s'"
  shows "wp b (bnd (report_match c A acc ID ms) (\<lambda>_. release process_lock)) Q s2"
proof -
  have "in_event c s2" using assms(1,2) by (auto simp: in_event_def left_def old_ok_def)
  show ?thesis
    unfolding wp_bnd
  proof (rule wp_mono [OF wp_report_match [OF \<open>in_event c s2\<close>]])
    fix r :: "unit outcome" and s3 :: "'w tstate"
    assume post: "OBJ_ARR s3 = OBJ_ARR s2 \<and> RUNNING s3 = RUNNING s2 \<and> held s3 = held s2
     \<and> STATUS_FOUND s3 = (STATUS_FOUND s2 \<or> acc = Read_access)
     \<and> (if INTERACTIVE c then r = Ret () \<and> in_event c s3 else r = Raise (SystemExit 0) \<and> OUTPUT_FD s3 = ClosedFile)"
    have at: "held s2 process_lock" using \<open>in_event c s2\<close> by (simp add: in_event_def)
    show "at_seq (\<lambda>_. wp b (release process_lock) Q) Q r s3"
      using post assms(2) at
      by (cases "INTERACTIVE c") (auto simp: wp_release left_def intro!: assms(3), auto simp: reported_def)
  qed
qed

lemma wp_record_release:
  assumes "random_ok A" and "left c s1 (OBJ_ARR s1) s2" and "\<And>r s'. recorded arr s1 r s' \<Longrightarrow> Q r s'"
  shows "wp b (bnd (record_thread c A arr) (\<lambda>_. release process_lock)) Q s2"
  unfolding wp_bnd
  by (rule wp_record_left [OF assms(1,2)]; unfold at_seq_fun wp_release; rule assms(3)) (auto simp: recorded_def left_def)

text \<open>The end of a callback, from the search on.\<close>

lemma wp_search_left:
  fixes s1 s2 :: "'w tstate"
  assumes "random_ok A" and s1: "in_event c s1" and s2: "left c s1 (OBJ_ARR s1) s2"
    and found: "\<And>r s'. \<exists>x \<in> set (OBJ_ARR s1). race_old x arr \<Longrightarrow> reported c acc s1 r s' \<Longrightarrow> Q r s'"
    and free: "\<And>r s'. \<not> (\<exists>x \<in> set (OBJ_ARR s1). race_old x arr) \<Longrightarrow> recorded arr s1 r s' \<Longrightarrow> Q r s'"
  shows "wp b (bnd (match_old arr) (\<lambda>matches.
     bnd (if 0 < length matches then report_match c A acc ID matches else record_thread c A arr) (\<lambda>_. release process_lock))) Q s2"
  unfolding match_old_def wp_bnd [of b "get _"] wp_get at_seq_fun
proof (cases "matches_in_old (OBJ_ARR s2) arr = []", goal_cases)
  case 1
  then have "\<not> (\<exists>x \<in> set (OBJ_ARR s1). race_old x arr)"
    using s2 by (simp add: old_store.finds_nothing left_def)
  from wp_record_release [OF assms(1) s2 free [OF this]]
  show ?case unfolding 1 by (simp only: list.size less_irrefl if_False)
next
  case 2
  then have "\<exists>x \<in> set (OBJ_ARR s1). race_old x arr"
    using s2 by (simp add: old_store.finds_nothing left_def)
  from wp_report_left [OF s1 s2 found [OF this]] 2
  show ?case by (simp only: length_greater_0_conv if_True not_False_eq_True)
qed

lemma wp_callback_race:
  fixes s :: "'w tstate" and place :: "'w tstate \<Rightarrow> string \<times> int"
  assumes idle: "idle c s" and random: "random_ok A"
    and place: "\<And>s'. FILE_READ s' = FILE_READ s \<Longrightarrow> FILE_WRITE s' = FILE_WRITE s \<Longrightarrow> LINE_NUM_READ s' = LINE_NUM_READ s
        \<Longrightarrow> LINE_NUM_WRITE s' = LINE_NUM_WRITE s \<Longrightarrow> place s' = place s"
    and valid: "FileSpecIsValid A (fst (place s))"
    and as: "shown_addrs c A frame (place s) (suspended_world A frame (world s)) = Inr as" "as \<noteq> []"
  shows "wp b (callback_old c A acc place frame) (\<lambda>r s'.
     if \<exists>x \<in> set (OBJ_ARR s). race_old x (entry_old A acc frame as) then reported c acc s r s'
     else recorded (entry_old A acc frame as) s r s') s" (is "wp b _ ?Q s")
proof -
  let ?s1 = "s\<lparr>held := (held s)(process_lock := True), RUNNING := False, world := suspended_world A frame (world s)\<rparr>"
  have s1: "in_event c ?s1" using in_event_acquired [OF idle] by simp
  have left1: "left c ?s1 (OBJ_ARR ?s1) ?s1" using s1 by (simp add: left_def in_event_def)
  have free: "\<not> held s process_lock" using idle by (simp add: idle_def)
  have search: "wp b (bnd (for_each as (\<lambda>obj. bnd (act (time_time A)) (\<lambda>t.
        out_old c (checking_msg acc (str_time A t) (GetThreadID A (GetThread A frame)) obj)))) (\<lambda>_.
     bnd (match_old (entry_old A acc frame as)) (\<lambda>matches.
     bnd (if 0 < length matches then report_match c A acc (GetThreadID A (GetThread A frame)) matches
          else record_thread c A (entry_old A acc frame as)) (\<lambda>_. release process_lock)))) ?Q ?s1"
    unfolding wp_bnd [of b "for_each _ _"]
    by (rule wp_checking_left [OF left1], unfold at_seq_fun, rule wp_search_left [OF random s1], assumption)
      (simp_all add: reported_def recorded_def)
  have enter: "wp b (block [acquire process_lock, modify (\<lambda>s. s\<lparr>RUNNING := False\<rparr>), attempt (Suspend A (GetThread A frame))]) Q' s"
    if "Q' (Ret ()) ?s1" for Q' :: "unit outcome \<Rightarrow> 'w tstate \<Rightarrow> bool"
    using that free by (simp add: wp_bnd wp_acquire wp_modify wp_attempt wp_ret suspended_world_def)
  have p: "place ?s1 = place s" by (rule place) simp_all
  show ?thesis
    unfolding callback_old_def Let_def entry_old_def [symmetric]
  proof (subst wp_bnd, rule enter, unfold at_seq_fun wp_bnd [of b "get _"] wp_get wp_bnd [of b "get_addr_old _ _ _ _ _"] p,
      rule wp_get_addr_old_found [OF valid _ as(2)])
    show "shown_addrs c A frame (place s) (world ?s1) = Inr as" using as(1) by simp
  qed (unfold at_seq_fun, rule search)
qed

section \<open>Detection\<close>



end
