(* ===== verification/TriggerOldThreads.thy ===== *)
theory TriggerOldThreads
  imports TriggerOldProperties TriggerThreads
begin

text \<open>
  The threads of the first script and its copies: callbacks and ticks as lists of statements that interleave. Of a callback,
  finding the addresses, the search and the report or the record are one statement. The script is a \<open>critical_section\<close>, so
  what holds between events holds in every interleaving; unlike the later script's, its ticks print and exit after the section, so
  its interleavings are not the runs of \<open>TriggerOldRuns\<close> up to the timers started.
\<close>

section \<open>Callbacks and ticks as lists of statements\<close>

definition timer_body_old :: "config \<Rightarrow> ('w, 't, 'f) lldb_api \<Rightarrow> ('w tstate, unit) prog" where
  "timer_body_old c A = bnd (get RUNNING) (\<lambda>running.
        if running then block
          [bnd (since_break A (WAIT_TIME c)) (\<lambda>late. whenever late (release_late c A)),
           bnd (get (\<lambda>s. (kill_when_interactive c \<or> \<not> INTERACTIVE c) \<and> length (OBJ_ARR s) = 0)) (\<lambda>idle.
             whenever idle
             (bnd (since_break A (KILL_TIME c)) (\<lambda>late. whenever late (block
               [out_old c (''TERMINATE: No breakpoints hit in '' @ seconds (KILL_TIME c) @ '' sec...''),
                kill c A]))))]
        else whenever (\<not> INTERACTIVE c)
          (bnd (since_break A (TERM_TIME c)) (\<lambda>late. whenever late (block
            [out_old c (''TERMINATE: Unable to start up after '' @ seconds (TERM_TIME c) @ '' sec...''),
             kill c A]))))"

definition status_check_old :: "config \<Rightarrow> ('w tstate, unit) prog" where
  "status_check_old c = bnd (get STATUS_FOUND) (\<lambda>found. whenever found (block
        [out_old c ''### STATUS: MATCH FOUND ###'', throw (SystemExit 0)]))"

fun inside_old :: "config \<Rightarrow> ('w, 't, 'f) lldb_api \<Rightarrow> 'f call \<Rightarrow> ('w tstate, unit) prog list" where
  "inside_old c A (ReadCall frame) =
     [modify (\<lambda>s. s\<lparr>RUNNING := False\<rparr>),
      attempt (Suspend A (GetThread A frame)),
      handle_old c A Read_access (\<lambda>s. (FILE_READ s, LINE_NUM_READ s)) frame]"
| "inside_old c A (WriteCall frame) =
     [modify (\<lambda>s. s\<lparr>RUNNING := False\<rparr>),
      attempt (Suspend A (GetThread A frame)),
      handle_old c A Write_access (\<lambda>s. (FILE_WRITE s, LINE_NUM_WRITE s)) frame]"
| "inside_old c A TimerCall = [timer_body_old c A]"

fun after_old :: "config \<Rightarrow> 'f call \<Rightarrow> ('w tstate, unit) prog list" where
  "after_old c TimerCall = [status_check_old c, start_timer]"
| "after_old c _ = []"

definition statements_old :: "config \<Rightarrow> ('w, 't, 'f) lldb_api \<Rightarrow> 'f call \<Rightarrow> ('w tstate, unit) prog list" where
  "statements_old c A e = acquire process_lock # inside_old c A e @ release process_lock # after_old c e"

text \<open>One after the other, the statements are the callback or the tick.\<close>

lemma block_statements_old: "block (statements_old c A e) = event_old c A (event_of e)"
  by (cases e) (simp_all only: statements_old_def inside_old.simps after_old.simps append_Cons append_Nil event_of.simps
      event_old.simps read_callback_old_def write_callback_old_def callback_block timer_old_def timer_body_old_def
      status_check_old_def start_timer_def)

section \<open>What the statements keep\<close>

lemma keeps_out_old [keeps_intros]: "untouched f \<Longrightarrow> keeps f (out_old c m)"
  unfolding out_old_def by (intro keeps_intros)

lemma keeps_old [keeps_intros]:
  assumes "untouched f"
  shows "keeps f (kill c A)" "keeps f (attempt op)" "keeps f (update_timer_old A)" "keeps f (release_bp_old c A)"
  unfolding kill_def attempt_def update_timer_old_def release_bp_old_def by (intro keeps_intros assms)+

lemma keeps_get_addr_old [keeps_intros]: "untouched f \<Longrightarrow> keeps f (get_addr_old c A frame filename line)"
proof -
  assume f: "untouched f"
  have "keeps f (token_addrs A frame ts addrs)" for ts addrs
    using f by (induction ts arbitrary: addrs) (auto intro!: keeps_intros split: var_value.split)
  with f show ?thesis unfolding get_addr_old_def by (intro keeps_intros)
qed

lemma keeps_record_thread [keeps_intros]: "untouched f \<Longrightarrow> keeps f (record_thread c A arr)"
  unfolding record_thread_def all_bp_hit_old_def by (intro keeps_intros)

lemma keeps_timer_body_old [keeps_intros]: "untouched f \<Longrightarrow> keeps f (timer_body_old c A)"
  unfolding timer_body_old_def since_break_def release_late_def by (intro keeps_intros)

text \<open>In a session that is not interactive, a statement that reports a match never returns.\<close>

definition spares :: "('w tstate, 'a) prog \<Rightarrow> bool" where
  "spares m \<longleftrightarrow> (\<forall>s x s'. m s = Some (Ret x, s') \<longrightarrow> STATUS_FOUND s' = STATUS_FOUND s)"

lemma spares_keeps: "keeps STATUS_FOUND m \<Longrightarrow> spares m"
  unfolding spares_def keeps_def by blast

lemma spares_bnd:
  assumes "spares m" and "\<And>x. spares (k x)"
  shows "spares (bnd m k)"
  unfolding spares_def
proof (intro allI impI)
  fix s x s'
  assume "bnd m k s = Some (Ret x, s')"
  then obtain r s1 where m: "m s = Some (r, s1)" "pass_on k r s1 = Some (Ret x, s')" by (auto simp: bnd_def split: option.splits)
  then obtain y where "m s = Some (Ret y, s1)" "k y s1 = Some (Ret x, s')" by (cases r) auto
  with assms show "STATUS_FOUND s' = STATUS_FOUND s" unfolding spares_def by metis
qed

definition returns_never :: "('s, 'a) prog \<Rightarrow> bool" where
  "returns_never m \<longleftrightarrow> (\<forall>s x s'. m s \<noteq> Some (Ret x, s'))"

lemma returns_never_bnd: "(\<And>x. returns_never (k x)) \<Longrightarrow> returns_never (bnd m k)"
  unfolding returns_never_def bnd_def by (auto split: option.splits) (metis outcome.exhaust pass_on.simps option.inject prod.inject outcome.distinct)

lemma returns_never_first: "returns_never m \<Longrightarrow> returns_never (bnd m k)"
  unfolding returns_never_def bnd_def by (auto split: option.splits) (metis outcome.exhaust pass_on.simps option.inject prod.inject outcome.distinct)

lemma returns_never_last: "returns_never m \<Longrightarrow> returns_never (block (ms @ [m]))"
  by (induction ms) (simp_all add: returns_never_bnd returns_never_first)

lemma returns_never_kill: "returns_never (kill c A)"
  using returns_never_last [of "throw (SystemExit 0)" "[whenever (INTERACTIVE c) (throw (SystemExit 0)), fd_close, perform (HandleCommand A exit_garbage)]"]
  unfolding kill_def append_Cons append_Nil by (simp add: returns_never_def throw_def del: block.simps)

lemma spares_report_match:
  assumes "\<not> INTERACTIVE c"
  shows "spares (report_match c A acc ID ms)"
proof -
  have "returns_never (report_match c A acc ID ms)"
    unfolding report_match_def whenever_def if_P [OF assms]
    using returns_never_last [OF returns_never_kill, of "[_, _, _, _, _, _, _]"] unfolding append_Cons append_Nil .
  then show ?thesis by (simp add: returns_never_def spares_def)
qed

lemma spares_handle_old: "\<not> INTERACTIVE c \<Longrightarrow> spares (handle_old c A acc place frame)"
proof -
  assume c: "\<not> INTERACTIVE c"
  have last: "spares (if p then report_match c A acc ID ms else record_thread c A arr)" for p ID ms arr
    by (simp add: spares_report_match [OF c] spares_keeps [OF keeps_record_thread [OF untouched_fields(3)]])
  show ?thesis
    unfolding handle_old_def Let_def match_old_def
    by (intro spares_bnd; (assumption | rule last | rule spares_keeps, intro keeps_intros untouched_fields))
qed

section \<open>The critical section\<close>

definition spared :: "config \<Rightarrow> 'w tstate \<Rightarrow> bool" where
  "spared c s \<longleftrightarrow> (STATUS_FOUND s \<longrightarrow> INTERACTIVE c)"

lemma spares_inside:
  assumes "m \<in> set (inside_old c A e)" and "m s = Some (Ret (), s')" and "spared c s"
  shows "spared c s'"
proof (cases "INTERACTIVE c")
  case False
  note plain = spares_keeps [OF keeps_assign(1) [OF untouched_fields(3)]] spares_keeps [OF keeps_old(2) [OF untouched_fields(3)]]
    spares_keeps [OF keeps_timer_body_old [OF untouched_fields(3)]]
  have "list_all spares (inside_old c A e)"
    by (cases e) (simp_all add: spares_handle_old [OF False] plain)
  with assms show ?thesis by (auto simp: spares_def spared_def list_all_iff)
qed (simp add: spared_def)

lemma safe_inside: "list_all (safe c) (inside_old c A e)"
proof -
  have "safe c (timer_body_old c A)" unfolding timer_body_old_def by (rule safe_timer_body)
  then show ?thesis by (cases e) (auto simp: safe_handle_old intro!: safe_intros)
qed

lemma later_old:
  assumes "m \<in> set (after_old c e)"
  shows "m \<in> {status_check_old c, start_timer}"
  using assms by (cases e) auto

text \<open>What follows the section changes nothing but the output, the number of timers and, if the output has been closed, \<open>print_lock\<close>.\<close>

definition aside :: "'w tstate \<Rightarrow> 'w tstate \<Rightarrow> bool" where
  "aside s s' \<longleftrightarrow> OBJ_ARR s' = OBJ_ARR s \<and> STATUS_FOUND s' = STATUS_FOUND s \<and> held s' process_lock = held s process_lock
     \<and> OUTPUT_FD s' = OUTPUT_FD s"

lemma later_aside:
  assumes "m \<in> set (after_old c e)" and "m s = Some (r, s')"
  shows "aside s s'" and "spared c s \<Longrightarrow> held s' = held s \<and> r \<noteq> Block"
  using later_old [OF assms(1)] assms(2)
  by (auto simp: status_check_old_def start_timer_def whenever_def out_old_def py_print_def fd_write_def aside_def spared_def bnd_def
      get_def ret_def throw_def modify_def acquire_def release_def split: if_splits fd_state.splits)

definition loaded_old :: "config \<Rightarrow> ('w, 't, 'f) lldb_api \<Rightarrow> 'w tstate \<Rightarrow> bool" where
  "loaded_old c A s \<longleftrightarrow> (\<exists>w. lldb_init_module_old c A (init_state w) = Some (Ret (), s))"

abbreviation threads_old :: "config \<Rightarrow> ('w, 't, 'f) lldb_api \<Rightarrow> ('w tstate, unit) prog list list \<Rightarrow> 'w tstate \<Rightarrow> bool" where
  "threads_old c A \<equiv> interleaved (loaded_old c A) (statements_old c A)"

text \<open>Nothing before the first callback sets the status.\<close>

lemma keeps_status_lock: "keeps STATUS_FOUND (acquire l)" "keeps STATUS_FOUND (release l)"
    "keeps STATUS_FOUND (open_for_write f)"
  by (auto simp: keeps_def acquire_def release_def modify_def open_for_write_def split: if_splits)

lemma keeps_timer_old: "keeps STATUS_FOUND (timer_old c A)"
  unfolding timer_old_def timer_body_old_def [symmetric] by (intro keeps_intros keeps_status_lock untouched_fields)

lemma keeps_set_trigger_old: "keeps STATUS_FOUND (set_trigger_old c A r w)"
  unfolding set_trigger_old_def int_of_def Let_def
  by (intro keeps_intros keeps_timer_old untouched_fields; simp)

lemma keeps_init_old: "keeps STATUS_FOUND (lldb_init_module_old c A)"
  unfolding lldb_init_module_old_def by (intro keeps_intros keeps_set_trigger_old keeps_status_lock untouched_fields)

lemma later_ends:
  assumes "m \<in> set (after_old c e)" and "idle c s" and "spared c s"
  shows "\<exists>r s'. m s = Some (r, s')"
  using later_old [OF assms(1)] assms(2,3)
  by (cases "STATUS_FOUND s") (auto simp: status_check_old_def start_timer_def whenever_def out_old_def py_print_def bnd_def
      get_def ret_def throw_def modify_def idle_def able_def spared_def)

interpretation old_section: critical_section "loaded_old c A" "statements_old c A" "inside_old c A" "after_old c"
    "\<lambda>s. idle c s \<and> spared c s" "\<lambda>s. in_event c s \<and> spared c s" "\<lambda>s. old_ok s \<and> held s process_lock"
  for c A
proof (unfold_locales, goal_cases)
  case (1 e)
  show ?case by (rule statements_old_def)
next
  case (2 s)
  then obtain w where w: "lldb_init_module_old c A (init_state w) = Some (Ret (), s)" by (auto simp: loaded_old_def)
  from keepsD [OF keeps_init_old w] have "\<not> STATUS_FOUND s" by (simp add: init_state_def)
  with idle_init [OF w] show ?case by (simp add: spared_def)
next
  case (3 s)
  then show ?case using in_event_acquired [of c s] by (simp add: idle_def spared_def)
next
  case (4 s)
  then show ?case using idle_released [of c s] by (simp add: in_event_def spared_def)
next
  case (5 m e s)
  from safe_inside [of c A e] 5 have "safe c m" by (simp add: list_all_iff)
  from wp_total [OF safeD [OF this conjunct1 [OF 5(2)]]] obtain r s' where m: "m s = Some (r, s')" "going c (\<lambda>_ _. True) r s'"
    by blast
  with spares_inside [OF 5(1) _ conjunct2 [OF 5(2)]] show ?case by (cases r) (auto simp: going_def in_event_def)
next
  case (6 m e s r s')
  from later_aside [OF this] show ?case
    by (auto simp: aside_def idle_def in_event_def able_def old_ok_def spared_def)
next
  case (7 m e s)
  then obtain r s' where "m s = Some (r, s')" using later_ends [OF 7(1)] by blast
  with later_aside(2) [OF 7(1) this] 7(2) show ?case by blast
next
  case (8 s)
  then show ?case by simp
next
  case (9 s w)
  then show ?case by (simp add: idle_def able_def old_ok_def spared_def)
qed

section \<open>Every interleaving\<close>

text \<open>
  C25: the callbacks and the ticks of the first script are threads whose statements interleave, and in every state
  they reach together, in either mode and whatever the debugger answers: every recorded thread has an address, and two entries
  of different threads and different kinds never share one; at most one thread has taken the process lock and not
  given it back; and as long as a thread has something left to do, some thread can move, unless one has ended without
  giving the lock back.
\<close>

theorem old_threads:
  assumes "threads_old c A ps s"
  shows "list_all (\<lambda>x. addrs_of x \<noteq> []) (OBJ_ARR s)
    \<and> list_all (\<lambda>x. list_all (\<lambda>y. tid_of x = tid_of y \<or> kind_of x = kind_of y \<or> set (addrs_of x) \<inter> set (addrs_of y) = {})
         (OBJ_ARR s)) (OBJ_ARR s)
    \<and> (list_all (waiting (statements_old c A) (after_old c)) ps \<or> held s process_lock \<and> (\<exists>i < length ps.
         within (inside_old c A) (after_old c) (ps ! i) \<and> list_all (waiting (statements_old c A) (after_old c)) (ps[i := []])))
    \<and> (list_all (\<lambda>p. p = []) ps \<or> list_ex (\<lambda>p. can_move p s) ps
       \<or> held s process_lock \<and> list_all (waiting (statements_old c A) (after_old c)) ps)"
proof -
  note shape = old_section.mutual_exclusion [OF assms, unfolded old_section.all_out_def old_section.one_in_def]
  have ok: "old_ok s" using shape by (auto simp: idle_def in_event_def)
  have "list_all (\<lambda>p. p = []) ps \<or> list_ex (\<lambda>p. can_move p s) ps
       \<or> held s process_lock \<and> list_all (waiting (statements_old c A) (after_old c)) ps"
    using old_section.progress [OF assms] by (auto simp: list_all_iff)
  moreover have "list_all (waiting (statements_old c A) (after_old c)) ps \<or> held s process_lock \<and> (\<exists>i < length ps.
       within (inside_old c A) (after_old c) (ps ! i) \<and> list_all (waiting (statements_old c A) (after_old c)) (ps[i := []]))"
    using shape by (auto simp: in_event_def)
  ultimately show ?thesis
    using ok unfolding old_ok_def apart_def race_old_def list_all_iff by auto
qed

text \<open>A write callback that has taken the lock, while a tick waits for it.\<close>

lemma old_threads_witness:
  "\<exists>ps s. threads_old (old_config True) (old_api True) ps s \<and> length ps = 2 \<and> held s process_lock
     \<and> list_all (\<lambda>x. addrs_of x \<noteq> []) (OBJ_ARR s)"
proof -
  obtain s where s: "lldb_init_module_old (old_config True) (old_api True) (init_state old_world) = Some (Ret (), s)"
    using old_run_good_both by (auto simp: old_run_good_def old_run_def ended_def split: option.splits prod.splits outcome.splits)
  have free: "\<not> held s process_lock" using idle_init [OF s] by (simp add: idle_def)
  let ?ps = "[statements_old (old_config True) (old_api True) (WriteCall 1), statements_old (old_config True) (old_api True) TimerCall]"
  let ?rest = "inside_old (old_config True) (old_api True) (WriteCall 1) @ release process_lock # after_old (old_config True) (WriteCall (1 :: nat))"
  have "threads_old (old_config True) (old_api True) ([] @ [statements_old (old_config True) (old_api True) (WriteCall 1)]
      @ [statements_old (old_config True) (old_api True) TimerCall]) s"
    unfolding append_assoc [symmetric] by (intro threads_call threads_start) (use s in \<open>auto simp: loaded_old_def\<close>)
  then have two: "threads_old (old_config True) (old_api True) ?ps s" by simp
  have "threads_old (old_config True) (old_api True) (?ps[0 := ?rest]) (s\<lparr>held := (held s)(process_lock := True)\<rparr>)"
    by (rule threads_step [OF two, of 0 "acquire process_lock"])
       (use free in \<open>simp_all add: statements_old_def acquire_def\<close>)
  from old_threads [OF this] this show ?thesis by (intro exI conjI) (assumption | simp)+
qed

end
