(* ===== verification/TriggerCopies.thy ===== *)
theory TriggerCopies
  imports TriggerOldProperties
begin

text \<open>
  The copies of the first trigger script under \<open>scripts/conbreak/\<close>, one per program under test. They differ in their
  constants, in whether a tab delimits tokens, and in whether the timer's give-up looks at \<open>INTERACTIVE\<close>; the rest
  of their text is the same, so each is the script of \<open>TriggerOld\<close> at its own configuration.
\<close>

section \<open>Configurations\<close>

definition copy_config :: "int \<Rightarrow> int \<Rightarrow> bool \<Rightarrow> bool \<Rightarrow> bool \<Rightarrow> config" where
  "copy_config kill_time term_time interactive tabs always = \<lparr>WAIT_TIME = 1000, KILL_TIME = kill_time,
     TERM_TIME = term_time, INTERACTIVE = interactive, TSAN_REPORT_FILE = ''report.txt'', ARG_FILE = ''args.txt'',
     OUTPUT_FILENAME = ''lldb_out.txt'',
     break_chars = [CHR '' '', nl] @ (if tabs then [tab] else []) @ [CHR '','', CHR '';'', CHR ''('', CHR '')''],
     kill_when_interactive = always\<rparr>"

definition apache_21287_config :: config where
  "apache_21287_config = copy_config 5000 20000 True False False"

definition apache_21287_old_config :: config where
  "apache_21287_old_config = copy_config 5000 20000 False False True"

definition apache_25520_config :: config where
  "apache_25520_config = copy_config 5000 20000 False False True"

definition apache_46215_config :: config where
  "apache_46215_config = copy_config 5000 20000 False False False"

definition mysql_35589_1_config :: config where
  "mysql_35589_1_config = copy_config 5000 20000 False True False"

definition mysql_35589_2_config :: config where
  "mysql_35589_2_config = copy_config 5000 20000 False True False"

definition mysql_24988_1_config :: config where
  "mysql_24988_1_config = copy_config 10000 20000 False True False"

definition mysql_24988_2_config :: config where
  "mysql_24988_2_config = copy_config 10000 20000 False True False"

definition memcached_1_4_25_config :: config where
  "memcached_1_4_25_config = copy_config 5000 30000 False True False"

section \<open>The scripts\<close>

text \<open>
  One definition per function of a copy, in the order of its text; the globals at the start; the events of a session.
\<close>

subsection \<open>\<open>apache-21287/trigger/trigger.py\<close>\<close>

definition apache_21287_start :: "'w \<Rightarrow> 'w tstate" where
  "apache_21287_start = init_state"

definition apache_21287_set_trigger :: "('w, 't, 'f) lldb_api \<Rightarrow> string \<Rightarrow> string \<Rightarrow> ('w tstate, unit) prog" where
  "apache_21287_set_trigger = set_trigger_old apache_21287_config"

definition apache_21287_out :: "string \<Rightarrow> ('w tstate, unit) prog" where
  "apache_21287_out = out_old apache_21287_config"

definition apache_21287_kill :: "('w, 't, 'f) lldb_api \<Rightarrow> ('w tstate, unit) prog" where
  "apache_21287_kill = kill apache_21287_config"

definition apache_21287_timer :: "('w, 't, 'f) lldb_api \<Rightarrow> ('w tstate, unit) prog" where
  "apache_21287_timer = timer_old apache_21287_config"

definition apache_21287_update_timer :: "('w, 't, 'f) lldb_api \<Rightarrow> ('w tstate, unit) prog" where
  "apache_21287_update_timer = update_timer_old"

definition apache_21287_all_bp_hit :: "('w, 't, 'f) lldb_api \<Rightarrow> ('w tstate, bool) prog" where
  "apache_21287_all_bp_hit = all_bp_hit_old"

definition apache_21287_release_bp :: "('w, 't, 'f) lldb_api \<Rightarrow> ('w tstate, bool) prog" where
  "apache_21287_release_bp = release_bp_old apache_21287_config"

definition apache_21287_get_addr :: "('w, 't, 'f) lldb_api \<Rightarrow> 'f \<Rightarrow> string \<Rightarrow> int \<Rightarrow> ('w tstate, string list) prog" where
  "apache_21287_get_addr = get_addr_old apache_21287_config"

definition apache_21287_match :: "watch \<Rightarrow> ('w tstate, (string \<times> nat) list) prog" where
  "apache_21287_match = match_old"

definition apache_21287_read_callback :: "('w, 't, 'f) lldb_api \<Rightarrow> 'f \<Rightarrow> ('w tstate, unit) prog" where
  "apache_21287_read_callback = read_callback_old apache_21287_config"

definition apache_21287_write_callback :: "('w, 't, 'f) lldb_api \<Rightarrow> 'f \<Rightarrow> ('w tstate, unit) prog" where
  "apache_21287_write_callback = write_callback_old apache_21287_config"

definition apache_21287_load :: "('w, 't, 'f) lldb_api \<Rightarrow> ('w tstate, unit) prog" where
  "apache_21287_load = lldb_init_module_old apache_21287_config"

fun apache_21287_event :: "('w, 't, 'f) lldb_api \<Rightarrow> ('w, 'f) event \<Rightarrow> ('w tstate, unit) prog" where
  "apache_21287_event A (ReadHit frame) = apache_21287_read_callback A frame"
| "apache_21287_event A (WriteHit frame) = apache_21287_write_callback A frame"
| "apache_21287_event A Tick = apache_21287_timer A"
| "apache_21287_event A (Environment w) = modify (\<lambda>s. s\<lparr>world := w\<rparr>)"

subsection \<open>\<open>apache-21287/old/trigger.py\<close>\<close>

definition apache_21287_old_start :: "'w \<Rightarrow> 'w tstate" where
  "apache_21287_old_start = init_state"

definition apache_21287_old_set_trigger :: "('w, 't, 'f) lldb_api \<Rightarrow> string \<Rightarrow> string \<Rightarrow> ('w tstate, unit) prog" where
  "apache_21287_old_set_trigger = set_trigger_old apache_21287_old_config"

definition apache_21287_old_out :: "string \<Rightarrow> ('w tstate, unit) prog" where
  "apache_21287_old_out = out_old apache_21287_old_config"

definition apache_21287_old_kill :: "('w, 't, 'f) lldb_api \<Rightarrow> ('w tstate, unit) prog" where
  "apache_21287_old_kill = kill apache_21287_old_config"

definition apache_21287_old_timer :: "('w, 't, 'f) lldb_api \<Rightarrow> ('w tstate, unit) prog" where
  "apache_21287_old_timer = timer_old apache_21287_old_config"

definition apache_21287_old_update_timer :: "('w, 't, 'f) lldb_api \<Rightarrow> ('w tstate, unit) prog" where
  "apache_21287_old_update_timer = update_timer_old"

definition apache_21287_old_all_bp_hit :: "('w, 't, 'f) lldb_api \<Rightarrow> ('w tstate, bool) prog" where
  "apache_21287_old_all_bp_hit = all_bp_hit_old"

definition apache_21287_old_release_bp :: "('w, 't, 'f) lldb_api \<Rightarrow> ('w tstate, bool) prog" where
  "apache_21287_old_release_bp = release_bp_old apache_21287_old_config"

definition apache_21287_old_get_addr :: "('w, 't, 'f) lldb_api \<Rightarrow> 'f \<Rightarrow> string \<Rightarrow> int \<Rightarrow> ('w tstate, string list) prog" where
  "apache_21287_old_get_addr = get_addr_old apache_21287_old_config"

definition apache_21287_old_match :: "watch \<Rightarrow> ('w tstate, (string \<times> nat) list) prog" where
  "apache_21287_old_match = match_old"

definition apache_21287_old_read_callback :: "('w, 't, 'f) lldb_api \<Rightarrow> 'f \<Rightarrow> ('w tstate, unit) prog" where
  "apache_21287_old_read_callback = read_callback_old apache_21287_old_config"

definition apache_21287_old_write_callback :: "('w, 't, 'f) lldb_api \<Rightarrow> 'f \<Rightarrow> ('w tstate, unit) prog" where
  "apache_21287_old_write_callback = write_callback_old apache_21287_old_config"

definition apache_21287_old_load :: "('w, 't, 'f) lldb_api \<Rightarrow> ('w tstate, unit) prog" where
  "apache_21287_old_load = lldb_init_module_old apache_21287_old_config"

fun apache_21287_old_event :: "('w, 't, 'f) lldb_api \<Rightarrow> ('w, 'f) event \<Rightarrow> ('w tstate, unit) prog" where
  "apache_21287_old_event A (ReadHit frame) = apache_21287_old_read_callback A frame"
| "apache_21287_old_event A (WriteHit frame) = apache_21287_old_write_callback A frame"
| "apache_21287_old_event A Tick = apache_21287_old_timer A"
| "apache_21287_old_event A (Environment w) = modify (\<lambda>s. s\<lparr>world := w\<rparr>)"

subsection \<open>\<open>apache-25520/trigger/trigger.py\<close>\<close>

definition apache_25520_start :: "'w \<Rightarrow> 'w tstate" where
  "apache_25520_start = init_state"

definition apache_25520_set_trigger :: "('w, 't, 'f) lldb_api \<Rightarrow> string \<Rightarrow> string \<Rightarrow> ('w tstate, unit) prog" where
  "apache_25520_set_trigger = set_trigger_old apache_25520_config"

definition apache_25520_out :: "string \<Rightarrow> ('w tstate, unit) prog" where
  "apache_25520_out = out_old apache_25520_config"

definition apache_25520_kill :: "('w, 't, 'f) lldb_api \<Rightarrow> ('w tstate, unit) prog" where
  "apache_25520_kill = kill apache_25520_config"

definition apache_25520_timer :: "('w, 't, 'f) lldb_api \<Rightarrow> ('w tstate, unit) prog" where
  "apache_25520_timer = timer_old apache_25520_config"

definition apache_25520_update_timer :: "('w, 't, 'f) lldb_api \<Rightarrow> ('w tstate, unit) prog" where
  "apache_25520_update_timer = update_timer_old"

definition apache_25520_all_bp_hit :: "('w, 't, 'f) lldb_api \<Rightarrow> ('w tstate, bool) prog" where
  "apache_25520_all_bp_hit = all_bp_hit_old"

definition apache_25520_release_bp :: "('w, 't, 'f) lldb_api \<Rightarrow> ('w tstate, bool) prog" where
  "apache_25520_release_bp = release_bp_old apache_25520_config"

definition apache_25520_get_addr :: "('w, 't, 'f) lldb_api \<Rightarrow> 'f \<Rightarrow> string \<Rightarrow> int \<Rightarrow> ('w tstate, string list) prog" where
  "apache_25520_get_addr = get_addr_old apache_25520_config"

definition apache_25520_match :: "watch \<Rightarrow> ('w tstate, (string \<times> nat) list) prog" where
  "apache_25520_match = match_old"

definition apache_25520_read_callback :: "('w, 't, 'f) lldb_api \<Rightarrow> 'f \<Rightarrow> ('w tstate, unit) prog" where
  "apache_25520_read_callback = read_callback_old apache_25520_config"

definition apache_25520_write_callback :: "('w, 't, 'f) lldb_api \<Rightarrow> 'f \<Rightarrow> ('w tstate, unit) prog" where
  "apache_25520_write_callback = write_callback_old apache_25520_config"

definition apache_25520_load :: "('w, 't, 'f) lldb_api \<Rightarrow> ('w tstate, unit) prog" where
  "apache_25520_load = lldb_init_module_old apache_25520_config"

fun apache_25520_event :: "('w, 't, 'f) lldb_api \<Rightarrow> ('w, 'f) event \<Rightarrow> ('w tstate, unit) prog" where
  "apache_25520_event A (ReadHit frame) = apache_25520_read_callback A frame"
| "apache_25520_event A (WriteHit frame) = apache_25520_write_callback A frame"
| "apache_25520_event A Tick = apache_25520_timer A"
| "apache_25520_event A (Environment w) = modify (\<lambda>s. s\<lparr>world := w\<rparr>)"

subsection \<open>\<open>apache-46215/trigger/trigger.py\<close>\<close>

definition apache_46215_start :: "'w \<Rightarrow> 'w tstate" where
  "apache_46215_start = init_state"

definition apache_46215_set_trigger :: "('w, 't, 'f) lldb_api \<Rightarrow> string \<Rightarrow> string \<Rightarrow> ('w tstate, unit) prog" where
  "apache_46215_set_trigger = set_trigger_old apache_46215_config"

definition apache_46215_out :: "string \<Rightarrow> ('w tstate, unit) prog" where
  "apache_46215_out = out_old apache_46215_config"

definition apache_46215_kill :: "('w, 't, 'f) lldb_api \<Rightarrow> ('w tstate, unit) prog" where
  "apache_46215_kill = kill apache_46215_config"

definition apache_46215_timer :: "('w, 't, 'f) lldb_api \<Rightarrow> ('w tstate, unit) prog" where
  "apache_46215_timer = timer_old apache_46215_config"

definition apache_46215_update_timer :: "('w, 't, 'f) lldb_api \<Rightarrow> ('w tstate, unit) prog" where
  "apache_46215_update_timer = update_timer_old"

definition apache_46215_all_bp_hit :: "('w, 't, 'f) lldb_api \<Rightarrow> ('w tstate, bool) prog" where
  "apache_46215_all_bp_hit = all_bp_hit_old"

definition apache_46215_release_bp :: "('w, 't, 'f) lldb_api \<Rightarrow> ('w tstate, bool) prog" where
  "apache_46215_release_bp = release_bp_old apache_46215_config"

definition apache_46215_get_addr :: "('w, 't, 'f) lldb_api \<Rightarrow> 'f \<Rightarrow> string \<Rightarrow> int \<Rightarrow> ('w tstate, string list) prog" where
  "apache_46215_get_addr = get_addr_old apache_46215_config"

definition apache_46215_match :: "watch \<Rightarrow> ('w tstate, (string \<times> nat) list) prog" where
  "apache_46215_match = match_old"

definition apache_46215_read_callback :: "('w, 't, 'f) lldb_api \<Rightarrow> 'f \<Rightarrow> ('w tstate, unit) prog" where
  "apache_46215_read_callback = read_callback_old apache_46215_config"

definition apache_46215_write_callback :: "('w, 't, 'f) lldb_api \<Rightarrow> 'f \<Rightarrow> ('w tstate, unit) prog" where
  "apache_46215_write_callback = write_callback_old apache_46215_config"

definition apache_46215_load :: "('w, 't, 'f) lldb_api \<Rightarrow> ('w tstate, unit) prog" where
  "apache_46215_load = lldb_init_module_old apache_46215_config"

fun apache_46215_event :: "('w, 't, 'f) lldb_api \<Rightarrow> ('w, 'f) event \<Rightarrow> ('w tstate, unit) prog" where
  "apache_46215_event A (ReadHit frame) = apache_46215_read_callback A frame"
| "apache_46215_event A (WriteHit frame) = apache_46215_write_callback A frame"
| "apache_46215_event A Tick = apache_46215_timer A"
| "apache_46215_event A (Environment w) = modify (\<lambda>s. s\<lparr>world := w\<rparr>)"

subsection \<open>\<open>mysql-35589-1/trigger/trigger.py\<close>\<close>

definition mysql_35589_1_start :: "'w \<Rightarrow> 'w tstate" where
  "mysql_35589_1_start = init_state"

definition mysql_35589_1_set_trigger :: "('w, 't, 'f) lldb_api \<Rightarrow> string \<Rightarrow> string \<Rightarrow> ('w tstate, unit) prog" where
  "mysql_35589_1_set_trigger = set_trigger_old mysql_35589_1_config"

definition mysql_35589_1_out :: "string \<Rightarrow> ('w tstate, unit) prog" where
  "mysql_35589_1_out = out_old mysql_35589_1_config"

definition mysql_35589_1_kill :: "('w, 't, 'f) lldb_api \<Rightarrow> ('w tstate, unit) prog" where
  "mysql_35589_1_kill = kill mysql_35589_1_config"

definition mysql_35589_1_timer :: "('w, 't, 'f) lldb_api \<Rightarrow> ('w tstate, unit) prog" where
  "mysql_35589_1_timer = timer_old mysql_35589_1_config"

definition mysql_35589_1_update_timer :: "('w, 't, 'f) lldb_api \<Rightarrow> ('w tstate, unit) prog" where
  "mysql_35589_1_update_timer = update_timer_old"

definition mysql_35589_1_all_bp_hit :: "('w, 't, 'f) lldb_api \<Rightarrow> ('w tstate, bool) prog" where
  "mysql_35589_1_all_bp_hit = all_bp_hit_old"

definition mysql_35589_1_release_bp :: "('w, 't, 'f) lldb_api \<Rightarrow> ('w tstate, bool) prog" where
  "mysql_35589_1_release_bp = release_bp_old mysql_35589_1_config"

definition mysql_35589_1_get_addr :: "('w, 't, 'f) lldb_api \<Rightarrow> 'f \<Rightarrow> string \<Rightarrow> int \<Rightarrow> ('w tstate, string list) prog" where
  "mysql_35589_1_get_addr = get_addr_old mysql_35589_1_config"

definition mysql_35589_1_match :: "watch \<Rightarrow> ('w tstate, (string \<times> nat) list) prog" where
  "mysql_35589_1_match = match_old"

definition mysql_35589_1_read_callback :: "('w, 't, 'f) lldb_api \<Rightarrow> 'f \<Rightarrow> ('w tstate, unit) prog" where
  "mysql_35589_1_read_callback = read_callback_old mysql_35589_1_config"

definition mysql_35589_1_write_callback :: "('w, 't, 'f) lldb_api \<Rightarrow> 'f \<Rightarrow> ('w tstate, unit) prog" where
  "mysql_35589_1_write_callback = write_callback_old mysql_35589_1_config"

definition mysql_35589_1_load :: "('w, 't, 'f) lldb_api \<Rightarrow> ('w tstate, unit) prog" where
  "mysql_35589_1_load = lldb_init_module_old mysql_35589_1_config"

fun mysql_35589_1_event :: "('w, 't, 'f) lldb_api \<Rightarrow> ('w, 'f) event \<Rightarrow> ('w tstate, unit) prog" where
  "mysql_35589_1_event A (ReadHit frame) = mysql_35589_1_read_callback A frame"
| "mysql_35589_1_event A (WriteHit frame) = mysql_35589_1_write_callback A frame"
| "mysql_35589_1_event A Tick = mysql_35589_1_timer A"
| "mysql_35589_1_event A (Environment w) = modify (\<lambda>s. s\<lparr>world := w\<rparr>)"

subsection \<open>\<open>mysql-35589-2/trigger/trigger.py\<close>\<close>

definition mysql_35589_2_start :: "'w \<Rightarrow> 'w tstate" where
  "mysql_35589_2_start = init_state"

definition mysql_35589_2_set_trigger :: "('w, 't, 'f) lldb_api \<Rightarrow> string \<Rightarrow> string \<Rightarrow> ('w tstate, unit) prog" where
  "mysql_35589_2_set_trigger = set_trigger_old mysql_35589_2_config"

definition mysql_35589_2_out :: "string \<Rightarrow> ('w tstate, unit) prog" where
  "mysql_35589_2_out = out_old mysql_35589_2_config"

definition mysql_35589_2_kill :: "('w, 't, 'f) lldb_api \<Rightarrow> ('w tstate, unit) prog" where
  "mysql_35589_2_kill = kill mysql_35589_2_config"

definition mysql_35589_2_timer :: "('w, 't, 'f) lldb_api \<Rightarrow> ('w tstate, unit) prog" where
  "mysql_35589_2_timer = timer_old mysql_35589_2_config"

definition mysql_35589_2_update_timer :: "('w, 't, 'f) lldb_api \<Rightarrow> ('w tstate, unit) prog" where
  "mysql_35589_2_update_timer = update_timer_old"

definition mysql_35589_2_all_bp_hit :: "('w, 't, 'f) lldb_api \<Rightarrow> ('w tstate, bool) prog" where
  "mysql_35589_2_all_bp_hit = all_bp_hit_old"

definition mysql_35589_2_release_bp :: "('w, 't, 'f) lldb_api \<Rightarrow> ('w tstate, bool) prog" where
  "mysql_35589_2_release_bp = release_bp_old mysql_35589_2_config"

definition mysql_35589_2_get_addr :: "('w, 't, 'f) lldb_api \<Rightarrow> 'f \<Rightarrow> string \<Rightarrow> int \<Rightarrow> ('w tstate, string list) prog" where
  "mysql_35589_2_get_addr = get_addr_old mysql_35589_2_config"

definition mysql_35589_2_match :: "watch \<Rightarrow> ('w tstate, (string \<times> nat) list) prog" where
  "mysql_35589_2_match = match_old"

definition mysql_35589_2_read_callback :: "('w, 't, 'f) lldb_api \<Rightarrow> 'f \<Rightarrow> ('w tstate, unit) prog" where
  "mysql_35589_2_read_callback = read_callback_old mysql_35589_2_config"

definition mysql_35589_2_write_callback :: "('w, 't, 'f) lldb_api \<Rightarrow> 'f \<Rightarrow> ('w tstate, unit) prog" where
  "mysql_35589_2_write_callback = write_callback_old mysql_35589_2_config"

definition mysql_35589_2_load :: "('w, 't, 'f) lldb_api \<Rightarrow> ('w tstate, unit) prog" where
  "mysql_35589_2_load = lldb_init_module_old mysql_35589_2_config"

fun mysql_35589_2_event :: "('w, 't, 'f) lldb_api \<Rightarrow> ('w, 'f) event \<Rightarrow> ('w tstate, unit) prog" where
  "mysql_35589_2_event A (ReadHit frame) = mysql_35589_2_read_callback A frame"
| "mysql_35589_2_event A (WriteHit frame) = mysql_35589_2_write_callback A frame"
| "mysql_35589_2_event A Tick = mysql_35589_2_timer A"
| "mysql_35589_2_event A (Environment w) = modify (\<lambda>s. s\<lparr>world := w\<rparr>)"

subsection \<open>\<open>mysql-24988-1/trigger/trigger.py\<close>\<close>

definition mysql_24988_1_start :: "'w \<Rightarrow> 'w tstate" where
  "mysql_24988_1_start = init_state"

definition mysql_24988_1_set_trigger :: "('w, 't, 'f) lldb_api \<Rightarrow> string \<Rightarrow> string \<Rightarrow> ('w tstate, unit) prog" where
  "mysql_24988_1_set_trigger = set_trigger_old mysql_24988_1_config"

definition mysql_24988_1_out :: "string \<Rightarrow> ('w tstate, unit) prog" where
  "mysql_24988_1_out = out_old mysql_24988_1_config"

definition mysql_24988_1_kill :: "('w, 't, 'f) lldb_api \<Rightarrow> ('w tstate, unit) prog" where
  "mysql_24988_1_kill = kill mysql_24988_1_config"

definition mysql_24988_1_timer :: "('w, 't, 'f) lldb_api \<Rightarrow> ('w tstate, unit) prog" where
  "mysql_24988_1_timer = timer_old mysql_24988_1_config"

definition mysql_24988_1_update_timer :: "('w, 't, 'f) lldb_api \<Rightarrow> ('w tstate, unit) prog" where
  "mysql_24988_1_update_timer = update_timer_old"

definition mysql_24988_1_all_bp_hit :: "('w, 't, 'f) lldb_api \<Rightarrow> ('w tstate, bool) prog" where
  "mysql_24988_1_all_bp_hit = all_bp_hit_old"

definition mysql_24988_1_release_bp :: "('w, 't, 'f) lldb_api \<Rightarrow> ('w tstate, bool) prog" where
  "mysql_24988_1_release_bp = release_bp_old mysql_24988_1_config"

definition mysql_24988_1_get_addr :: "('w, 't, 'f) lldb_api \<Rightarrow> 'f \<Rightarrow> string \<Rightarrow> int \<Rightarrow> ('w tstate, string list) prog" where
  "mysql_24988_1_get_addr = get_addr_old mysql_24988_1_config"

definition mysql_24988_1_match :: "watch \<Rightarrow> ('w tstate, (string \<times> nat) list) prog" where
  "mysql_24988_1_match = match_old"

definition mysql_24988_1_read_callback :: "('w, 't, 'f) lldb_api \<Rightarrow> 'f \<Rightarrow> ('w tstate, unit) prog" where
  "mysql_24988_1_read_callback = read_callback_old mysql_24988_1_config"

definition mysql_24988_1_write_callback :: "('w, 't, 'f) lldb_api \<Rightarrow> 'f \<Rightarrow> ('w tstate, unit) prog" where
  "mysql_24988_1_write_callback = write_callback_old mysql_24988_1_config"

definition mysql_24988_1_load :: "('w, 't, 'f) lldb_api \<Rightarrow> ('w tstate, unit) prog" where
  "mysql_24988_1_load = lldb_init_module_old mysql_24988_1_config"

fun mysql_24988_1_event :: "('w, 't, 'f) lldb_api \<Rightarrow> ('w, 'f) event \<Rightarrow> ('w tstate, unit) prog" where
  "mysql_24988_1_event A (ReadHit frame) = mysql_24988_1_read_callback A frame"
| "mysql_24988_1_event A (WriteHit frame) = mysql_24988_1_write_callback A frame"
| "mysql_24988_1_event A Tick = mysql_24988_1_timer A"
| "mysql_24988_1_event A (Environment w) = modify (\<lambda>s. s\<lparr>world := w\<rparr>)"

subsection \<open>\<open>mysql-24988-2/trigger/trigger.py\<close>\<close>

definition mysql_24988_2_start :: "'w \<Rightarrow> 'w tstate" where
  "mysql_24988_2_start = init_state"

definition mysql_24988_2_set_trigger :: "('w, 't, 'f) lldb_api \<Rightarrow> string \<Rightarrow> string \<Rightarrow> ('w tstate, unit) prog" where
  "mysql_24988_2_set_trigger = set_trigger_old mysql_24988_2_config"

definition mysql_24988_2_out :: "string \<Rightarrow> ('w tstate, unit) prog" where
  "mysql_24988_2_out = out_old mysql_24988_2_config"

definition mysql_24988_2_kill :: "('w, 't, 'f) lldb_api \<Rightarrow> ('w tstate, unit) prog" where
  "mysql_24988_2_kill = kill mysql_24988_2_config"

definition mysql_24988_2_timer :: "('w, 't, 'f) lldb_api \<Rightarrow> ('w tstate, unit) prog" where
  "mysql_24988_2_timer = timer_old mysql_24988_2_config"

definition mysql_24988_2_update_timer :: "('w, 't, 'f) lldb_api \<Rightarrow> ('w tstate, unit) prog" where
  "mysql_24988_2_update_timer = update_timer_old"

definition mysql_24988_2_all_bp_hit :: "('w, 't, 'f) lldb_api \<Rightarrow> ('w tstate, bool) prog" where
  "mysql_24988_2_all_bp_hit = all_bp_hit_old"

definition mysql_24988_2_release_bp :: "('w, 't, 'f) lldb_api \<Rightarrow> ('w tstate, bool) prog" where
  "mysql_24988_2_release_bp = release_bp_old mysql_24988_2_config"

definition mysql_24988_2_get_addr :: "('w, 't, 'f) lldb_api \<Rightarrow> 'f \<Rightarrow> string \<Rightarrow> int \<Rightarrow> ('w tstate, string list) prog" where
  "mysql_24988_2_get_addr = get_addr_old mysql_24988_2_config"

definition mysql_24988_2_match :: "watch \<Rightarrow> ('w tstate, (string \<times> nat) list) prog" where
  "mysql_24988_2_match = match_old"

definition mysql_24988_2_read_callback :: "('w, 't, 'f) lldb_api \<Rightarrow> 'f \<Rightarrow> ('w tstate, unit) prog" where
  "mysql_24988_2_read_callback = read_callback_old mysql_24988_2_config"

definition mysql_24988_2_write_callback :: "('w, 't, 'f) lldb_api \<Rightarrow> 'f \<Rightarrow> ('w tstate, unit) prog" where
  "mysql_24988_2_write_callback = write_callback_old mysql_24988_2_config"

definition mysql_24988_2_load :: "('w, 't, 'f) lldb_api \<Rightarrow> ('w tstate, unit) prog" where
  "mysql_24988_2_load = lldb_init_module_old mysql_24988_2_config"

fun mysql_24988_2_event :: "('w, 't, 'f) lldb_api \<Rightarrow> ('w, 'f) event \<Rightarrow> ('w tstate, unit) prog" where
  "mysql_24988_2_event A (ReadHit frame) = mysql_24988_2_read_callback A frame"
| "mysql_24988_2_event A (WriteHit frame) = mysql_24988_2_write_callback A frame"
| "mysql_24988_2_event A Tick = mysql_24988_2_timer A"
| "mysql_24988_2_event A (Environment w) = modify (\<lambda>s. s\<lparr>world := w\<rparr>)"

subsection \<open>\<open>memcached-1.4.25/trigger/trigger.py\<close>\<close>

definition memcached_1_4_25_start :: "'w \<Rightarrow> 'w tstate" where
  "memcached_1_4_25_start = init_state"

definition memcached_1_4_25_set_trigger :: "('w, 't, 'f) lldb_api \<Rightarrow> string \<Rightarrow> string \<Rightarrow> ('w tstate, unit) prog" where
  "memcached_1_4_25_set_trigger = set_trigger_old memcached_1_4_25_config"

definition memcached_1_4_25_out :: "string \<Rightarrow> ('w tstate, unit) prog" where
  "memcached_1_4_25_out = out_old memcached_1_4_25_config"

definition memcached_1_4_25_kill :: "('w, 't, 'f) lldb_api \<Rightarrow> ('w tstate, unit) prog" where
  "memcached_1_4_25_kill = kill memcached_1_4_25_config"

definition memcached_1_4_25_timer :: "('w, 't, 'f) lldb_api \<Rightarrow> ('w tstate, unit) prog" where
  "memcached_1_4_25_timer = timer_old memcached_1_4_25_config"

definition memcached_1_4_25_update_timer :: "('w, 't, 'f) lldb_api \<Rightarrow> ('w tstate, unit) prog" where
  "memcached_1_4_25_update_timer = update_timer_old"

definition memcached_1_4_25_all_bp_hit :: "('w, 't, 'f) lldb_api \<Rightarrow> ('w tstate, bool) prog" where
  "memcached_1_4_25_all_bp_hit = all_bp_hit_old"

definition memcached_1_4_25_release_bp :: "('w, 't, 'f) lldb_api \<Rightarrow> ('w tstate, bool) prog" where
  "memcached_1_4_25_release_bp = release_bp_old memcached_1_4_25_config"

definition memcached_1_4_25_get_addr :: "('w, 't, 'f) lldb_api \<Rightarrow> 'f \<Rightarrow> string \<Rightarrow> int \<Rightarrow> ('w tstate, string list) prog" where
  "memcached_1_4_25_get_addr = get_addr_old memcached_1_4_25_config"

definition memcached_1_4_25_match :: "watch \<Rightarrow> ('w tstate, (string \<times> nat) list) prog" where
  "memcached_1_4_25_match = match_old"

definition memcached_1_4_25_read_callback :: "('w, 't, 'f) lldb_api \<Rightarrow> 'f \<Rightarrow> ('w tstate, unit) prog" where
  "memcached_1_4_25_read_callback = read_callback_old memcached_1_4_25_config"

definition memcached_1_4_25_write_callback :: "('w, 't, 'f) lldb_api \<Rightarrow> 'f \<Rightarrow> ('w tstate, unit) prog" where
  "memcached_1_4_25_write_callback = write_callback_old memcached_1_4_25_config"

definition memcached_1_4_25_load :: "('w, 't, 'f) lldb_api \<Rightarrow> ('w tstate, unit) prog" where
  "memcached_1_4_25_load = lldb_init_module_old memcached_1_4_25_config"

fun memcached_1_4_25_event :: "('w, 't, 'f) lldb_api \<Rightarrow> ('w, 'f) event \<Rightarrow> ('w tstate, unit) prog" where
  "memcached_1_4_25_event A (ReadHit frame) = memcached_1_4_25_read_callback A frame"
| "memcached_1_4_25_event A (WriteHit frame) = memcached_1_4_25_write_callback A frame"
| "memcached_1_4_25_event A Tick = memcached_1_4_25_timer A"
| "memcached_1_4_25_event A (Environment w) = modify (\<lambda>s. s\<lparr>world := w\<rparr>)"

lemmas copy_loads = apache_21287_load_def
  apache_21287_old_load_def
  apache_25520_load_def
  apache_46215_load_def
  mysql_35589_1_load_def
  mysql_35589_2_load_def
  mysql_24988_1_load_def
  mysql_24988_2_load_def
  memcached_1_4_25_load_def

lemmas copy_handlers = apache_21287_read_callback_def
  apache_21287_write_callback_def
  apache_21287_timer_def
  apache_21287_old_read_callback_def
  apache_21287_old_write_callback_def
  apache_21287_old_timer_def
  apache_25520_read_callback_def
  apache_25520_write_callback_def
  apache_25520_timer_def
  apache_46215_read_callback_def
  apache_46215_write_callback_def
  apache_46215_timer_def
  mysql_35589_1_read_callback_def
  mysql_35589_1_write_callback_def
  mysql_35589_1_timer_def
  mysql_35589_2_read_callback_def
  mysql_35589_2_write_callback_def
  mysql_35589_2_timer_def
  mysql_24988_1_read_callback_def
  mysql_24988_1_write_callback_def
  mysql_24988_1_timer_def
  mysql_24988_2_read_callback_def
  mysql_24988_2_write_callback_def
  mysql_24988_2_timer_def
  memcached_1_4_25_read_callback_def
  memcached_1_4_25_write_callback_def
  memcached_1_4_25_timer_def

lemma copy_events:
  "apache_21287_event A = event_old apache_21287_config A"
  "apache_21287_old_event A = event_old apache_21287_old_config A"
  "apache_25520_event A = event_old apache_25520_config A"
  "apache_46215_event A = event_old apache_46215_config A"
  "mysql_35589_1_event A = event_old mysql_35589_1_config A"
  "mysql_35589_2_event A = event_old mysql_35589_2_config A"
  "mysql_24988_1_event A = event_old mysql_24988_1_config A"
  "mysql_24988_2_event A = event_old mysql_24988_2_config A"
  "memcached_1_4_25_event A = event_old memcached_1_4_25_config A"
  by (rule ext, rename_tac e, case_tac e; simp add: copy_handlers)+

lemmas copy_configs = apache_21287_config_def
  apache_21287_old_config_def
  apache_25520_config_def
  apache_46215_config_def
  mysql_35589_1_config_def
  mysql_35589_2_config_def
  mysql_24988_1_config_def
  mysql_24988_2_config_def
  memcached_1_4_25_config_def

section \<open>Which copies behave alike\<close>

named_theorems flag_simps

lemma fields_flag [flag_simps]:
  "INTERACTIVE (c\<lparr>kill_when_interactive := b\<rparr>) = INTERACTIVE c" "WAIT_TIME (c\<lparr>kill_when_interactive := b\<rparr>) = WAIT_TIME c"
  "KILL_TIME (c\<lparr>kill_when_interactive := b\<rparr>) = KILL_TIME c" "TERM_TIME (c\<lparr>kill_when_interactive := b\<rparr>) = TERM_TIME c"
  "TSAN_REPORT_FILE (c\<lparr>kill_when_interactive := b\<rparr>) = TSAN_REPORT_FILE c" "ARG_FILE (c\<lparr>kill_when_interactive := b\<rparr>) = ARG_FILE c"
  "OUTPUT_FILENAME (c\<lparr>kill_when_interactive := b\<rparr>) = OUTPUT_FILENAME c" "break_chars (c\<lparr>kill_when_interactive := b\<rparr>) = break_chars c"
  by simp_all

lemma out_flag [flag_simps]: "out_old (c\<lparr>kill_when_interactive := b\<rparr>) m = out_old c m"
  unfolding out_old_def flag_simps by (rule refl)

lemma kill_flag [flag_simps]: "kill (c\<lparr>kill_when_interactive := b\<rparr>) A = kill c A"
  unfolding kill_def flag_simps by (rule refl)

lemma release_flag [flag_simps]: "release_bp_old (c\<lparr>kill_when_interactive := b\<rparr>) A = release_bp_old c A"
  unfolding release_bp_old_def flag_simps by (rule refl)

lemma addr_flag [flag_simps]: "get_addr_old (c\<lparr>kill_when_interactive := b\<rparr>) A = get_addr_old c A"
  by (intro ext) (unfold get_addr_old_def flag_simps, rule refl)

lemma report_flag [flag_simps]: "report_match (c\<lparr>kill_when_interactive := b\<rparr>) A = report_match c A"
  by (intro ext) (unfold report_match_def flag_simps, rule refl)

lemma record_flag [flag_simps]: "record_thread (c\<lparr>kill_when_interactive := b\<rparr>) A = record_thread c A"
  by (intro ext) (unfold record_thread_def flag_simps, rule refl)

lemma callback_flag [flag_simps]: "callback_old (c\<lparr>kill_when_interactive := b\<rparr>) A = callback_old c A"
  by (intro ext) (unfold callback_old_def flag_simps, rule refl)

lemma timer_flag [flag_simps]:
  "\<not> INTERACTIVE c \<Longrightarrow> timer_old (c\<lparr>kill_when_interactive := b\<rparr>) A = timer_old c A"
  unfolding timer_old_def release_late_def flag_simps by (simp only: simp_thms)

lemma event_flag: "\<not> INTERACTIVE c \<Longrightarrow> event_old (c\<lparr>kill_when_interactive := b\<rparr>) A = event_old c A"
proof
  fix e
  assume "\<not> INTERACTIVE c"
  then show "event_old (c\<lparr>kill_when_interactive := b\<rparr>) A e = event_old c A e"
    by (cases e) (simp_all add: read_callback_old_def write_callback_old_def flag_simps)
qed

lemma set_trigger_flag [flag_simps]:
  "\<not> INTERACTIVE c \<Longrightarrow> set_trigger_old (c\<lparr>kill_when_interactive := b\<rparr>) A = set_trigger_old c A"
  by (intro ext) (unfold set_trigger_old_def flag_simps, rule refl)

lemma load_flag:
  "\<not> INTERACTIVE c \<Longrightarrow> lldb_init_module_old (c\<lparr>kill_when_interactive := b\<rparr>) A = lldb_init_module_old c A"
  unfolding lldb_init_module_old_def flag_simps by (rule refl)


end
