(* ===== verification/Pipeline.thy ===== *)
theory Pipeline
  imports TsanReport ValgrindParser TriggerOld
begin

text \<open>
  From a race report to the debugger script: a \<open>.race\<close> file written by one of the parsers is the report file
  one of the trigger scripts reads. The two generations read its lines differently, by a regular expression and
  by splitting at blanks; this theory says on which lines both find the file and line a frame names.
\<close>

section \<open>A frame as both parsers print it\<close>

definition loc_line :: "string \<Rightarrow> string \<Rightarrow> string \<Rightarrow> string" where
  "loc_line f fl ds = f @ '' ('' @ fl @ '':'' @ ds @ '')'' @ [nl]"

definition place :: "string \<Rightarrow> string \<Rightarrow> string" where
  "place fl ds = fl @ '':'' @ ds"

lemma bp_path_of_file: "cls_file ch \<Longrightarrow> cls_bp_path ch" "cls_file_vg ch \<Longrightarrow> cls_bp_path ch"
  by (auto simp: cls_file_def cls_path_def cls_file_vg_def cls_bp_path_def)

lemma class_chars:
  "cls_bp_path ch \<Longrightarrow> ch \<noteq> CHR '' '' \<and> ch \<noteq> CHR '':'' \<and> ch \<noteq> CHR ''('' \<and> ch \<noteq> CHR '')'' \<and> ch \<noteq> nl"
  "is_digit ch \<Longrightarrow> ch \<noteq> CHR '' '' \<and> ch \<noteq> CHR '':'' \<and> ch \<noteq> CHR ''('' \<and> ch \<noteq> CHR '')'' \<and> ch \<noteq> nl"
  "cls_func ch \<Longrightarrow> ch \<noteq> CHR '' '' \<and> ch \<noteq> nl"
  "cls_func_vg ch \<Longrightarrow> ch \<noteq> nl"
  by (auto simp: cls_bp_path_def cls_func_def cls_func_vg_def is_alnum_def is_lower_def is_upper_def is_digit_def)

lemma tsan_frame_line:
  assumes "tsan_frame skip l"
  obtains f fl ds where "l = loc_line f fl ds" "list_all cls_func f" "list_all cls_bp_path fl" "list_all is_digit ds"
  using assms unfolding tsan_frame_def frame_text_def loc_line_def
  by (force simp: list_all_iff bp_path_of_file)

lemma vg_frame_line:
  assumes "vg_frame l"
  obtains f fl ds where "l = loc_line f fl ds" "list_all cls_func_vg f" "list_all cls_bp_path fl" "list_all is_digit ds"
  using assms unfolding vg_frame_def loc_line_def
  by (force simp: list_all_iff bp_path_of_file)

lemma loc_line_lines:
  assumes "list_all any_char f" and "list_all cls_bp_path fl" and "list_all is_digit ds"
  shows "\<exists>m. loc_line f fl ds = m @ [nl] \<and> nl \<notin> set m"
proof -
  have "nl \<notin> set (f @ '' ('' @ fl @ '':'' @ ds @ '')'')"
    using assms class_chars(1) class_chars(2) by (fastforce simp: list_all_iff any_char_def)
  then show ?thesis unfolding loc_line_def by (intro exI [of _ "f @ '' ('' @ fl @ '':'' @ ds @ '')''"]) simp
qed

section \<open>The later script\<close>

lemma breakpoint_groups:
  assumes f: "list_all any_char f" and cl: "list_all cls_bp_path fl" and ds: "list_all is_digit ds"
  shows "\<exists>g. re_match regBreakpoint (loc_line f fl ds) = Some g \<and> group g 1 = fl \<and> group g 2 = ds"
proof -
  let ?g = "Map.empty(1 \<mapsto> fl, 2 \<mapsto> ds) :: groups"
  let ?tail = "'')'' @ [nl]"
  let ?last = "[Opt (Grp 3 (Seq (lit '':'') (Many is_digit))), lit '')'', Many any_char]"
  let ?rest = "[lit ''('', Grp 1 (Many cls_bp_path), lit '':'', Grp 2 (Many is_digit)] @ ?last"
  have last: "match_k (seqs ?last) ?tail ?g (\<lambda>_ g. Some g) = Some ?g"
    by (simp add: any_char_def)
  have digits: "match_k (seqs (Grp 2 (Many is_digit) # ?last)) (ds @ ?tail) (Map.empty(1 \<mapsto> fl)) (\<lambda>_ g. Some g) = Some ?g"
    by (rule run_group_many [OF ds _ last]) (simp add: is_digit_def)
  have path: "match_k (seqs (Grp 1 (Many cls_bp_path) # lit '':'' # Grp 2 (Many is_digit) # ?last))
      (fl @ '':'' @ ds @ ?tail) Map.empty (\<lambda>_ g. Some g) = Some ?g"
    by (rule run_group_many [OF cl _ run_lit [OF digits]]) (simp add: cls_bp_path_def is_alnum_def is_lower_def is_upper_def is_digit_def)
  have paren: "match_k (seqs ?rest) (''('' @ fl @ '':'' @ ds @ ?tail) Map.empty (\<lambda>_ g. Some g) = Some ?g"
    using run_lit [OF path, of "''(''"] by simp
  have no_paren: "CHR ''('' \<notin> set (fl @ '':'' @ ds @ ?tail)"
    using cl ds class_chars(1) class_chars(2) by (fastforce simp: list_all_iff)
  have "star_k any_char (\<lambda>s'. match_k (seqs ?rest) s' Map.empty (\<lambda>_ g. Some g)) ((f @ '' '') @ ''('' @ fl @ '':'' @ ds @ ?tail)
      = Some ?g"
  proof (rule star_k_stop)
    show "list_all any_char (f @ '' '')" using f by (simp add: any_char_def)
    show "match_k (seqs ?rest) (''('' @ fl @ '':'' @ ds @ ?tail) Map.empty (\<lambda>_ g. Some g) = Some ?g" by (rule paren)
    show "\<forall>t. (\<exists>u. ''('' @ fl @ '':'' @ ds @ ?tail = u @ t \<and> u \<noteq> [] \<and> list_all any_char u) \<longrightarrow>
        match_k (seqs ?rest) t Map.empty (\<lambda>_ g. Some g) = None"
    proof (intro allI impI, elim exE conjE)
      fix t u
      assume eq: "''('' @ fl @ '':'' @ ds @ ?tail = u @ t" and "u \<noteq> []"
      then obtain u' where "fl @ '':'' @ ds @ ?tail = u' @ t" by (cases u) auto
      with no_paren have "CHR ''('' \<notin> set t" by (metis Un_iff set_append)
      then have t: "t = [] \<or> hd t \<noteq> CHR ''(''" by (cases t) auto
      show "match_k (seqs ?rest) t Map.empty (\<lambda>_ g. Some g) = None"
        unfolding append.simps seqs.simps match_k.simps(4) by (rule lit_fails [OF t])
    qed
  qed
  then have "re_match regBreakpoint (loc_line f fl ds) = Some ?g"
    by (simp add: re_match_def regBreakpoint_def loc_line_def)
  then show ?thesis by (simp add: group_def)
qed

text \<open>The shell pipeline answers: neither process fails to start.\<close>

definition pipe_ok :: "('w, 't, 'f) lldb_api \<Rightarrow> bool" where
  "pipe_ok A \<longleftrightarrow> (\<forall>p q w. \<exists>res w'. pipe_output A p q w = (Inr res, w'))"

lemma parse_line_reads:
  assumes "pipe_ok A" and "list_all any_char f" and "list_all cls_bp_path fl" and "list_all is_digit ds"
  shows "\<exists>s'. parse_line c A (loc_line f fl ds) s = Some (Ret (place fl ds), s')
     \<and> length (bp_source s') = Suc (length (bp_source s))"
proof -
  obtain g where g: "re_match regBreakpoint (loc_line f fl ds) = Some g" "group g 1 = fl" "group g 2 = ds"
    using breakpoint_groups [OF assms(2-4)] by blast
  let ?p = "py_words (''find source_code -name '' @ fl @ '' -follow'')" and ?q = "py_words (''xargs sed -n '' @ ds @ ''p'')"
  obtain res w' where out: "pipe_output A ?p ?q (world s) = (Inr res, w')"
    using assms(1) unfolding pipe_ok_def by blast
  have "parse_line c A (loc_line f fl ds) s = Some (Ret (place fl ds), s\<lparr>world := w', bp_source := bp_source s @ [res]\<rparr>)"
    unfolding parse_line_def g option.case bnd_ret bnd_act out fst_conv snd_conv sum.case bnd_modify place_def
    by (simp add: ret_def)
  then show ?thesis by simp
qed

lemma parse_lines_reads:
  assumes "pipe_ok A" and "list_all (\<lambda>(f, fl, ds). list_all any_char f \<and> list_all cls_bp_path fl \<and> list_all is_digit ds) frs"
  shows "\<exists>s'. parse_lines c A (map (\<lambda>(f, fl, ds). loc_line f fl ds) frs) acc s
       = Some (Ret (acc @ map (\<lambda>(f, fl, ds). place fl ds) frs), s')
     \<and> length (bp_source s') = length (bp_source s) + length frs"
  using assms(2)
proof (induction frs arbitrary: acc s)
  case Nil
  then show ?case by (simp add: ret_def)
next
  case (Cons fr frs)
  obtain f fl ds where fr: "fr = (f, fl, ds)" by (cases fr) auto
  with Cons.prems have ok: "list_all any_char f" "list_all cls_bp_path fl" "list_all is_digit ds" by simp_all
  obtain s1 where s1: "parse_line c A (loc_line f fl ds) s = Some (Ret (place fl ds), s1)"
    "length (bp_source s1) = Suc (length (bp_source s))"
    using parse_line_reads [OF assms(1) ok] by blast
  obtain s2 where s2: "parse_lines c A (map (\<lambda>(f, fl, ds). loc_line f fl ds) frs) (acc @ [place fl ds]) s1
       = Some (Ret ((acc @ [place fl ds]) @ map (\<lambda>(f, fl, ds). place fl ds) frs), s2)"
    "length (bp_source s2) = length (bp_source s1) + length frs"
    using Cons.IH [of "acc @ [place fl ds]" s1] Cons.prems by auto
  have "parse_lines c A (map (\<lambda>(f, fl, ds). loc_line f fl ds) (fr # frs)) acc s
      = parse_lines c A (map (\<lambda>(f, fl, ds). loc_line f fl ds) frs) (acc @ [place fl ds]) s1"
    using s1(1) by (simp add: fr bnd_def)
  with s1(2) s2 show ?case by (simp add: fr)
qed

section \<open>The first script\<close>

lemma breakpoint_of_line:
  assumes f: "CHR '' '' \<notin> set f" and cl: "list_all cls_bp_path fl" and ds: "list_all is_digit ds"
  shows "breakpoint_of (loc_line f fl ds) = Some (place fl ds)"
proof -
  let ?w = "''('' @ fl @ '':'' @ ds @ '')''"
  have "rstrip ((f @ '' '' @ ?w) @ [nl]) = f @ '' '' @ ?w"
    by (rule rstrip_nl) (simp_all add: is_space_def)
  then have strip: "rstrip (loc_line f fl ds) = f @ CHR '' '' # ?w" by (simp add: loc_line_def)
  have "list_all (\<lambda>ch. ch \<noteq> CHR '' '') ?w"
    using cl ds class_chars(1) class_chars(2) by (fastforce simp: list_all_iff)
  then have w: "py_split (CHR '' '') ?w = [?w]" unfolding py_split_def by (intro split_at_none) simp
  have "list_all (\<lambda>ch. ch \<noteq> CHR '' '') f" using f by (auto simp: list_all_iff)
  then have "py_split (CHR '' '') (f @ CHR '' '' # ?w) = f # py_split (CHR '' '') ?w"
    unfolding py_split_def by (intro split_at_append) simp_all
  with w have split: "py_split (CHR '' '') (f @ CHR '' '' # ?w) = [f, ?w]" by (simp only:)
  show ?thesis
    unfolding breakpoint_of_def strip split by (simp add: place_def butlast_append)
qed

text \<open>With a blank in the function's name, its second word is taken for the location.\<close>

lemma breakpoint_of_second_word:
  assumes "f = v @ '' '' @ w \<and> CHR '' '' \<notin> set v \<union> set w"
  shows "breakpoint_of (loc_line f fl ds) = Some (butlast (drop 1 w))"
proof -
  let ?t = "''('' @ fl @ '':'' @ ds @ '')''"
  have "rstrip ((f @ '' '' @ ?t) @ [nl]) = f @ '' '' @ ?t"
    by (rule rstrip_nl) (simp_all add: is_space_def)
  then have strip: "rstrip (loc_line f fl ds) = v @ CHR '' '' # w @ CHR '' '' # ?t" using assms by (simp add: loc_line_def)
  have nb: "list_all (\<lambda>ch. ch \<noteq> CHR '' '') v" "list_all (\<lambda>ch. ch \<noteq> CHR '' '') w"
    using assms by (auto simp: list_all_iff)
  have "py_split (CHR '' '') (v @ CHR '' '' # w @ CHR '' '' # ?t) = v # w # py_split (CHR '' '') ?t"
    unfolding py_split_def
    by (subst split_at_append [OF nb(1)], simp, subst split_at_append [OF nb(2)]) simp_all
  then show ?thesis unfolding breakpoint_of_def strip by simp
qed

text \<open>The breakpoint text splits at its colon into file and line.\<close>

lemma place_split:
  assumes "list_all cls_bp_path fl" and "list_all is_digit ds"
  shows "py_split (CHR '':'') (place fl ds) = [fl, ds]"
proof -
  have "list_all (\<lambda>ch. ch \<noteq> CHR '':'') fl" "list_all (\<lambda>ch. ch \<noteq> CHR '':'') ds"
    using assms class_chars(1) class_chars(2) by (fastforce simp: list_all_iff)+
  then show ?thesis
    using split_at_append [of "\<lambda>ch. ch = CHR '':''" fl "CHR '':''" ds]
    by (simp add: py_split_def place_def split_at_none)
qed

end
