(* ===== verification/PipelineProperties.thy ===== *)
theory PipelineProperties
  imports Pipeline TsanProperties ValgrindProperties ExampleDebugger
begin

text \<open>
  The properties that span a parser and a trigger script: which lines of the parsers' output each
  generation of the script reads back as the file and line that were printed.
\<close>

lemma lines_of_pair:
  assumes "list_all any_char f1" "list_all cls_bp_path l1" "list_all is_digit d1"
    and "list_all any_char f2" "list_all cls_bp_path l2" "list_all is_digit d2"
  shows "lines_of (loc_line f1 l1 d1 @ loc_line f2 l2 d2) = [loc_line f1 l1 d1, loc_line f2 l2 d2]"
  using lines_of_lines [of "[loc_line f1 l1 d1, loc_line f2 l2 d2]"]
    loc_line_lines [OF assms(1-3)] loc_line_lines [OF assms(4-6)] by simp

lemma parse_pair:
  assumes "pipe_ok A" and "list_all any_char f1" "list_all cls_bp_path l1" "list_all is_digit d1"
    and "list_all any_char f2" "list_all cls_bp_path l2" "list_all is_digit d2"
  shows "\<exists>s'. parse_lines c A (lines_of (loc_line f1 l1 d1 @ loc_line f2 l2 d2)) [] s
     = Some (Ret [place l1 d1, place l2 d2], s')"
  using parse_lines_reads [OF assms(1), of "[(f1, l1, d1), (f2, l2, d2)]" c "[]" s] assms(2-)
  by (auto simp: lines_of_pair)

text \<open>What the ThreadSanitizer parser writes into a file.\<close>

lemma sync_frames:
  assumes "runNormalSyncLoop a d = Returns st" and "n < outFileNo st"
  shows "\<exists>f1 l1 d1 f2 l2 d2. files st (race_name (raceReportOut a) n) = Some (loc_line f1 l1 d1 @ loc_line f2 l2 d2)
    \<and> list_all any_char f1 \<and> CHR '' '' \<notin> set f1 \<and> list_all cls_bp_path l1 \<and> list_all is_digit d1
    \<and> list_all any_char f2 \<and> CHR '' '' \<notin> set f2 \<and> list_all cls_bp_path l2 \<and> list_all is_digit d2"
proof -
  from sync_ok_outputs [OF run_sync_ok [OF assms(1)]] assms(2) obtain w r
    where wr: "files st (race_name (raceReportOut a) n) = Some (w @ r)" "tsan_frame True w" "tsan_frame True r" by blast
  obtain f1 l1 d1 where 1: "w = loc_line f1 l1 d1" "list_all cls_func f1" "list_all cls_bp_path l1" "list_all is_digit d1"
    using tsan_frame_line [OF wr(2)] .
  obtain f2 l2 d2 where 2: "r = loc_line f2 l2 d2" "list_all cls_func f2" "list_all cls_bp_path l2" "list_all is_digit d2"
    using tsan_frame_line [OF wr(3)] .
  have any: "list_all any_char f1" "list_all any_char f2" "CHR '' '' \<notin> set f1" "CHR '' '' \<notin> set f2"
    using 1(2) 2(2) class_chars(3) by (auto simp: list_all_iff any_char_def)
  with 1 2 wr(1) show ?thesis by blast
qed

text \<open>
  C31: every file the ThreadSanitizer parser writes in sync mode is read back by both generations of the trigger
  script: with a shell pipeline that answers, both get the same two breakpoints from it, the file
  and line of the write's frame and those of the read's.
\<close>

theorem tsan_output_read:
  assumes "runNormalSyncLoop a d = Returns st" and "n < outFileNo st" and "pipe_ok A"
  shows "\<exists>f1 l1 d1 f2 l2 d2. files st (race_name (raceReportOut a) n) = Some (loc_line f1 l1 d1 @ loc_line f2 l2 d2)
    \<and> breakpoints_of (lines_of (loc_line f1 l1 d1 @ loc_line f2 l2 d2)) = Some [place l1 d1, place l2 d2]
    \<and> (\<exists>s'. parse_lines c A (lines_of (loc_line f1 l1 d1 @ loc_line f2 l2 d2)) [] s
          = Some (Ret [place l1 d1, place l2 d2], s'))
    \<and> py_split (CHR '':'') (place l1 d1) = [l1, d1] \<and> py_split (CHR '':'') (place l2 d2) = [l2, d2]"
proof -
  from sync_frames [OF assms(1,2)] obtain f1 l1 d1 f2 l2 d2
    where content: "files st (race_name (raceReportOut a) n) = Some (loc_line f1 l1 d1 @ loc_line f2 l2 d2)"
    and 1: "list_all any_char f1" "CHR '' '' \<notin> set f1" "list_all cls_bp_path l1" "list_all is_digit d1"
    and 2: "list_all any_char f2" "CHR '' '' \<notin> set f2" "list_all cls_bp_path l2" "list_all is_digit d2" by blast
  have "breakpoints_of (lines_of (loc_line f1 l1 d1 @ loc_line f2 l2 d2)) = Some [place l1 d1, place l2 d2]"
    using 1 2 by (simp add: lines_of_pair breakpoint_of_line)
  moreover have "\<exists>s'. parse_lines c A (lines_of (loc_line f1 l1 d1 @ loc_line f2 l2 d2)) [] s
      = Some (Ret [place l1 d1, place l2 d2], s')"
    by (rule parse_pair) (use 1 2 assms(3) in simp_all)
  ultimately show ?thesis
    using content 1 2 place_split by blast
qed

lemma tsan_output_read_witness:
  "\<exists>st b1 b2 s'. runNormalSyncLoop example_args example_fs = Returns st
     \<and> parse_lines trigger_config sim_api (lines_of (the (files st (race_name ''o'' 0)))) [] sim_state
       = Some (Ret [b1, b2], s')"
proof -
  obtain st where st: "runNormalSyncLoop example_args example_fs = Returns st" "outFileNo st = 1"
    using run_sync_reports [of "[example_report WriteWrite, example_report WriteRead]" example_fs example_args]
    unfolding example_output by (auto simp: example_report_ok example_fs_def example_args_def)
  have "pipe_ok sim_api" by (simp add: pipe_ok_def sim_api_def)
  from tsan_output_read [OF st(1) _ this, of 0 trigger_config sim_state] st show ?thesis
    by (auto simp: example_args_def)
qed

text \<open>
  C33: every file the Helgrind parser writes is read back by the later script, whatever is in the
  function names. The first script, which splits at blanks, takes the second word of a frame whose function
  has one blank in it for the location.
\<close>

theorem helgrind_output_read:
  assumes "runNormalSyncLoop_vg a messages d = Returns st" and "n < outFileNo st" and "pipe_ok A"
  shows "\<exists>f1 l1 d1 f2 l2 d2. files st (race_name (raceReportOut a) n) = Some (loc_line f1 l1 d1 @ loc_line f2 l2 d2)
    \<and> (\<exists>s'. parse_lines c A (lines_of (loc_line f1 l1 d1 @ loc_line f2 l2 d2)) [] s
          = Some (Ret [place l1 d1, place l2 d2], s'))
    \<and> (\<forall>v w. f1 = v @ '' '' @ w \<and> CHR '' '' \<notin> set v \<union> set w \<longrightarrow>
          breakpoint_of (loc_line f1 l1 d1) = Some (butlast (drop 1 w)))"
proof -
  from run_vg_ok [OF assms(1)] assms(2) obtain w r
    where wr: "files st (race_name (raceReportOut a) n) = Some (w @ r)" "vg_frame w" "vg_frame r"
    unfolding vg_ok_def outputs_ok_def vg_pair_def by blast
  obtain f1 l1 d1 where 1: "w = loc_line f1 l1 d1" "list_all cls_func_vg f1" "list_all cls_bp_path l1" "list_all is_digit d1"
    using vg_frame_line [OF wr(2)] .
  obtain f2 l2 d2 where 2: "r = loc_line f2 l2 d2" "list_all cls_func_vg f2" "list_all cls_bp_path l2" "list_all is_digit d2"
    using vg_frame_line [OF wr(3)] .
  have any: "list_all any_char f1" "list_all any_char f2"
    using 1(2) 2(2) class_chars(4) by (auto simp: list_all_iff any_char_def)
  have "\<exists>s'. parse_lines c A (lines_of (loc_line f1 l1 d1 @ loc_line f2 l2 d2)) [] s
      = Some (Ret [place l1 d1, place l2 d2], s')"
    by (rule parse_pair) (use 1 2 any assms(3) in simp_all)
  with wr(1) 1(1) 2(1) breakpoint_of_second_word show ?thesis by blast
qed

lemma helgrind_output_read_witness:
  "\<exists>b1 b2 s'. parse_lines trigger_config sim_api (lines_of (the (files vl_run (race_name ''o'' 0)))) [] sim_state
       = Some (Ret [b1, b2], s')"
proof -
  have "pipe_ok sim_api" by (simp add: pipe_ok_def sim_api_def)
  from helgrind_output_read [OF vl_run _ this, of 0 trigger_config sim_state] vl_run_files show ?thesis
    by (auto simp: example_vg_args_def)
qed

end
