(* ===== verification/PipelineSession.thy ===== *)
theory PipelineSession
  imports PipelineProperties TriggerTypes
begin

text \<open>
  From a race file to a session: what \<open>__lldb_init_module\<close> of the later script does with a file the ThreadSanitizer
  parser has written. It sets the two breakpoints of the report, or fails on the empty line number the parser lets through.
\<close>

section \<open>The start of a session\<close>

text \<open>What \<open>set_trigger\<close> has put into the globals.\<close>

definition bp_setup :: "'w tstate \<Rightarrow> string list list \<times> (string \<times> int) \<times> (string \<times> int)" where
  "bp_setup s = (bp_location s, (FILE_WRITE s, LINE_NUM_WRITE s), (FILE_READ s, LINE_NUM_READ s))"

lemma bp_setup_alike: "alike s s' \<Longrightarrow> bp_setup s' = bp_setup s"
  by (simp add: bp_setup_def alike_def)

lemma keeps_timer_setup: "keeps bp_setup (timer c A)"
proof -
  have u: "untouched bp_setup" by (simp add: untouched_def bp_setup_def)
  have "keeps bp_setup (acquire process_lock)" "keeps bp_setup (release process_lock)"
    "keeps bp_setup (modify (\<lambda>s. s\<lparr>timers := Suc (timers s)\<rparr>))"
    by (auto simp: keeps_def acquire_def release_def modify_def bp_setup_def split: if_splits)
  then show ?thesis
    unfolding timer_split by (intro keeps_block keeps_timer_body keeps_bnd keeps_get keeps_whenever keeps_out keeps_terminate u)
qed

lemma wp_both: "wp False m (\<lambda>_ _. True) s \<Longrightarrow> wp True m Q s \<Longrightarrow> wp False m Q s"
  by (auto simp: wp_def split: option.splits)

lemma keeps_with: "wp True m Q s \<Longrightarrow> keeps f m \<Longrightarrow> wp True m (\<lambda>r s'. Q r s' \<and> f s' = f s) s"
  by (auto simp: wp_def keeps_def split: option.splits)

text \<open>The last three statements end, and return or halt.\<close>

lemma wp_start:
  assumes blank: "blank s" and typed: "typed s" and random: "random_ok A" and prompt: "prompt False A"
  shows "wp False (block [update_timer A, timer c A, out c m]) (\<lambda>r s'. ends_well c r s' \<and> bp_setup s' = bp_setup s) s"
proof (rule wp_both)
  have ready: "ready s" and free: "\<not> held s process_lock" using blank by (simp_all add: blank_def)
  have "untouched bp_setup" by (simp add: untouched_def bp_setup_def)
  then have "keeps bp_setup (block [update_timer A, timer c A, out c m])"
    by (intro keeps_block keeps_update_timer keeps_out keeps_timer_setup)
  with ends_last [OF ready typed free random]
  show "wp True (block [update_timer A, timer c A, out c m]) (\<lambda>r s'. ends_well c r s' \<and> bp_setup s' = bp_setup s) s"
    by (rule keeps_with)
  show "wp False (block [update_timer A, timer c A, out c m]) (\<lambda>_ _. True) s"
    unfolding wp_block
  proof (rule wp_update_timer [OF ready], rule noiseI, unfold at_seq_fun wp_block)
    fix t s1
    assume "alike (s\<lparr>LAST_BREAK := t\<rparr>) s1"
    then have "\<not> held s1 process_lock" "ready s1" "store_ok s1" "\<not> STATUS_FOUND s1"
      using blank by (simp_all add: blank_def alike_def ready_def store_ok_def)
    then show "wp False (timer c A) (at_seq (\<lambda>_. wp False (out c m) (at_seq (\<lambda>_. (\<lambda>_. True)) (\<lambda>_ _. True))) (\<lambda>_ _. True)) s1"
    proof (rule wp_mono [OF wp_timer [OF _ _ _ _ prompt]])
      fix r :: "unit outcome" and s2
      assume e: "event_post s1 r s2"
      have "wp False (out c m) (at_seq (\<lambda>_. (\<lambda>_. True)) (\<lambda>_ _. True)) s2" if "ready s2"
        by (rule wp_out [OF that]) (simp add: noise_def)
      with e show "at_seq (\<lambda>_. wp False (out c m) (at_seq (\<lambda>_. (\<lambda>_. True)) (\<lambda>_ _. True))) (\<lambda>_ _. True) r s2"
        by (cases r) (auto simp: event_post_def)
    qed
  qed
qed

lemma bp_setup_start:
  assumes "reading 2 s" and "py_split (CHR '':'') in_write = [l1, d1]" and "py_split (CHR '':'') in_read = [l2, d2]"
    and "py_int d1 = Some n1" and "py_int d2 = Some n2" and random: "random_ok A" and prompt: "prompt False A"
  shows "wp False (set_trigger c A in_write in_read)
    (\<lambda>r s'. ends_well c r s' \<and> bp_setup s' = ([[l1, d1], [l2, d2]], (l1, n1), (l2, n2))) s"
proof -
  let ?Q = "\<lambda>r s'. ends_well c r s' \<and> bp_setup s' = ([[l1, d1], [l2, d2]], (l1, n1), (l2, n2))"
  have ready: "ready s" and blank: "blank s" and src: "length (bp_source s) = 2" and loc: "bp_location s = []"
    using assms(1) by (simp_all add: reading_def blank_def)
  define fin :: "('a tstate, unit) prog"
    where "fin = block [update_timer A, timer c A, out c ''Breakpoint initialization done!'']"
  define located where "located s2 = s2\<lparr>bp_location := [[l1, d1], [l2, d2]], FILE_READ := l2, LINE_NUM_READ := n2,
      FILE_WRITE := l1, LINE_NUM_WRITE := n1\<rparr>" for s2 :: "'a tstate"
  have last: "wp False fin ?Q s'" if "alike s s2" "alike (located s2) s'" for s2 s'
  proof -
    have s': "blank s'" "typed s'" "bp_setup s' = ([[l1, d1], [l2, d2]], (l1, n1), (l2, n2))"
      using that blank src assms(4,5)
      by (simp_all add: located_def alike_def blank_def ready_def typed_def location_ok_def kinds_ok_def bp_setup_def)
    from wp_start [OF s'(1,2) random prompt] s'(3) show ?thesis by (simp add: fin_def)
  qed
  obtain same where same: "same_source (bp_source s) = Some same"
    using src by (auto simp: same_source_def py_index_def)
  show ?thesis
    unfolding set_trigger_def Let_def assms(2,3) fin_def [symmetric]
  proof (subst wp_bnd, rule wp_quiet_block [OF quiet_out ready], rule wp_quiet_block [OF quiet_out], assumption,
      rule wp_quiet_block [OF quiet_out], assumption, rule wp_quiet_block [OF quiet_perform], assumption)
    fix s1 s2 s3 s4
    assume a: "alike s s1" "alike s1 s2" "alike s2 s3" "alike s3 s4"
    from alike_trans [OF alike_trans [OF a(1,2)] alike_trans [OF a(3,4)]] have a4: "alike s s4" .
    then have s4: "bp_location s4 = []" "bp_source s4 = bp_source s" "ready s4"
      using loc ready_alike [OF ready] by (auto simp: alike_def)
    let ?K = "bnd (indexed [l2, d2] 0) (\<lambda>file_read.
     bnd (modify (\<lambda>s. s\<lparr>FILE_READ := file_read\<rparr>)) (\<lambda>_.
     bnd (bnd (indexed [l2, d2] 1) (\<lambda>t. from_option (ValueError t) (py_int t))) (\<lambda>line_read.
     bnd (modify (\<lambda>s. s\<lparr>LINE_NUM_READ := line_read\<rparr>)) (\<lambda>_.
     bnd (indexed [l1, d1] 0) (\<lambda>file_write.
     bnd (modify (\<lambda>s. s\<lparr>FILE_WRITE := file_write\<rparr>)) (\<lambda>_.
     bnd (bnd (indexed [l1, d1] 1) (\<lambda>t. from_option (ValueError t) (py_int t))) (\<lambda>line_write.
     bnd (modify (\<lambda>s. s\<lparr>LINE_NUM_WRITE := line_write\<rparr>)) (\<lambda>_.
     bnd (act (BreakpointCreateByLocation A file_write line_write)) (\<lambda>bp_write.
     bnd (bnd (get bp_source) (\<lambda>src. from_option IndexError (same_source src))) (\<lambda>same.
     bnd (if \<not> same then
            bnd (act (BreakpointCreateByLocation A file_read line_read)) (\<lambda>bp_read.
            block [perform (SetScriptCallbackFunction A bp_write ''trigger.write_callback''),
                   perform (SetScriptCallbackFunction A bp_read ''trigger.read_callback'')])
          else block
            [out c ''####### WARN: READ & WRITE ARE THE SAME! #######'',
             perform (SetScriptCallbackFunction A bp_write ''trigger.write_callback'')]) (\<lambda>_. fin)))))))))))"
    have world: "alike (located s4) (located s4\<lparr>world := w\<rparr>)" for w by simp
    have after: "wp False ?K ?Q (s4\<lparr>bp_location := [[l1, d1], [l2, d2]]\<rparr>)"
    proof (cases same)
      case False
      with same show ?thesis
        using last [OF a4 world] by (simp add: wp_simps py_index_def assms(4,5) s4 located_def del: block.simps)
    next
      case True
      have out: "wp False (out c m) Q' (located s4\<lparr>world := w\<rparr>)"
        if "\<And>s5. alike (located s4) s5 \<Longrightarrow> Q' (Ret ()) s5" for m w and Q' :: "unit outcome \<Rightarrow> 'a tstate \<Rightarrow> bool"
        using that s4(3) by (intro wp_out noiseI) (simp_all add: located_def ready_def alike_def)
      from True same show ?thesis
        by (simp add: wp_simps py_index_def assms(4,5) s4 del: block.simps flip: located_def)
           (rule out; simp add: wp_simps last [OF a4] del: block.simps)
    qed
    then show "wp False (block [modify (\<lambda>s. s\<lparr>bp_location := bp_location s @ [[l1, d1], [l2, d2]]\<rparr>)])
      (at_seq (\<lambda>_. wp False ?K ?Q) ?Q) s4"
      by (simp only: wp_block wp_modify at_seq_fun s4(1) append_Nil)
  qed
qed

text \<open>An empty line number stops it at \<open>int("")\<close>.\<close>

lemma bp_setup_empty:
  assumes "ready s" and "py_split (CHR '':'') in_write = [l1, d1]" and "py_split (CHR '':'') in_read = [l2, d2]"
    and "d2 = [] \<or> d1 = [] \<and> py_int d2 = Some n2"
  shows "wp False (set_trigger c A in_write in_read) (\<lambda>r s'. r = Raise (ValueError [])) s"
  unfolding set_trigger_def Let_def assms(2,3)
  by (subst wp_bnd, rule wp_quiet_block [OF quiet_out assms(1)], rule wp_quiet_block [OF quiet_out], assumption,
      rule wp_quiet_block [OF quiet_out], assumption)
     (use assms(4) in \<open>auto simp: wp_simps py_index_def py_int_empty\<close>)

section \<open>Composition\<close>

lemma wp_run: "m s = Some (r, s') \<Longrightarrow> Q r s' \<Longrightarrow> wp b m Q s"
  by (simp add: wp_def)

text \<open>Initialisation is \<open>set_trigger\<close> on the two places of the file.\<close>

lemma init_pair:
  assumes lines: "\<And>w. read_lines A (TSAN_REPORT_FILE c) w = Some (lines_of (loc_line f1 l1 d1 @ loc_line f2 l2 d2))"
    and pipe: "pipe_ok A" and f1: "list_all any_char f1" "list_all cls_bp_path l1" "list_all is_digit d1"
    and f2: "list_all any_char f2" "list_all cls_bp_path l2" "list_all is_digit d2"
    and rest: "\<And>s. reading 2 s \<Longrightarrow> wp False (set_trigger c A (place l1 d1) (place l2 d2)) Q s"
  shows "wp False (lldb_init_module c A) Q (init_state w)"
proof -
  define s0 where "s0 = init_state w\<lparr>OUTPUT_FD := OpenFile, written := [],
    world := HandleCommand A ''log enable -f log.txt lldb api'' w\<rparr>"
  have start: "reading (length ([] :: string list)) s0"
    by (simp add: s0_def reading_def blank_def ready_def init_state_def)
  obtain s1 where s1: "parse_lines c A (lines_of (loc_line f1 l1 d1 @ loc_line f2 l2 d2)) [] s0
      = Some (Ret [place l1 d1, place l2 d2], s1)"
    using parse_pair [OF pipe f1 f2] by blast
  from wpD [OF reading_lines [OF start] s1] have read: "reading 2 s1" by (simp add: numeral_2_eq_2)
  then have "ready s1" by (simp add: reading_def blank_def)
  let ?both = "bnd (indexed [place l1 d1, place l2 d2] 0) (\<lambda>in_write. bnd (indexed [place l1 d1, place l2 d2] 1) (\<lambda>in_read.
     set_trigger c A in_write in_read))"
  from \<open>ready s1\<close> have last: "wp False (out c m) (at_seq (\<lambda>_. wp False ?both Q) Q) s1" for m
  proof (rule wp_out, intro noiseI, unfold at_seq_fun)
    fix s2
    assume "alike s1 s2"
    then have "wp False (set_trigger c A (place l1 d1) (place l2 d2)) Q s2"
      using read by (intro rest) (auto simp: reading_def alike_def blank_def ready_def)
    then show "wp False ?both Q s2" by (simp add: wp_simps py_index_def)
  qed
  have s0: "s0 = (init_state w\<lparr>OUTPUT_FD := OpenFile, written := []\<rparr>)\<lparr>world := HandleCommand A ''log enable -f log.txt lldb api''
      (world (init_state w\<lparr>OUTPUT_FD := OpenFile, written := []\<rparr>))\<rparr>"
    by (simp add: s0_def init_state_def)
  show ?thesis
    unfolding lldb_init_module_def open_for_write_def
    by (subst wp_bnd, unfold wp_modify at_seq_fun, subst wp_bnd, unfold wp_perform at_seq_fun s0 [symmetric],
        subst wp_bnd, subst wp_bnd, unfold wp_ask at_seq_fun lines wp_from_option option.case at_seq_fun, subst wp_bnd,
        rule wp_run, rule s1, unfold at_seq_fun, subst wp_bnd)
       (rule last)
qed

text \<open>
  C32: a race file that the ThreadSanitizer parser has written starts a session. Reading it, with a shell pipeline that
  answers and operations that succeed after finitely many attempts, \<open>__lldb_init_module\<close> ends: when both frames have a
  line number, the breakpoints are the write's and the read's file and line, and it returns or halts; when one is
  empty, which the parser's call-stack pattern allows, it raises \<open>ValueError\<close> at \<open>int("")\<close>.
\<close>

theorem session_from_report:
  assumes "runNormalSyncLoop a d = Returns st" and "n < outFileNo st" and "pipe_ok A" and "prompt False A" and "random_ok A"
    and "\<And>w. read_lines A (TSAN_REPORT_FILE c) w = map_option lines_of (files st (race_name (raceReportOut a) n))"
  shows "\<exists>f1 l1 d1 f2 l2 d2 r s. files st (race_name (raceReportOut a) n) = Some (loc_line f1 l1 d1 @ loc_line f2 l2 d2)
    \<and> lldb_init_module c A (init_state w) = Some (r, s)
    \<and> (if d1 = [] \<or> d2 = [] then r = Raise (ValueError [])
       else (r = Ret () \<or> r = halted c) \<and> bp_location s = [[l1, d1], [l2, d2]]
         \<and> FILE_WRITE s = l1 \<and> py_int d1 = Some (LINE_NUM_WRITE s) \<and> FILE_READ s = l2 \<and> py_int d2 = Some (LINE_NUM_READ s))"
proof -
  obtain f1 l1 d1 f2 l2 d2 where content: "files st (race_name (raceReportOut a) n) = Some (loc_line f1 l1 d1 @ loc_line f2 l2 d2)"
    and f1: "list_all any_char f1" "list_all cls_bp_path l1" "list_all is_digit d1"
    and f2: "list_all any_char f2" "list_all cls_bp_path l2" "list_all is_digit d2"
    using sync_frames [OF assms(1,2)] by blast
  note split = place_split [OF f1(2,3)] place_split [OF f2(2,3)]
  note init = init_pair [OF _ assms(3) f1 f2, of c, unfolded assms(6) content option.map, OF refl]
  show ?thesis
  proof (cases "d1 = [] \<or> d2 = []")
    case True
    then have "d2 = [] \<or> d1 = [] \<and> py_int d2 = Some (int (nat_of_digits d2))" using py_int_digits [OF f2(3)] by blast
    then have "wp False (lldb_init_module c A) (\<lambda>r s'. r = Raise (ValueError [])) (init_state w)"
      by (intro init bp_setup_empty [OF _ split]) (simp_all add: reading_def blank_def)
    from wp_total [OF this] obtain s where s: "lldb_init_module c A (init_state w) = Some (Raise (ValueError []), s)" by blast
    show ?thesis
      by (intro exI conjI, rule content, rule s) (simp add: True)
  next
    case False
    then have num: "py_int d1 = Some (int (nat_of_digits d1))" "py_int d2 = Some (int (nat_of_digits d2))"
      using py_int_digits f1(3) f2(3) by blast+
    have "wp False (lldb_init_module c A) (\<lambda>r s'. ends_well c r s' \<and>
        bp_setup s' = ([[l1, d1], [l2, d2]], (l1, int (nat_of_digits d1)), (l2, int (nat_of_digits d2)))) (init_state w)"
      by (rule init, rule bp_setup_start [OF _ split num assms(5,4)])
    from wp_total [OF this] obtain r s where "lldb_init_module c A (init_state w) = Some (r, s)" "ends_well c r s"
      "bp_setup s = ([[l1, d1], [l2, d2]], (l1, int (nat_of_digits d1)), (l2, int (nat_of_digits d2)))" by blast
    note s = this
    show ?thesis
      by (intro exI conjI, rule content, rule s(1)) (use False num s in \<open>auto simp: ends_well_def bp_setup_def\<close>)
  qed
qed

lemma session_from_report_witness:
  "\<exists>st r s. runNormalSyncLoop example_args example_fs = Returns st
     \<and> lldb_init_module trigger_config (sim_api\<lparr>read_lines := \<lambda>f w. map_option lines_of (files st (race_name ''o'' 0))\<rparr>)
         (init_state sim_world) = Some (r, s)"
proof -
  obtain st where st: "runNormalSyncLoop example_args example_fs = Returns st" "outFileNo st = 1"
    using run_sync_reports [of "[example_report WriteWrite, example_report WriteRead]" example_fs example_args]
    unfolding example_output by (auto simp: example_report_ok example_fs_def example_args_def)
  let ?A = "sim_api\<lparr>read_lines := \<lambda>f w. map_option lines_of (files st (race_name ''o'' 0))\<rparr>"
  have "pipe_ok ?A" "random_ok ?A" using sim_random by (simp_all add: pipe_ok_def random_ok_def sim_api_def)
  moreover have "prompt False ?A" using sim_prompt [of False] by (simp add: prompt_def)
  ultimately show ?thesis
    using session_from_report [OF st(1), of 0 ?A trigger_config sim_world] st by (auto simp: example_args_def)
qed

end
