(* ===== verification/ByteFormats.thy ===== *)
theory ByteFormats
  imports PyPrelude
begin

text \<open>
  The \<open>struct\<close> module as \<open>memcacheConstants.py\<close> and \<open>mc_bin_client.py\<close> use it: formats of unsigned fields, big-endian
  without padding (\<open>>\<close>) or native with alignment. A byte string is a \<open>char list\<close>, a packed value an \<open>int\<close>;
  \<open>None\<close> is \<open>struct.error\<close>.
\<close>

datatype field = FB | FH | FI | FQ | Fb | Fx

fun width :: "field \<Rightarrow> nat" where
  "width FB = 1" | "width FH = 2" | "width FI = 4" | "width FQ = 8" | "width Fb = 1" | "width Fx = 1"

datatype format = Big "field list" | Native "field list"

text \<open>
  \<open>struct.calcsize\<close>: in a native format a field starts at a multiple of its size.
\<close>

fun native_size :: "nat \<Rightarrow> field list \<Rightarrow> nat" where
  "native_size off [] = off"
| "native_size off (f # fs) = native_size ((off + width f - 1) div width f * width f + width f) fs"

fun calcsize :: "format \<Rightarrow> nat" where
  "calcsize (Big fs) = sum_list (map width fs)"
| "calcsize (Native fs) = native_size 0 fs"

text \<open>Big-endian bytes of a number and back.\<close>

fun be_bytes :: "nat \<Rightarrow> nat \<Rightarrow> string" where
  "be_bytes 0 n = []"
| "be_bytes (Suc w) n = be_bytes w (n div 256) @ [char_of (n mod 256)]"

definition be_value :: "string \<Rightarrow> nat" where
  "be_value s = foldl (\<lambda>a ch. 256 * a + of_char ch) 0 s"

text \<open>\<open>struct.pack\<close> with a big-endian format of unsigned fields: one value for each, each in range.\<close>

definition in_range :: "field \<Rightarrow> int \<Rightarrow> bool" where
  "in_range f v \<longleftrightarrow> 0 \<le> v \<and> v < 256 ^ width f"

fun pack :: "field list \<Rightarrow> int list \<Rightarrow> string option" where
  "pack [] [] = Some []"
| "pack (f # fs) (v # vs) =
     (if in_range f v then map_option (\<lambda>r. be_bytes (width f) (nat v) @ r) (pack fs vs) else None)"
| "pack _ _ = None"

fun unpack_fields :: "field list \<Rightarrow> string \<Rightarrow> int list" where
  "unpack_fields [] s = []"
| "unpack_fields (f # fs) s = int (be_value (take (width f) s)) # unpack_fields fs (drop (width f) s)"

definition unpack :: "field list \<Rightarrow> string \<Rightarrow> int list option" where
  "unpack fs s = (if length s = calcsize (Big fs) then Some (unpack_fields fs s) else None)"

section \<open>The codec\<close>

lemma length_be_bytes [simp]: "length (be_bytes w n) = w"
  by (induction w arbitrary: n) simp_all

lemma be_value_snoc [simp]: "be_value (s @ [ch]) = 256 * be_value s + of_char ch"
  by (simp add: be_value_def)

lemma be_value_Nil [simp]: "be_value [] = 0"
  by (simp add: be_value_def)

lemma be_value_bytes: "n < 256 ^ w \<Longrightarrow> be_value (be_bytes w n) = n"
proof (induction w arbitrary: n)
  case (Suc w)
  then have "n div 256 < 256 ^ w" by (simp add: less_mult_imp_div_less mult.commute)
  with Suc.IH show ?case by simp
qed simp

lemma be_bytes_value: "be_bytes (length s) (be_value s) = s"
proof (induction s rule: rev_induct)
  case (snoc ch s)
  have "of_char ch < (256 :: nat)" by simp
  then have "(256 * be_value s + of_char ch) div 256 = be_value s" "(256 * be_value s + of_char ch) mod 256 = of_char ch"
    by simp_all
  with snoc show ?case by simp
qed simp

lemma be_value_bound: "be_value s < 256 ^ length s"
proof (induction s rule: rev_induct)
  case (snoc ch s)
  have "of_char ch < (256 :: nat)" by simp
  then have "256 * be_value s + of_char ch < 256 * (be_value s + 1)" by simp
  also have "\<dots> \<le> 256 * 256 ^ length s" using snoc by (intro mult_le_mono2) simp
  finally show ?case by simp
qed simp

lemma pack_some: "pack fs vs = Some s \<Longrightarrow> length s = calcsize (Big fs) \<and> unpack_fields fs (s @ t) = vs"
proof (induction fs vs arbitrary: s rule: pack.induct)
  case (2 f fs v vs)
  then obtain r where r: "pack fs vs = Some r" "in_range f v" "s = be_bytes (width f) (nat v) @ r"
    by (auto split: if_splits)
  have "nat v < 256 ^ width f" using r(2) by (simp add: in_range_def nat_less_iff)
  then have "int (be_value (be_bytes (width f) (nat v))) = v"
    using r(2) by (simp add: be_value_bytes in_range_def)
  with 2 r show ?case by simp
qed simp_all

lemma pack_unpack_fields:
  "length s = calcsize (Big fs) \<Longrightarrow> pack fs (unpack_fields fs s) = Some s"
proof (induction fs arbitrary: s)
  case (Cons f fs)
  have len: "length (take (width f) s) = width f" using Cons.prems by simp
  have "int (be_value (take (width f) s)) < 256 ^ width f"
    using be_value_bound [of "take (width f) s"] unfolding len by (metis of_nat_less_iff of_nat_numeral of_nat_power)
  then have "in_range f (int (be_value (take (width f) s)))" by (simp add: in_range_def)
  moreover have "be_bytes (width f) (be_value (take (width f) s)) = take (width f) s"
    using be_bytes_value [of "take (width f) s"] unfolding len .
  moreover have "pack fs (unpack_fields fs (drop (width f) s)) = Some (drop (width f) s)"
    using Cons.prems by (intro Cons.IH) simp
  ultimately show ?case by simp
qed simp

lemma pack_defined: "pack fs vs \<noteq> None \<longleftrightarrow> list_all2 in_range fs vs"
  by (induction fs vs rule: pack.induct) simp_all

end
