(* ===== verification/MemcacheClient.thy ===== *)
theory MemcacheClient
  imports Effects ByteFormats
begin

text \<open>
  \<open>memcached-1.4.25/trigger/scripts/memcacheConstants.py\<close> and \<open>mc_bin_client.py\<close>: the client for memcached's binary
  protocol that the test of this program drives the server with. The socket, the random numbers and the
  HMAC are the argument \<open>S\<close>; a method is a statement over the world they live in. A method ends with the
  values the code returns or with the exception it raises.
\<close>

section \<open>Constants\<close>

datatype command =
    CMD_GET | CMD_SET | CMD_ADD | CMD_REPLACE | CMD_DELETE | CMD_INCR | CMD_DECR | CMD_QUIT | CMD_FLUSH | CMD_GETQ
  | CMD_NOOP | CMD_VERSION | CMD_STAT | CMD_APPEND | CMD_PREPEND | CMD_SASL_LIST_MECHS | CMD_SASL_AUTH | CMD_SASL_STEP
  | CMD_TAP_CONNECT | CMD_TAP_MUTATION | CMD_TAP_DELETE | CMD_TAP_FLUSH | CMD_TAP_OPAQUE | CMD_TAP_VBUCKET_SET
  | CMD_SET_VBUCKET_STATE | CMD_GET_VBUCKET_STATE | CMD_DELETE_VBUCKET

fun opcode :: "command \<Rightarrow> int" where
  "opcode CMD_GET = 0"
| "opcode CMD_SET = 1"
| "opcode CMD_ADD = 2"
| "opcode CMD_REPLACE = 3"
| "opcode CMD_DELETE = 4"
| "opcode CMD_INCR = 5"
| "opcode CMD_DECR = 6"
| "opcode CMD_QUIT = 7"
| "opcode CMD_FLUSH = 8"
| "opcode CMD_GETQ = 9"
| "opcode CMD_NOOP = 10"
| "opcode CMD_VERSION = 11"
| "opcode CMD_STAT = 0x10"
| "opcode CMD_APPEND = 0x0e"
| "opcode CMD_PREPEND = 0x0f"
| "opcode CMD_SASL_LIST_MECHS = 0x20"
| "opcode CMD_SASL_AUTH = 0x21"
| "opcode CMD_SASL_STEP = 0x22"
| "opcode CMD_TAP_CONNECT = 0x40"
| "opcode CMD_TAP_MUTATION = 0x41"
| "opcode CMD_TAP_DELETE = 0x42"
| "opcode CMD_TAP_FLUSH = 0x43"
| "opcode CMD_TAP_OPAQUE = 0x44"
| "opcode CMD_TAP_VBUCKET_SET = 0x45"
| "opcode CMD_SET_VBUCKET_STATE = 0x83"
| "opcode CMD_GET_VBUCKET_STATE = 0x84"
| "opcode CMD_DELETE_VBUCKET = 0x85"

definition SET_PKT_FMT :: "field list" where "SET_PKT_FMT = [FI, FI]"
definition GET_RES_FMT :: "field list" where "GET_RES_FMT = [FI]"
definition DEL_PKT_FMT :: "field list" where "DEL_PKT_FMT = []"
definition TAP_MUTATION_PKT_FMT :: "field list" where "TAP_MUTATION_PKT_FMT = [FH, FH, Fb, Fx, Fx, Fx, FI, FI]"
definition TAP_GENERAL_PKT_FMT :: "field list" where "TAP_GENERAL_PKT_FMT = [FH, FH, Fb, Fx, Fx, Fx]"
definition INCRDECR_PKT_FMT :: "field list" where "INCRDECR_PKT_FMT = [FQ, FQ, FI]"
definition INCRDECR_SPECIAL :: int where "INCRDECR_SPECIAL = 0xffffffff"
definition INCRDECR_RES_FMT :: "field list" where "INCRDECR_RES_FMT = [FQ]"
definition FLUSH_PKT_FMT :: "field list" where "FLUSH_PKT_FMT = [FI]"
definition REQ_MAGIC_BYTE :: int where "REQ_MAGIC_BYTE = 0x80"
definition RES_MAGIC_BYTE :: int where "RES_MAGIC_BYTE = 0x81"
definition REQ_PKT_FMT :: "field list" where "REQ_PKT_FMT = [FB, FB, FH, FB, FB, FH, FI, FI, FQ]"
definition RES_PKT_FMT :: "field list" where "RES_PKT_FMT = [FB, FB, FH, FB, FB, FH, FI, FI, FQ]"
definition MIN_RECV_PACKET :: nat where "MIN_RECV_PACKET = calcsize (Big REQ_PKT_FMT)"
definition ERR_AUTH_CONTINUE :: int where "ERR_AUTH_CONTINUE = 0x21"

fun extra_hdr_fmt :: "command \<Rightarrow> format option" where
  "extra_hdr_fmt CMD_SET = Some (Big SET_PKT_FMT)"
| "extra_hdr_fmt CMD_ADD = Some (Big SET_PKT_FMT)"
| "extra_hdr_fmt CMD_REPLACE = Some (Big SET_PKT_FMT)"
| "extra_hdr_fmt CMD_INCR = Some (Big INCRDECR_PKT_FMT)"
| "extra_hdr_fmt CMD_DECR = Some (Big INCRDECR_PKT_FMT)"
| "extra_hdr_fmt CMD_DELETE = Some (Native DEL_PKT_FMT)"
| "extra_hdr_fmt CMD_FLUSH = Some (Big FLUSH_PKT_FMT)"
| "extra_hdr_fmt CMD_TAP_MUTATION = Some (Native TAP_MUTATION_PKT_FMT)"
| "extra_hdr_fmt CMD_TAP_DELETE = Some (Native TAP_GENERAL_PKT_FMT)"
| "extra_hdr_fmt CMD_TAP_FLUSH = Some (Native TAP_GENERAL_PKT_FMT)"
| "extra_hdr_fmt CMD_TAP_OPAQUE = Some (Native TAP_GENERAL_PKT_FMT)"
| "extra_hdr_fmt CMD_TAP_VBUCKET_SET = Some (Native TAP_GENERAL_PKT_FMT)"
| "extra_hdr_fmt _ = None"

definition extra_hdr_size :: "command \<Rightarrow> nat option" where
  "extra_hdr_size cmd = map_option calcsize (extra_hdr_fmt cmd)"

section \<open>The socket\<close>

text \<open>
  \<open>send\<close> returns the number of bytes it took, which the code ignores; \<open>recv n\<close> returns at most \<open>n\<close> bytes, the
  empty string at the end of the stream; both may raise.
\<close>

record 'w socket =
  sock_connect_ex :: "string \<Rightarrow> nat \<Rightarrow> 'w \<Rightarrow> int \<times> 'w"
  sock_send :: "string \<Rightarrow> 'w \<Rightarrow> (exn + nat) \<times> 'w"
  sock_recv :: "nat \<Rightarrow> 'w \<Rightarrow> (exn + string) \<times> 'w"
  sock_close :: "'w \<Rightarrow> 'w"
  rand_int :: "int \<Rightarrow> int \<Rightarrow> 'w \<Rightarrow> int \<times> 'w"
  hex_hmac :: "string \<Rightarrow> string \<Rightarrow> string"

definition raising :: "('w \<Rightarrow> (exn + 'a) \<times> 'w) \<Rightarrow> ('w, 'a) prog" where
  "raising f w = (case f w of (Inl e, w') \<Rightarrow> Some (Raise e, w') | (Inr x, w') \<Rightarrow> Some (Ret x, w'))"

definition packed :: "field list \<Rightarrow> int list \<Rightarrow> ('w, string) prog" where
  "packed fs vs = (case pack fs vs of None \<Rightarrow> throw (StructError ''pack'') | Some s \<Rightarrow> ret s)"

definition unpacked :: "field list \<Rightarrow> string \<Rightarrow> ('w, int list) prog" where
  "unpacked fs s = (case unpack fs s of None \<Rightarrow> throw (StructError ''unpack'') | Some vs \<Rightarrow> ret vs)"

section \<open>Connection\<close>

text \<open>The constructor ignores the error code of \<open>connect_ex\<close>: a refused connection shows in the first command.\<close>

definition mc_init :: "'w socket \<Rightarrow> string \<Rightarrow> nat \<Rightarrow> ('w, unit) prog" where
  "mc_init S host port = bnd (call (sock_connect_ex S host port)) (\<lambda>_. ret ())"

definition mc_close :: "'w socket \<Rightarrow> ('w, unit) prog" where
  "mc_close S = modify (sock_close S)"

definition mc_del :: "'w socket \<Rightarrow> ('w, unit) prog" where
  "mc_del S = mc_close S"

section \<open>Requests\<close>

definition vbucketId :: int where "vbucketId = 0"

definition sendCmd :: "'w socket \<Rightarrow> int \<Rightarrow> string \<Rightarrow> string \<Rightarrow> int \<Rightarrow> string \<Rightarrow> int \<Rightarrow> ('w, unit) prog" where
  "sendCmd S cmd key val opaque extraHeader cas =
     (let dtype = 0 in
     bnd (packed REQ_PKT_FMT [REQ_MAGIC_BYTE, cmd, int (length key), int (length extraHeader), dtype, vbucketId,
            int (length key) + int (length extraHeader) + int (length val), opaque, cas]) (\<lambda>msg.
     bnd (raising (sock_send S (msg @ extraHeader @ key @ val))) (\<lambda>_.
     ret ())))"

section \<open>Responses\<close>

definition got_empty :: exn where
  "got_empty = EOFError ''Got empty data (remote died?).''"

text \<open>\<open>while len(response) < n: data = recv(n - len(response)); ...\<close>: each round adds a byte at least.\<close>

function recv_header :: "'w socket \<Rightarrow> nat \<Rightarrow> string \<Rightarrow> ('w, string) prog" where
  "recv_header S n response w =
     (if length response < n then
        (case sock_recv S (n - length response) w of
           (Inl e, w') \<Rightarrow> Some (Raise e, w')
         | (Inr data, w') \<Rightarrow> if data = [] then Some (Raise got_empty, w')
                            else recv_header S n (response @ data) w')
      else Some (Ret response, w))"
  by pat_completeness auto
termination
  by (relation "measure (\<lambda>(S, n, response, w). n - length response)") (auto intro!: diff_less_mono2)

declare recv_header.simps [simp del]

text \<open>\<open>while remaining > 0: data = recv(remaining); ...\<close>\<close>

function recv_body :: "'w socket \<Rightarrow> int \<Rightarrow> string \<Rightarrow> ('w, string) prog" where
  "recv_body S remaining rv w =
     (if 0 < remaining then
        (case sock_recv S (nat remaining) w of
           (Inl e, w') \<Rightarrow> Some (Raise e, w')
         | (Inr data, w') \<Rightarrow> if data = [] then Some (Raise got_empty, w')
                            else recv_body S (remaining - int (length data)) (rv @ data) w')
      else Some (Ret rv, w))"
  by pat_completeness auto
termination
  by (relation "measure (\<lambda>(S, remaining, rv, w). nat remaining)") (auto simp: nat_less_eq_zless)

declare recv_body.simps [simp del]

record response =
  r_cmd :: int
  r_opaque :: int
  r_cas :: int
  r_keylen :: int
  r_extralen :: int
  r_data :: string

text \<open>\<open>assert\<close>, with what its message is computed from left out.\<close>

definition assertion :: "bool \<Rightarrow> string \<Rightarrow> ('w, unit) prog" where
  "assertion p m = (if p then ret () else throw (AssertionError m))"

definition handleKeyedResponse :: "'w socket \<Rightarrow> int option \<Rightarrow> ('w, response) prog" where
  "handleKeyedResponse S myopaque =
     bnd (recv_header S MIN_RECV_PACKET []) (\<lambda>header.
     bnd (assertion (length header = MIN_RECV_PACKET) []) (\<lambda>_.
     bnd (unpacked RES_PKT_FMT header) (\<lambda>vs.
     case vs of [magic, cmd, keylen, extralen, dtype, errcode, remaining, opaque, cas] \<Rightarrow>
       bnd (recv_body S remaining []) (\<lambda>rv.
       bnd (assertion (magic = RES_MAGIC_BYTE \<or> magic = REQ_MAGIC_BYTE) ''Got magic'') (\<lambda>_.
       bnd (assertion (myopaque = None \<or> myopaque = Some opaque) ''expected opaque'') (\<lambda>_.
       if errcode \<noteq> 0 then throw (MemcachedError errcode rv)
       else ret \<lparr>r_cmd = cmd, r_opaque = opaque, r_cas = cas, r_keylen = keylen, r_extralen = extralen, r_data = rv\<rparr>)))
     | _ \<Rightarrow> throw (ValueError ''unpack''))))"

definition handleSingleResponse :: "'w socket \<Rightarrow> int option \<Rightarrow> ('w, int \<times> int \<times> string) prog" where
  "handleSingleResponse S myopaque =
     bnd (handleKeyedResponse S myopaque) (\<lambda>r. ret (r_opaque r, r_cas r, r_data r))"

section \<open>Commands\<close>

definition doCmd :: "'w socket \<Rightarrow> command \<Rightarrow> string \<Rightarrow> string \<Rightarrow> string \<Rightarrow> int \<Rightarrow> ('w, int \<times> int \<times> string) prog" where
  "doCmd S cmd key val extraHeader cas =
     bnd (call (rand_int S 0 (2 ^ 32))) (\<lambda>opaque.
     bnd (sendCmd S (opcode cmd) key val opaque extraHeader cas) (\<lambda>_.
     handleSingleResponse S (Some opaque)))"

definition mutate :: "'w socket \<Rightarrow> command \<Rightarrow> string \<Rightarrow> int \<Rightarrow> int \<Rightarrow> int \<Rightarrow> string \<Rightarrow> ('w, int \<times> int \<times> string) prog" where
  "mutate S cmd key exp flags cas val =
     bnd (packed SET_PKT_FMT [flags, exp]) (\<lambda>extra. doCmd S cmd key val extra cas)"

definition cat :: "'w socket \<Rightarrow> command \<Rightarrow> string \<Rightarrow> int \<Rightarrow> string \<Rightarrow> ('w, int \<times> int \<times> string) prog" where
  "cat S cmd key cas val = doCmd S cmd key val [] cas"

definition mc_append :: "'w socket \<Rightarrow> string \<Rightarrow> string \<Rightarrow> int \<Rightarrow> ('w, int \<times> int \<times> string) prog" where
  "mc_append S key val cas = cat S CMD_APPEND key cas val"

definition mc_prepend :: "'w socket \<Rightarrow> string \<Rightarrow> string \<Rightarrow> int \<Rightarrow> ('w, int \<times> int \<times> string) prog" where
  "mc_prepend S key val cas = cat S CMD_PREPEND key cas val"

definition incrdecr :: "'w socket \<Rightarrow> command \<Rightarrow> string \<Rightarrow> int \<Rightarrow> int \<Rightarrow> int \<Rightarrow> ('w, int \<times> int) prog" where
  "incrdecr S cmd key amt init exp =
     bnd (packed INCRDECR_PKT_FMT [amt, init, exp]) (\<lambda>extra.
     bnd (doCmd S cmd key [] extra 0) (\<lambda>(something, cas, val).
     bnd (unpacked INCRDECR_RES_FMT val) (\<lambda>vs.
     ret (hd vs, cas))))"

definition mc_incr :: "'w socket \<Rightarrow> string \<Rightarrow> int \<Rightarrow> int \<Rightarrow> int \<Rightarrow> ('w, int \<times> int) prog" where
  "mc_incr S = incrdecr S CMD_INCR"

definition mc_decr :: "'w socket \<Rightarrow> string \<Rightarrow> int \<Rightarrow> int \<Rightarrow> int \<Rightarrow> ('w, int \<times> int) prog" where
  "mc_decr S = incrdecr S CMD_DECR"

definition mc_set :: "'w socket \<Rightarrow> string \<Rightarrow> int \<Rightarrow> int \<Rightarrow> string \<Rightarrow> ('w, int \<times> int \<times> string) prog" where
  "mc_set S key exp flags val = mutate S CMD_SET key exp flags 0 val"

definition mc_add :: "'w socket \<Rightarrow> string \<Rightarrow> int \<Rightarrow> int \<Rightarrow> string \<Rightarrow> ('w, int \<times> int \<times> string) prog" where
  "mc_add S key exp flags val = mutate S CMD_ADD key exp flags 0 val"

definition mc_replace :: "'w socket \<Rightarrow> string \<Rightarrow> int \<Rightarrow> int \<Rightarrow> string \<Rightarrow> ('w, int \<times> int \<times> string) prog" where
  "mc_replace S key exp flags val = mutate S CMD_REPLACE key exp flags 0 val"

definition parseGet :: "int \<times> int \<times> string \<Rightarrow> ('w, int \<times> int \<times> string) prog" where
  "parseGet d = (case d of (opaque, cas, data) \<Rightarrow>
     bnd (unpacked GET_RES_FMT (take 4 data)) (\<lambda>vs. ret (hd vs, cas, drop 4 data)))"

definition mc_get :: "'w socket \<Rightarrow> string \<Rightarrow> ('w, int \<times> int \<times> string) prog" where
  "mc_get S key = bnd (doCmd S CMD_GET key [] [] 0) parseGet"

definition mc_cas :: "'w socket \<Rightarrow> string \<Rightarrow> int \<Rightarrow> int \<Rightarrow> int \<Rightarrow> string \<Rightarrow> ('w, unit) prog" where
  "mc_cas S key exp flags oldVal val = bnd (mutate S CMD_SET key exp flags oldVal val) (\<lambda>_. ret ())"

definition mc_version :: "'w socket \<Rightarrow> ('w, int \<times> int \<times> string) prog" where
  "mc_version S = doCmd S CMD_VERSION [] [] [] 0"

definition mc_noop :: "'w socket \<Rightarrow> ('w, int \<times> int \<times> string) prog" where
  "mc_noop S = doCmd S CMD_NOOP [] [] [] 0"

definition mc_delete :: "'w socket \<Rightarrow> string \<Rightarrow> int \<Rightarrow> ('w, int \<times> int \<times> string) prog" where
  "mc_delete S key cas = doCmd S CMD_DELETE key [] [] cas"

definition mc_flush :: "'w socket \<Rightarrow> int \<Rightarrow> ('w, int \<times> int \<times> string) prog" where
  "mc_flush S timebomb = bnd (packed FLUSH_PKT_FMT [timebomb]) (\<lambda>extra. doCmd S CMD_FLUSH [] [] extra 0)"

definition set_vbucket_state :: "'w socket \<Rightarrow> nat \<Rightarrow> string \<Rightarrow> ('w, int \<times> int \<times> string) prog" where
  "set_vbucket_state S vbucket state = doCmd S CMD_SET_VBUCKET_STATE (str_nat vbucket) state [] 0"

definition delete_vbucket :: "'w socket \<Rightarrow> nat \<Rightarrow> ('w, int \<times> int \<times> string) prog" where
  "delete_vbucket S vbucket = doCmd S CMD_DELETE_VBUCKET (str_nat vbucket) [] [] 0"

section \<open>Authentication\<close>

definition sasl_mechanisms :: "'w socket \<Rightarrow> ('w, string set) prog" where
  "sasl_mechanisms S = bnd (doCmd S CMD_SASL_LIST_MECHS [] [] [] 0) (\<lambda>(opaque, cas, data).
     ret (set (py_split (CHR '' '') data)))"

definition sasl_auth_start :: "'w socket \<Rightarrow> string \<Rightarrow> string \<Rightarrow> ('w, int \<times> int \<times> string) prog" where
  "sasl_auth_start S mech data = doCmd S CMD_SASL_AUTH mech data [] 0"

definition sasl_auth_plain :: "'w socket \<Rightarrow> string \<Rightarrow> string \<Rightarrow> string \<Rightarrow> ('w, int \<times> int \<times> string) prog" where
  "sasl_auth_plain S user password foruser =
     sasl_auth_start S ''PLAIN'' (py_join [CHR 0x00] [foruser, user, password])"

text \<open>
  The server's refusal carries the challenge. When it accepts at once, \<open>challenge\<close> is never assigned and its use
  raises.
\<close>

definition challenge_of :: "(int \<times> int \<times> string) outcome \<Rightarrow> ('w, string) prog" where
  "challenge_of r = (case r of
       Raise (MemcachedError status msg) \<Rightarrow>
         if status \<noteq> ERR_AUTH_CONTINUE then throw (MemcachedError status msg) else ret msg
     | Raise e \<Rightarrow> throw e
     | Ret _ \<Rightarrow> throw (UnboundLocalError ''challenge'')
     | Spin \<Rightarrow> spin
     | Block \<Rightarrow> (\<lambda>w. Some (Block, w)))"

definition sasl_auth_cram_md5 :: "'w socket \<Rightarrow> string \<Rightarrow> string \<Rightarrow> ('w, int \<times> int \<times> string) prog" where
  "sasl_auth_cram_md5 S user password =
     bnd (\<lambda>w. case sasl_auth_start S ''CRAM-MD5'' [] w of
              None \<Rightarrow> None | Some (r, w') \<Rightarrow> challenge_of r w') (\<lambda>challenge.
     doCmd S CMD_SASL_STEP ''CRAM-MD5'' (user @ '' '' @ hex_hmac S password challenge) [] 0)"

section \<open>Several answers\<close>

text \<open>
  \<open>getMulti\<close>: the keys under their positions, quietly; then a \<open>noop\<close> whose answer ends the loop. The loop is over the
  dictionary \<open>rv\<close>, which the state carries; it ends when the test does.
\<close>

definition get_round :: "'w socket \<Rightarrow> string list \<Rightarrow> int
    \<Rightarrow> ('w \<times> (string \<rightharpoonup> int \<times> int \<times> string), bool) prog" where
  "get_round S keys terminal = (\<lambda>(w, rv).
     case bnd (handleSingleResponse S None) (\<lambda>(opaque, cas, data).
            if opaque \<noteq> terminal then
              bnd (parseGet (opaque, cas, data)) (\<lambda>v.
              if 0 \<le> opaque \<and> opaque < int (length keys) then ret (Some (keys ! nat opaque, v))
              else throw (KeyError opaque))
            else ret None) w of
       None \<Rightarrow> None
     | Some (Ret None, w') \<Rightarrow> Some (Ret True, w', rv)
     | Some (Ret (Some (k, v)), w') \<Rightarrow> Some (Ret False, w', rv(k \<mapsto> v))
     | Some (Raise e, w') \<Rightarrow> Some (Raise e, w', rv)
     | Some (Spin, w') \<Rightarrow> Some (Spin, w', rv)
     | Some (Block, w') \<Rightarrow> Some (Block, w', rv))"

definition with_dict :: "('w \<times> (string \<rightharpoonup> 'v), unit) prog \<Rightarrow> ('w, string \<rightharpoonup> 'v) prog" where
  "with_dict m w = (case m (w, Map.empty) of
       None \<Rightarrow> None
     | Some (Ret _, w', rv) \<Rightarrow> Some (Ret rv, w')
     | Some (Raise e, w', rv) \<Rightarrow> Some (Raise e, w')
     | Some (Spin, w', rv) \<Rightarrow> Some (Spin, w')
     | Some (Block, w', rv) \<Rightarrow> Some (Block, w'))"

definition getMulti :: "'w socket \<Rightarrow> string list \<Rightarrow> ('w, string \<rightharpoonup> int \<times> int \<times> string) prog" where
  "getMulti S keys =
     (let terminal = int (length keys) + 10 in
     bnd (for_each (enumerate 0 keys) (\<lambda>(k, v). sendCmd S (opcode CMD_GETQ) v [] (int k) [] 0)) (\<lambda>_.
     bnd (sendCmd S (opcode CMD_NOOP) [] [] terminal [] 0) (\<lambda>_.
     with_dict (until (get_round S keys terminal) (ret ())))))"

definition stats_round :: "'w socket \<Rightarrow> ('w \<times> (string \<rightharpoonup> string), bool) prog" where
  "stats_round S = (\<lambda>(w, rv).
     case handleKeyedResponse S None w of
       None \<Rightarrow> None
     | Some (Ret r, w') \<Rightarrow>
         if r_keylen r \<noteq> 0
         then Some (Ret False, w', rv(take (nat (r_keylen r)) (r_data r) \<mapsto> drop (nat (r_keylen r)) (r_data r)))
         else Some (Ret True, w', rv)
     | Some (Raise e, w') \<Rightarrow> Some (Raise e, w', rv)
     | Some (Spin, w') \<Rightarrow> Some (Spin, w', rv)
     | Some (Block, w') \<Rightarrow> Some (Block, w', rv))"

definition stats :: "'w socket \<Rightarrow> string \<Rightarrow> ('w, string \<rightharpoonup> string) prog" where
  "stats S sub =
     bnd (call (rand_int S 0 (2 ^ 32))) (\<lambda>opaque.
     bnd (sendCmd S (opcode CMD_STAT) sub [] opaque [] 0) (\<lambda>_.
     with_dict (until (stats_round S) (ret ()))))"

end
