(* ===== verification/MemcacheRules.thy ===== *)
theory MemcacheRules
  imports MemcacheClient
begin

text \<open>
  Rules for the memcached client: a request on the wire, a response read off a byte stream that arrives in pieces
  (\<open>decode_response\<close> is what it means).
\<close>

section \<open>Requests\<close>

lemma header_size [simp]: "calcsize (Big REQ_PKT_FMT) = 24" "calcsize (Big RES_PKT_FMT) = 24" "MIN_RECV_PACKET = 24"
  by (simp_all add: MIN_RECV_PACKET_def REQ_PKT_FMT_def RES_PKT_FMT_def)

definition request_fields :: "int \<Rightarrow> string \<Rightarrow> string \<Rightarrow> int \<Rightarrow> string \<Rightarrow> int \<Rightarrow> int list" where
  "request_fields cmd key val opaque extraHeader cas =
     [REQ_MAGIC_BYTE, cmd, int (length key), int (length extraHeader), 0, vbucketId,
      int (length key) + int (length extraHeader) + int (length val), opaque, cas]"

text \<open>The values a header has room for.\<close>

definition request_ok :: "int \<Rightarrow> string \<Rightarrow> string \<Rightarrow> int \<Rightarrow> string \<Rightarrow> int \<Rightarrow> bool" where
  "request_ok cmd key val opaque extraHeader cas \<longleftrightarrow>
     0 \<le> cmd \<and> cmd < 2 ^ 8 \<and> length key < 2 ^ 16 \<and> length extraHeader < 2 ^ 8
     \<and> length key + length extraHeader + length val < 2 ^ 32 \<and> 0 \<le> opaque \<and> opaque < 2 ^ 32 \<and> 0 \<le> cas \<and> cas < 2 ^ 64"

lemma pack_request:
  "pack REQ_PKT_FMT (request_fields cmd key val opaque extraHeader cas) \<noteq> None
   \<longleftrightarrow> request_ok cmd key val opaque extraHeader cas"
  unfolding pack_defined
  by (auto simp: REQ_PKT_FMT_def request_fields_def request_ok_def in_range_def REQ_MAGIC_BYTE_def vbucketId_def)

lemma sendCmd_run:
  "sendCmd S cmd key val opaque extraHeader cas w =
     (case pack REQ_PKT_FMT (request_fields cmd key val opaque extraHeader cas) of
        None \<Rightarrow> Some (Raise (StructError ''pack''), w)
      | Some msg \<Rightarrow> (case sock_send S (msg @ extraHeader @ key @ val) w of
            (Inl e, w') \<Rightarrow> Some (Raise e, w') | (Inr n, w') \<Rightarrow> Some (Ret (), w')))"
  by (auto simp: sendCmd_def packed_def request_fields_def bnd_def throw_def ret_def raising_def
      split: option.splits sum.splits prod.splits)

definition request_bytes :: "int \<Rightarrow> string \<Rightarrow> string \<Rightarrow> int \<Rightarrow> string \<Rightarrow> int \<Rightarrow> string" where
  "request_bytes cmd key val opaque extra cas =
     (case pack REQ_PKT_FMT (request_fields cmd key val opaque extra cas) of
        None \<Rightarrow> [] | Some h \<Rightarrow> h @ extra @ key @ val)"

lemma sent_request:
  assumes "request_ok cmd key val opaque extra cas"
    and "sock_send S (request_bytes cmd key val opaque extra cas) w = (Inr n, w')"
  shows "sendCmd S cmd key val opaque extra cas w = Some (Ret (), w')"
proof -
  obtain h where h: "pack REQ_PKT_FMT (request_fields cmd key val opaque extra cas) = Some h"
    using assms(1) pack_request [of cmd key val opaque extra cas] by blast
  with assms(2) show ?thesis by (simp add: sendCmd_run request_bytes_def)
qed

section \<open>A stream in pieces\<close>

text \<open>
  What a connected stream socket promises: \<open>recv n\<close> takes a piece of at most \<open>n\<close> bytes off the front of what is to come,
  and only an empty one at its end.
\<close>

definition streams :: "'w socket \<Rightarrow> ('w \<Rightarrow> string) \<Rightarrow> bool" where
  "streams S pending \<longleftrightarrow> (\<forall>n w. 0 < n \<longrightarrow> (\<exists>d w'. sock_recv S n w = (Inr d, w') \<and> pending w = d @ pending w'
      \<and> length d \<le> n \<and> (d = [] \<longleftrightarrow> pending w = [])))"

lemma streamsE:
  assumes "streams S pending" and "0 < n"
  obtains d w' where "sock_recv S n w = (Inr d, w')" "pending w = d @ pending w'" "length d \<le> n"
    "d = [] \<longleftrightarrow> pending w = []"
  using assms unfolding streams_def by blast

lemma recv_header_run:
  "streams S pending \<Longrightarrow> length acc \<le> n \<Longrightarrow> \<exists>w'. recv_header S n acc w =
      (if n - length acc \<le> length (pending w) then Some (Ret (acc @ take (n - length acc) (pending w)), w')
       else Some (Raise got_empty, w'))
    \<and> pending w' = drop (n - length acc) (pending w)"
proof (induction S n acc w rule: recv_header.induct)
  case (1 S n acc w)
  show ?case
  proof (cases "length acc < n")
    case False
    then have "recv_header S n acc w = Some (Ret acc, w)" by (subst recv_header.simps) simp
    with False "1.prems" show ?thesis by simp
  next
    case True
    have pos: "0 < n - length acc" using True by simp
    obtain d w' where r: "sock_recv S (n - length acc) w = (Inr d, w')" "pending w = d @ pending w'"
      "length d \<le> n - length acc" "d = [] \<longleftrightarrow> pending w = []"
      by (rule streamsE [OF "1.prems"(1) pos])
    show ?thesis
    proof (cases "d = []")
      case True
      then have "recv_header S n acc w = Some (Raise got_empty, w')"
        using r(1) \<open>length acc < n\<close> by (subst recv_header.simps) simp
      with r True \<open>length acc < n\<close> show ?thesis by auto
    next
      case False
      have step: "recv_header S n acc w = recv_header S n (acc @ d) w'"
        using r(1) True False by (subst recv_header.simps) simp
      have len: "length (acc @ d) \<le> n" using r(3) True by simp
      show ?thesis
        using "1.IH" [OF True r(1) [symmetric] refl False "1.prems"(1) len] r(2,3) unfolding step
        by (auto simp: take_append drop_append)
    qed
  qed
qed

lemma recv_body_run:
  "streams S pending \<Longrightarrow> \<exists>w'. recv_body S remaining rv w =
      (if nat remaining \<le> length (pending w) then Some (Ret (rv @ take (nat remaining) (pending w)), w')
       else Some (Raise got_empty, w'))
    \<and> pending w' = drop (nat remaining) (pending w)"
proof (induction S remaining rv w rule: recv_body.induct)
  case (1 S remaining rv w)
  show ?case
  proof (cases "0 < remaining")
    case False
    then have "recv_body S remaining rv w = Some (Ret rv, w)" by (subst recv_body.simps) simp
    with False show ?thesis by simp
  next
    case True
    have pos: "0 < nat remaining" using True by simp
    obtain d w' where r: "sock_recv S (nat remaining) w = (Inr d, w')" "pending w = d @ pending w'"
      "length d \<le> nat remaining" "d = [] \<longleftrightarrow> pending w = []"
      by (rule streamsE [OF "1.prems"(1) pos])
    show ?thesis
    proof (cases "d = []")
      case True
      then have "recv_body S remaining rv w = Some (Raise got_empty, w')"
        using r(1) \<open>0 < remaining\<close> by (subst recv_body.simps) simp
      with r True \<open>0 < remaining\<close> show ?thesis by auto
    next
      case False
      have step: "recv_body S remaining rv w = recv_body S (remaining - int (length d)) (rv @ d) w'"
        using r(1) True False by (subst recv_body.simps) simp
      have less: "nat (remaining - int (length d)) = nat remaining - length d" by simp
      show ?thesis
        using "1.IH" [OF True r(1) [symmetric] refl False "1.prems"(1)] r(2,3) unfolding step less
        by (auto simp: take_append drop_append)
    qed
  qed
qed

section \<open>What a response means\<close>

text \<open>
  The header is 24 bytes, the seventh of its fields the length of the body. Magic and opaque are looked at when the
  body has been read, the error code last.
\<close>

definition judge :: "int option \<Rightarrow> int list \<Rightarrow> string \<Rightarrow> response outcome" where
  "judge my vs body =
     (let opq = vs ! 7 in
     if vs ! 0 \<noteq> RES_MAGIC_BYTE \<and> vs ! 0 \<noteq> REQ_MAGIC_BYTE then Raise (AssertionError ''Got magic'')
     else if my \<noteq> None \<and> my \<noteq> Some opq then Raise (AssertionError ''expected opaque'')
     else if vs ! 5 \<noteq> 0 then Raise (MemcachedError (vs ! 5) body)
     else Ret \<lparr>r_cmd = vs ! 1, r_opaque = opq, r_cas = vs ! 8, r_keylen = vs ! 2, r_extralen = vs ! 3, r_data = body\<rparr>)"

definition decode_response :: "int option \<Rightarrow> string \<Rightarrow> response outcome \<times> string" where
  "decode_response my s =
     (let vs = unpack_fields RES_PKT_FMT (take 24 s); n = nat (vs ! 6) in
     if length s < 24 + (if length s < 24 then 0 else n) then (Raise got_empty, [])
     else (judge my vs (take n (drop 24 s)), drop (24 + n) s))"

lemma unpack_response:
  "\<exists>a b c d e f g h i. unpack_fields RES_PKT_FMT s = [a, b, c, d, e, f, g, h, i]"
  by (simp add: RES_PKT_FMT_def)

lemma unpacked_header:
  "length header = 24 \<Longrightarrow> unpacked RES_PKT_FMT header = ret (unpack_fields RES_PKT_FMT header)"
  by (simp add: unpacked_def unpack_def del: calcsize.simps unpack_fields.simps)

lemma assertion_step [run_simps]:
  "bnd (assertion p m) k w = (if p then k () w else Some (Raise (AssertionError m), w))"
  by (simp add: assertion_def run_simps)

text \<open>Whatever pieces the bytes arrive in, the client reads their meaning and leaves the rest for the next response.\<close>

lemma keyed_response_run:
  fixes S :: "'w socket"
  assumes "streams S pending"
  shows "\<exists>w'. handleKeyedResponse S my w = Some (fst (decode_response my (pending w)), w')
    \<and> pending w' = snd (decode_response my (pending w))"
proof -
  let ?s = "pending w" and ?h = "take 24 (pending w)"
  obtain w1 where w1: "recv_header S 24 [] w = (if 24 \<le> length ?s then Some (Ret ?h, w1) else Some (Raise got_empty, w1))"
    "pending w1 = drop 24 ?s"
    using recv_header_run [OF assms, of "[]" 24 w] by auto
  show ?thesis
  proof (cases "24 \<le> length ?s")
    case False
    with w1 have "handleKeyedResponse S my w = Some (Raise got_empty, w1)" "pending w1 = []"
      by (simp_all add: handleKeyedResponse_def bnd_def)
    with False show ?thesis by (simp add: decode_response_def Let_def)
  next
    case True
    obtain a b c d e f g h i where vs: "unpack_fields RES_PKT_FMT ?h = [a, b, c, d, e, f, g, h, i]"
      using unpack_response by blast
    obtain w2 where w2: "recv_body S g [] w1 = (if nat g \<le> length (pending w1)
        then Some (Ret (take (nat g) (pending w1)), w2) else Some (Raise got_empty, w2))"
      "pending w2 = drop (nat g) (pending w1)"
      using recv_body_run [OF assms, of g "[]" w1] by auto
    have start: "handleKeyedResponse S my w = bnd (recv_body S g []) (\<lambda>rv.
         bnd (assertion (a = RES_MAGIC_BYTE \<or> a = REQ_MAGIC_BYTE) ''Got magic'') (\<lambda>_.
         bnd (assertion (my = None \<or> my = Some h) ''expected opaque'') (\<lambda>_.
         if f \<noteq> 0 then throw (MemcachedError f rv)
         else ret \<lparr>r_cmd = b, r_opaque = h, r_cas = i, r_keylen = c, r_extralen = d, r_data = rv\<rparr>))) w1"
    proof -
      have hdr: "recv_header S 24 [] w = Some (Ret ?h, w1)" using True w1(1) by simp
      have "bnd (unpacked RES_PKT_FMT ?h) k w1 = k [a, b, c, d, e, f, g, h, i] w1" for k :: "int list \<Rightarrow> ('w, response) prog"
        using True by (simp add: unpacked_header vs run_simps)
      with True show ?thesis
        unfolding handleKeyedResponse_def header_size(3) bnd_def [of "recv_header _ _ _"] hdr
        by (simp add: assertion_step)
    qed
    show ?thesis
    proof (cases "24 + nat g \<le> length ?s")
      case False
      then have rest: "recv_body S g [] w1 = Some (Raise got_empty, w2)" "pending w2 = []"
        using True w1(2) w2 by auto
      have "handleKeyedResponse S my w = Some (Raise got_empty, w2)"
        unfolding start bnd_def [of "recv_body _ _ _"] rest by simp
      with True False vs rest show ?thesis by (simp add: decode_response_def Let_def)
    next
      case fits: True
      then have rest: "recv_body S g [] w1 = Some (Ret (take (nat g) (drop 24 ?s)), w2)" "pending w2 = drop (24 + nat g) ?s"
        using True w1(2) w2 by (auto simp: add.commute)
      have "handleKeyedResponse S my w = Some (judge my [a, b, c, d, e, f, g, h, i] (take (nat g) (drop 24 ?s)), w2)"
        unfolding start bnd_def [of "recv_body _ _ _"] rest
        by (auto simp: assertion_step judge_def Let_def throw_def ret_def)
      with True fits vs rest show ?thesis by (simp add: decode_response_def Let_def)
    qed
  qed
qed

end
