(* ===== verification/MemcacheServer.thy ===== *)
theory MemcacheServer
  imports MemcacheRules
begin

text \<open>
  The other side of the connection, for \<open>getMulti\<close>: a store of flags, versions and values that answers a quiet get
  for a key it holds, is silent for one it does not, and answers every \<open>noop\<close>. The lemmas follow the client
  through its requests and through the responses.
\<close>

section \<open>Responses as bytes\<close>

definition reply :: "int \<Rightarrow> int \<Rightarrow> int \<Rightarrow> string \<Rightarrow> string \<Rightarrow> string \<Rightarrow> int \<Rightarrow> string option" where
  "reply cmd errcode opaque extra key val cas =
     map_option (\<lambda>h. h @ extra @ key @ val)
       (pack RES_PKT_FMT [RES_MAGIC_BYTE, cmd, int (length key), int (length extra), 0, errcode,
          int (length extra) + int (length key) + int (length val), opaque, cas])"

text \<open>Packing a response and reading it are inverse, whatever follows on the stream.\<close>

lemma decode_reply:
  assumes "reply cmd errcode opaque extra key val cas = Some s"
  shows "decode_response my (s @ rest) =
    (judge my [RES_MAGIC_BYTE, cmd, int (length key), int (length extra), 0, errcode,
       int (length extra) + int (length key) + int (length val), opaque, cas] (extra @ key @ val), rest)"
proof -
  let ?vs = "[RES_MAGIC_BYTE, cmd, int (length key), int (length extra), 0, errcode,
       int (length extra) + int (length key) + int (length val), opaque, cas]"
  obtain h where h: "pack RES_PKT_FMT ?vs = Some h" "s = h @ extra @ key @ val"
    using assms unfolding reply_def by blast
  have len: "length h = 24" and fields: "unpack_fields RES_PKT_FMT h = ?vs"
    using pack_some [OF h(1), of "[]"] by (simp_all add: header_size del: calcsize.simps)
  have "nat (int (length extra) + int (length key) + int (length val)) = length extra + length key + length val" by simp
  then show ?thesis
    using len unfolding decode_response_def h(2) by (simp add: fields Let_def)
qed

lemma reply_defined:
  "reply cmd errcode opaque extra key val cas \<noteq> None \<longleftrightarrow>
     0 \<le> cmd \<and> cmd < 2 ^ 8 \<and> length key < 2 ^ 16 \<and> length extra < 2 ^ 8 \<and> 0 \<le> errcode \<and> errcode < 2 ^ 16
     \<and> length extra + length key + length val < 2 ^ 32 \<and> 0 \<le> opaque \<and> opaque < 2 ^ 32 \<and> 0 \<le> cas \<and> cas < 2 ^ 64"
proof -
  have "reply cmd errcode opaque extra key val cas \<noteq> None \<longleftrightarrow>
    pack RES_PKT_FMT [RES_MAGIC_BYTE, cmd, int (length key), int (length extra), 0, errcode,
          int (length extra) + int (length key) + int (length val), opaque, cas] \<noteq> None"
    by (simp add: reply_def)
  then show ?thesis
    unfolding pack_defined by (auto simp: RES_PKT_FMT_def in_range_def RES_MAGIC_BYTE_def)
qed

section \<open>The server\<close>

type_synonym store = "string \<rightharpoonup> int \<times> int \<times> string"

definition get_answer :: "store \<Rightarrow> int \<Rightarrow> string \<Rightarrow> string" where
  "get_answer store opaque key =
     (case store key of
        None \<Rightarrow> []
      | Some (flags, cas, val) \<Rightarrow>
          case_option [] (\<lambda>extra. case_option [] id (reply (opcode CMD_GETQ) 0 opaque extra [] val cas))
            (pack GET_RES_FMT [flags]))"

definition noop_answer :: "int \<Rightarrow> string" where
  "noop_answer opaque = case_option [] id (reply (opcode CMD_NOOP) 0 opaque [] [] [] 0)"

definition serve :: "store \<Rightarrow> string \<Rightarrow> string" where
  "serve store msg =
     (case unpack_fields REQ_PKT_FMT (take 24 msg) of
        [magic, cmd, keylen, extralen, dtype, vbucket, n, opaque, cas] \<Rightarrow>
          let key = take (nat keylen) (drop (24 + nat extralen) msg) in
          if cmd = opcode CMD_GETQ then get_answer store opaque key
          else if cmd = opcode CMD_NOOP then noop_answer opaque
          else []
      | _ \<Rightarrow> [])"

text \<open>
  A stream to a server: a quiet get or a \<open>noop\<close>, sent whole, adds its answer to what is to come and leaves the server's
  state \<open>st\<close> as it is, as does receiving; other requests may change it. \<open>view\<close> is the store in a state.
\<close>

definition answers :: "'w socket \<Rightarrow> ('w \<Rightarrow> string) \<Rightarrow> ('w \<Rightarrow> 's) \<Rightarrow> string \<Rightarrow> string \<Rightarrow> 'w \<Rightarrow> bool" where
  "answers S pending st msg a w \<longleftrightarrow>
     (\<exists>n w'. sock_send S msg w = (Inr n, w') \<and> pending w' = pending w @ a \<and> st w' = st w)"

definition serves :: "'w socket \<Rightarrow> ('w \<Rightarrow> string) \<Rightarrow> ('w \<Rightarrow> 's) \<Rightarrow> ('s \<Rightarrow> store) \<Rightarrow> bool" where
  "serves S pending st view \<longleftrightarrow> streams S pending
     \<and> (\<forall>n w. st (snd (sock_recv S n w)) = st w)
     \<and> (\<forall>key opq w. request_ok (opcode CMD_GETQ) key [] opq [] 0 \<longrightarrow>
          answers S pending st (request_bytes (opcode CMD_GETQ) key [] opq [] 0) (get_answer (view (st w)) opq key) w)
     \<and> (\<forall>opq w. request_ok (opcode CMD_NOOP) [] [] opq [] 0 \<longrightarrow>
          answers S pending st (request_bytes (opcode CMD_NOOP) [] [] opq [] 0) (noop_answer opq) w)"

text \<open>What fits into the fields of its answers.\<close>

fun storable :: "int \<times> int \<times> string \<Rightarrow> bool" where
  "storable (flags, cas, val) \<longleftrightarrow> 0 \<le> flags \<and> flags < 2 ^ 32 \<and> 0 \<le> cas \<and> cas < 2 ^ 64 \<and> length val + 4 < 2 ^ 32"

definition askable :: "store \<Rightarrow> string list \<Rightarrow> bool" where
  "askable store keys \<longleftrightarrow> length keys + 10 < 2 ^ 32
     \<and> list_all (\<lambda>v. length v < 2 ^ 16 \<and> case_option True storable (store v)) keys"

section \<open>Requests to it\<close>

lemma serve_request:
  assumes "request_ok cmd key [] opq [] 0"
  shows "serve store (request_bytes cmd key [] opq [] 0) = (if cmd = opcode CMD_GETQ then get_answer store opq key
      else if cmd = opcode CMD_NOOP then noop_answer opq else [])"
proof -
  let ?vs = "request_fields cmd key [] opq [] 0"
  obtain msg where msg: "pack REQ_PKT_FMT ?vs = Some msg"
    using assms pack_request [of cmd key "[]" opq "[]" 0] by blast
  have len: "length msg = 24" and fields: "unpack_fields REQ_PKT_FMT msg = ?vs"
    using pack_some [OF msg, of "[]"] by (simp_all add: header_size del: calcsize.simps)
  show ?thesis
    using len by (simp add: serve_def request_bytes_def msg fields) (simp add: request_fields_def Let_def)
qed

lemma answers_sent:
  assumes "answers S pending st (request_bytes cmd key val opq extra cas) a w" and "request_ok cmd key val opq extra cas"
  obtains w' where "sendCmd S cmd key val opq extra cas w = Some (Ret (), w')"
    "pending w' = pending w @ a" "st w' = st w"
proof -
  obtain n w' where w': "sock_send S (request_bytes cmd key val opq extra cas) w = (Inr n, w')"
    "pending w' = pending w @ a" "st w' = st w"
    using assms(1) unfolding answers_def by blast
  from that [OF sent_request [OF assms(2) w'(1)] w'(2,3)] show thesis .
qed

lemma send_key:
  assumes "serves S pending st view" and "0 \<le> opq" and "opq < 2 ^ 32" and "length key < 2 ^ 16"
  obtains w' where "sendCmd S (opcode CMD_GETQ) key [] opq [] 0 w = Some (Ret (), w')"
    "pending w' = pending w @ get_answer (view (st w)) opq key" "st w' = st w"
proof -
  have ok: "request_ok (opcode CMD_GETQ) key [] opq [] 0" using assms(2-4) by (simp add: request_ok_def)
  with assms(1) have "answers S pending st (request_bytes (opcode CMD_GETQ) key [] opq [] 0) (get_answer (view (st w)) opq key) w"
    unfolding serves_def by blast
  from answers_sent [OF this ok] that show ?thesis by blast
qed

lemma send_noop:
  assumes "serves S pending st view" and "0 \<le> opq" and "opq < 2 ^ 32"
  obtains w' where "sendCmd S (opcode CMD_NOOP) [] [] opq [] 0 w = Some (Ret (), w')"
    "pending w' = pending w @ noop_answer opq" "st w' = st w"
proof -
  have ok: "request_ok (opcode CMD_NOOP) [] [] opq [] 0" using assms(2,3) by (simp add: request_ok_def)
  with assms(1) have "answers S pending st (request_bytes (opcode CMD_NOOP) [] [] opq [] 0) (noop_answer opq) w"
    unfolding serves_def by blast
  from answers_sent [OF this ok] that show ?thesis by blast
qed

lemma send_keys:
  assumes "serves S pending st view"
  shows "list_all (\<lambda>(k, v). k < 2 ^ 32 \<and> length v < 2 ^ 16) xs \<Longrightarrow>
    \<exists>w'. for_each xs (\<lambda>(k, v). sendCmd S (opcode CMD_GETQ) v [] (int k) [] 0) w = Some (Ret (), w')
      \<and> pending w' = pending w @ concat (map (\<lambda>(k, v). get_answer (view (st w)) (int k) v) xs) \<and> st w' = st w"
proof (induction xs arbitrary: w)
  case (Cons p xs)
  obtain k v where p: "p = (k, v)" by (cases p)
  have "0 \<le> int k" "int k < 2 ^ 32" "length v < 2 ^ 16" using Cons.prems by (simp_all add: p)
  from send_key [OF assms this] obtain w1 where w1: "sendCmd S (opcode CMD_GETQ) v [] (int k) [] 0 w = Some (Ret (), w1)"
    "pending w1 = pending w @ get_answer (view (st w)) (int k) v" "st w1 = st w" by blast
  obtain w2 where "for_each xs (\<lambda>(k, v). sendCmd S (opcode CMD_GETQ) v [] (int k) [] 0) w1 = Some (Ret (), w2)"
    "pending w2 = pending w1 @ concat (map (\<lambda>(k, v). get_answer (view (st w1)) (int k) v) xs)" "st w2 = st w1"
    using Cons.IH [of w1] Cons.prems by (auto simp: p)
  with w1 show ?case by (simp add: p bnd_def)
qed (simp add: ret_def)

section \<open>Its answers, one at a time\<close>

lemma until_once: "test s = Some (Ret True, s1) \<Longrightarrow> until test body s = Some (Ret (), s1)"
  by (subst until.simps) simp

lemma until_again: "test s = Some (Ret False, s1) \<Longrightarrow> until test (ret ()) s = until test (ret ()) s1"
  by (subst until.simps) (simp add: ret_def)

lemma handle_reply:
  assumes "streams S pending" and "reply cmd 0 opaque extra key val cas = Some s" and "pending w = s @ rest"
  shows "\<exists>w'. handleSingleResponse S None w = Some (Ret (opaque, cas, extra @ key @ val), w') \<and> pending w' = rest"
proof -
  have "decode_response None (pending w) =
    (Ret \<lparr>r_cmd = cmd, r_opaque = opaque, r_cas = cas, r_keylen = int (length key), r_extralen = int (length extra),
       r_data = extra @ key @ val\<rparr>, rest)"
    unfolding assms(3) decode_reply [OF assms(2)] by (simp add: judge_def)
  with keyed_response_run [OF assms(1), of None w] show ?thesis
    by (auto simp: handleSingleResponse_def bnd_def ret_def)
qed

lemma round_noop:
  assumes "streams S pending" and "pending w = noop_answer terminal" and "0 \<le> terminal" and "terminal < 2 ^ 32"
  shows "\<exists>w'. get_round S keys terminal (w, rv) = Some (Ret True, w', rv) \<and> pending w' = []"
proof -
  have "reply (opcode CMD_NOOP) 0 terminal [] [] [] 0 \<noteq> None"
    unfolding reply_defined using assms(3,4) by simp
  then obtain s where s: "reply (opcode CMD_NOOP) 0 terminal [] [] [] 0 = Some s" by blast
  have "pending w = s @ []" using assms(2) unfolding noop_answer_def s by simp
  from handle_reply [OF assms(1) s this] show ?thesis
    by (auto simp: get_round_def bnd_def ret_def)
qed

lemma parse_get:
  assumes "pack GET_RES_FMT [flags] = Some extra"
  shows "parseGet (opaque, cas, extra @ val) w = Some (Ret (flags, cas, val), w)"
proof -
  have "length extra = 4" "unpack_fields GET_RES_FMT extra = [flags]"
    using pack_some [OF assms, of "[]"] by (auto simp: GET_RES_FMT_def)
  then have "unpacked GET_RES_FMT (take 4 (extra @ val)) w = Some (Ret [flags], w)"
    by (simp add: unpacked_def unpack_def GET_RES_FMT_def ret_def)
  with \<open>length extra = 4\<close> show ?thesis by (simp add: parseGet_def bnd_def ret_def)
qed

lemma round_get:
  assumes "streams S pending" and "store (keys ! k) = Some (flags, cas, val)" and "storable (flags, cas, val)"
    and "pending w = get_answer store (int k) (keys ! k) @ rest" and "k < length keys" and "length keys < 2 ^ 32"
    and "terminal \<noteq> int k"
  shows "\<exists>w'. get_round S keys terminal (w, rv) = Some (Ret False, w', rv(keys ! k \<mapsto> (flags, cas, val))) \<and> pending w' = rest"
proof -
  have "pack GET_RES_FMT [flags] \<noteq> None"
    unfolding pack_defined using assms(3) by (simp add: GET_RES_FMT_def in_range_def)
  then obtain extra where extra: "pack GET_RES_FMT [flags] = Some extra" by blast
  have len: "length extra = 4" using pack_some [OF extra, of "[]"] by (simp add: GET_RES_FMT_def)
  have "reply (opcode CMD_GETQ) 0 (int k) extra [] val cas \<noteq> None"
    unfolding reply_defined using assms(3,5,6) len by simp
  then obtain s where s: "reply (opcode CMD_GETQ) 0 (int k) extra [] val cas = Some s" by blast
  have "pending w = s @ rest" using assms(4) unfolding get_answer_def assms(2) extra by (simp only: option.case prod.case extra s id_apply)
  from handle_reply [OF assms(1) s this] obtain w' where
    "handleSingleResponse S None w = Some (Ret (int k, cas, extra @ val), w')" "pending w' = rest" by auto
  then show ?thesis
    using assms(5,7) by (simp add: get_round_def bnd_def parse_get [OF extra] ret_def)
qed

text \<open>All of them: the dictionary gains what the store has for the keys asked.\<close>

lemma rounds:
  assumes "streams S pending" and "length keys + 10 < 2 ^ 32" and "terminal = int (length keys) + 10"
  shows "list_all (\<lambda>(k, v). k < length keys \<and> keys ! k = v \<and> case_option True storable (store v)) xs \<Longrightarrow>
    pending w = concat (map (\<lambda>(k, v). get_answer store (int k) v) xs) @ noop_answer terminal \<Longrightarrow>
    \<exists>w'. until (get_round S keys terminal) (ret ()) (w, rv) = Some (Ret (), w', rv ++ (store |` (snd ` set xs)))
      \<and> pending w' = []"
proof (induction xs arbitrary: w rv)
  case Nil
  have "0 \<le> terminal" "terminal < 2 ^ 32" using assms(2,3) by simp_all
  with Nil round_noop [OF assms(1), of w terminal keys rv] show ?case by (auto intro: until_once)
next
  case (Cons p xs)
  obtain k v where p: "p = (k, v)" by (cases p)
  show ?case
  proof (cases "store v")
    case None
    then have "rv ++ (store |` (snd ` set (p # xs))) = rv ++ (store |` (snd ` set xs))"
      by (auto simp: p restrict_map_def map_add_def fun_eq_iff)
    with Cons None show ?thesis by (simp add: p get_answer_def)
  next
    case (Some x)
    obtain flags cas val where x: "x = (flags, cas, val)" by (cases x)
    have k: "k < length keys" "keys ! k = v" "storable (flags, cas, val)"
      using Cons.prems(1) Some by (simp_all add: p x)
    obtain w1 where w1: "get_round S keys terminal (w, rv) = Some (Ret False, w1, rv(v \<mapsto> (flags, cas, val)))"
      "pending w1 = concat (map (\<lambda>(k, v). get_answer store (int k) v) xs) @ noop_answer terminal"
      using round_get [OF assms(1), of store keys k flags cas val w
          "concat (map (\<lambda>(k, v). get_answer store (int k) v) xs) @ noop_answer terminal" terminal rv]
        k Some Cons.prems(2) assms(2,3) by (auto simp: p x)
    have whole: "rv ++ (store |` (snd ` set (p # xs))) = rv(v \<mapsto> (flags, cas, val)) ++ (store |` (snd ` set xs))"
      using Some by (auto simp: p x restrict_map_def map_add_def fun_eq_iff split: option.splits)
    have step: "until (get_round S keys terminal) (ret ()) (w, rv)
        = until (get_round S keys terminal) (ret ()) (w1, rv(v \<mapsto> (flags, cas, val)))"
      by (rule until_again) (rule w1(1))
    show ?thesis
      unfolding whole step by (rule Cons.IH) (use Cons.prems(1) w1(2) in simp_all)
  qed
qed

text \<open>The positions \<open>enumerate\<close> gives the keys.\<close>

lemma enumerated: "list_all (\<lambda>(k, v). k < j + length vs \<and> P v \<and> (j \<le> k \<longrightarrow> vs ! (k - j) = v)) (enumerate j vs)"
  if "list_all P vs"
  using that by (auto simp: list_all_length nth_enumerate_eq)

section \<open>Commands against a stream\<close>

fun single :: "response outcome \<Rightarrow> (int \<times> int \<times> string) outcome" where
  "single (Ret r) = Ret (r_opaque r, r_cas r, r_data r)"
| "single (Raise e) = Raise e"
| "single Spin = Spin"
| "single Block = Block"

lemma single_response_run:
  assumes "streams S pending"
  shows "\<exists>w'. handleSingleResponse S my w = Some (single (fst (decode_response my (pending w))), w')
    \<and> pending w' = snd (decode_response my (pending w))"
proof -
  obtain w' where w': "handleKeyedResponse S my w = Some (fst (decode_response my (pending w)), w')"
    "pending w' = snd (decode_response my (pending w))"
    using keyed_response_run [OF assms] by blast
  then have "handleSingleResponse S my w = Some (single (fst (decode_response my (pending w))), w')"
    by (cases "fst (decode_response my (pending w))") (simp_all add: handleSingleResponse_def bnd_def ret_def)
  with w'(2) show ?thesis by blast
qed

lemma command_run:
  assumes "streams S pending" and "rand_int S 0 (2 ^ 32) w = (opaque, w1)"
    and "request_ok (opcode cmd) key val opaque extra cas"
    and "sock_send S (request_bytes (opcode cmd) key val opaque extra cas) w1 = (Inr n, w2)"
  shows "\<exists>w'. doCmd S cmd key val extra cas w = Some (single (fst (decode_response (Some opaque) (pending w2))), w')
    \<and> pending w' = snd (decode_response (Some opaque) (pending w2))"
proof -
  have "doCmd S cmd key val extra cas w = handleSingleResponse S (Some opaque) w2"
    using assms(2) sent_request [OF assms(3,4)] by (simp add: doCmd_def call_def bnd_def)
  with single_response_run [OF assms(1), of "Some opaque" w2] show ?thesis by simp
qed

text \<open>A response to a command, whichever it is and whatever follows on the stream.\<close>

definition answered :: "int \<Rightarrow> int \<Rightarrow> int \<Rightarrow> int \<Rightarrow> string \<Rightarrow> (int \<times> int \<times> string) outcome" where
  "answered mine err opq cas body =
     (if opq \<noteq> mine then Raise (AssertionError ''expected opaque'')
      else if err \<noteq> 0 then Raise (MemcachedError err body) else Ret (mine, cas, body))"

lemma command_reply:
  assumes "streams S pending" and "rand_int S 0 (2 ^ 32) w = (mine, w1)"
    and "request_ok (opcode cmd) key val mine extra cas"
    and "sock_send S (request_bytes (opcode cmd) key val mine extra cas) w1 = (Inr n, w2)"
    and "reply rcmd err opq rextra rkey rval rcas = Some s" and "pending w2 = s @ rest"
  shows "\<exists>w'. doCmd S cmd key val extra cas w = Some (answered mine err opq rcas (rextra @ rkey @ rval), w')
    \<and> pending w' = rest"
proof -
  have "single (fst (decode_response (Some mine) (pending w2))) = answered mine err opq rcas (rextra @ rkey @ rval)"
    "snd (decode_response (Some mine) (pending w2)) = rest"
    unfolding assms(6) decode_reply [OF assms(5)] by (auto simp: judge_def answered_def)
  with command_run [OF assms(1-4)] show ?thesis by simp
qed

section \<open>What receiving keeps\<close>

lemma recv_header_keeps:
  "(\<And>n w. f (snd (sock_recv S n w)) = f w) \<Longrightarrow> recv_header S n acc w = Some (r, w') \<Longrightarrow> f w' = f w"
proof (induction S n acc w arbitrary: r rule: recv_header.induct)
  case (1 S n acc w)
  have recv: "f w1 = f w" if "sock_recv S (n - length acc) w = (x, w1)" for x w1
    using "1.prems"(1) [of "n - length acc" w] that by simp
  have step: "f w' = f w" if "length acc < n" "sock_recv S (n - length acc) w = (Inr d, w1)" "d \<noteq> []" "recv_header S n (acc @ d) w1 = Some (r, w')" for d w1
    using "1.IH" [OF that(1) that(2) [symmetric] refl that(3) "1.prems"(1) that(4)] recv [OF that(2)] by simp
  from "1.prems"(2) show ?case
    by (subst (asm) recv_header.simps) (auto split: if_splits prod.splits sum.splits dest: recv step)
qed

lemma recv_body_keeps:
  "(\<And>n w. f (snd (sock_recv S n w)) = f w) \<Longrightarrow> recv_body S remaining acc w = Some (r, w') \<Longrightarrow> f w' = f w"
proof (induction S remaining acc w arbitrary: r rule: recv_body.induct)
  case (1 S remaining acc w)
  have recv: "f w1 = f w" if "sock_recv S (nat remaining) w = (x, w1)" for x w1
    using "1.prems"(1) [of "nat remaining" w] that by simp
  have step: "f w' = f w" if "0 < remaining" "sock_recv S (nat remaining) w = (Inr d, w1)" "d \<noteq> []" "recv_body S (remaining - int (length d)) (acc @ d) w1 = Some (r, w')" for d w1
    using "1.IH" [OF that(1) that(2) [symmetric] refl that(3) "1.prems"(1) that(4)] recv [OF that(2)] by simp
  from "1.prems"(2) show ?case
    by (subst (asm) recv_body.simps) (auto split: if_splits prod.splits sum.splits dest: recv step)
qed

lemma keeps_assertion [keeps_intros]: "keeps f (assertion p m)"
  by (simp add: assertion_def keeps_intros)

lemma keeps_unpacked [keeps_intros]: "keeps f (unpacked fs s)"
  by (simp add: unpacked_def keeps_intros split: option.splits)

lemma keeps_response:
  assumes "\<And>n w. f (snd (sock_recv S n w)) = f w"
  shows "keeps f (handleKeyedResponse S my)"
proof -
  have "keeps f (recv_header S n [])" for n unfolding keeps_def using recv_header_keeps [OF assms] by blast
  moreover have "keeps f (recv_body S n [])" for n unfolding keeps_def using recv_body_keeps [OF assms] by blast
  ultimately show ?thesis
    unfolding handleKeyedResponse_def
    by (intro keeps_bnd keeps_intros) (auto intro!: keeps_intros split: list.splits)
qed

lemma keeps_single:
  assumes "\<And>n w. f (snd (sock_recv S n w)) = f w"
  shows "keeps f (handleSingleResponse S my)"
  unfolding handleSingleResponse_def by (intro keeps_intros keeps_response [OF assms])

lemma keeps_get_round:
  fixes f :: "'w \<Rightarrow> 'v"
  assumes "\<And>n w. f (snd (sock_recv S n w)) = f w"
  shows "keeps (\<lambda>s. f (fst s)) (get_round S keys terminal)"
  unfolding keeps_def
proof (intro allI impI)
  fix s :: "'w \<times> (string \<rightharpoonup> int \<times> int \<times> string)" and r s'
  obtain w rv where s: "s = (w, rv)" by (cases s)
  let ?m = "bnd (handleSingleResponse S None) (\<lambda>(opaque, cas, data).
            if opaque \<noteq> terminal then
              bnd (parseGet (opaque, cas, data)) (\<lambda>v.
              if 0 \<le> opaque \<and> opaque < int (length keys) then ret (Some (keys ! nat opaque, v))
              else throw (KeyError opaque))
            else ret None)"
  have "keeps f ?m"
    by (intro keeps_bnd keeps_single [OF assms])
      (auto simp: parseGet_def intro!: keeps_intros split: prod.splits)
  moreover assume "get_round S keys terminal s = Some (r, s')"
  then have "\<exists>r1. ?m w = Some (r1, fst s')"
    unfolding get_round_def s by (auto split: option.splits prod.splits outcome.splits)
  ultimately show "f (fst s') = f (fst s)" unfolding s using keepsD by fastforce
qed

lemma keeps_rounds:
  fixes f :: "'w \<Rightarrow> 'v"
  assumes "\<And>n w. f (snd (sock_recv S n w)) = f w"
  shows "keeps (\<lambda>s. f (fst s)) (until (get_round S keys terminal) (ret ()))"
  unfolding keeps_def
proof (intro allI impI)
  fix s :: "'w \<times> (string \<rightharpoonup> int \<times> int \<times> string)" and r s'
  assume u: "until (get_round S keys terminal) (ret ()) s = Some (r, s')"
  have "wp True (until (get_round S keys terminal) (ret ())) (\<lambda>r s'. f (fst s') = f (fst s)) s"
  proof (rule wp_until_partial [where I = "\<lambda>s1. f (fst s1) = f (fst s)" and J = "\<lambda>s1. f (fst s1) = f (fst s)"])
    fix s1 :: "'w \<times> (string \<rightharpoonup> int \<times> int \<times> string)"
    assume s1: "f (fst s1) = f (fst s)"
    show "wp True (get_round S keys terminal) (at_seq (\<lambda>b s'. if b then f (fst s') = f (fst s) else f (fst s') = f (fst s))
        (\<lambda>r s'. f (fst s') = f (fst s))) s1"
    proof (rule wpI)
      fix r2 s2
      assume "get_round S keys terminal s1 = Some (r2, s2)"
      then have "f (fst s2) = f (fst s)" using keepsD [OF keeps_get_round [OF assms]] s1 by metis
      then show "at_seq (\<lambda>b s'. if b then f (fst s') = f (fst s) else f (fst s') = f (fst s))
        (\<lambda>r s'. f (fst s') = f (fst s)) r2 s2" by (cases r2) simp_all
    qed
  qed (simp_all add: wp_simps)
  from wpD [OF this u] show "f (fst s') = f (fst s)" .
qed

section \<open>\<open>getMulti\<close>\<close>

lemma get_multi_run:
  assumes "serves S pending st view" and "askable (view (st w)) keys" and "pending w = []"
  shows "\<exists>w'. getMulti S keys w = Some (Ret (view (st w) |` set keys), w') \<and> pending w' = [] \<and> st w' = st w"
proof -
  let ?answers = "concat (map (\<lambda>(k, v). get_answer (view (st w)) (int k) v) (enumerate 0 keys))"
  let ?t = "int (length keys) + 10"
  have keys: "snd ` set (enumerate 0 keys) = set keys" by (metis set_map map_snd_enumerate)
  have n: "length keys + 10 < 2 ^ 32"
    and v: "list_all (\<lambda>v. length v < 2 ^ 16 \<and> case_option True storable (view (st w) v)) keys"
    using assms(2) by (simp_all add: askable_def)
  have S: "streams S pending" using assms(1) by (simp add: serves_def)
  have "list_all (\<lambda>(k, v). k < 2 ^ 32 \<and> length v < 2 ^ 16) (enumerate 0 keys)"
    using enumerated [OF v, of 0] n by (auto simp: list_all_iff)
  from send_keys [OF assms(1) this, of w] obtain w1 where w1:
    "for_each (enumerate 0 keys) (\<lambda>(k, v). sendCmd S (opcode CMD_GETQ) v [] (int k) [] 0) w = Some (Ret (), w1)"
    "pending w1 = ?answers" "st w1 = st w" using assms(3) by auto
  have "0 \<le> ?t" "?t < 2 ^ 32" using n by simp_all
  from send_noop [OF assms(1) this] obtain w2 where w2:
    "sendCmd S (opcode CMD_NOOP) [] [] ?t [] 0 w1 = Some (Ret (), w2)" "pending w2 = ?answers @ noop_answer ?t" "st w2 = st w1"
    using w1(2) by metis
  have "list_all (\<lambda>(k, v). k < length keys \<and> keys ! k = v \<and> case_option True storable (view (st w) v)) (enumerate 0 keys)"
    using enumerated [OF v, of 0] by (auto simp: list_all_iff)
  from rounds [OF S n refl this w2(2), of Map.empty] obtain w3 where
    "until (get_round S keys ?t) (ret ()) (w2, Map.empty) = Some (Ret (), w3, view (st w) |` set keys)" "pending w3 = []"
    unfolding keys by auto
  moreover have recv: "st (snd (sock_recv S n w)) = st w" for n w using assms(1) unfolding serves_def by blast
  have "st w3 = st w2" if "until (get_round S keys ?t) (ret ()) (w2, Map.empty) = Some (r, w3, rv)" for r w3 rv
    using keepsD [OF keeps_rounds [OF recv] that] by simp
  ultimately show ?thesis
    using w1(1,3) w2(1,3) by (simp add: getMulti_def Let_def bnd_def with_dict_def)
qed

end
