(* ===== verification/MemcacheProperties.thy ===== *)
theory MemcacheProperties
  imports MemcacheServer
begin

text \<open>
  The properties of the memcached client: what a request puts on the wire, how a response is read from a stream in
  pieces, a command and its answer, \<open>getMulti\<close> against a store, that the loops over responses end, and the CRAM-MD5
  exchange. The socket at the end of the preliminaries gives closed instances.
\<close>

section \<open>Ending\<close>

text \<open>Each round of \<open>getMulti\<close> and \<open>stats\<close> that does not end the loop has taken a header's bytes off the stream.\<close>

lemma decode_shortens: "fst (decode_response my s) = Ret r \<Longrightarrow> length (snd (decode_response my s)) < length s"
  by (auto simp: decode_response_def Let_def split: if_splits)

lemma decode_ends: "fst (decode_response my s) \<noteq> Spin \<and> fst (decode_response my s) \<noteq> Block"
  by (simp add: decode_response_def judge_def Let_def)

fun finite_outcome :: "'a outcome \<Rightarrow> bool" where
  "finite_outcome (Ret x) = True"
| "finite_outcome (Raise e) = True"
| "finite_outcome Spin = False"
| "finite_outcome Block = False"

lemma wp_round:
  assumes "streams S pending"
    and "\<And>r w'. fst (decode_response my (pending w)) = Ret r \<Longrightarrow> length (pending w') < length (pending w) \<Longrightarrow> Q (Ret r) w'"
    and "\<And>e w'. Q (Raise e) w'"
  shows "wp False (handleKeyedResponse S my) Q w"
proof -
  obtain w' where w': "handleKeyedResponse S my w = Some (fst (decode_response my (pending w)), w')"
    "pending w' = snd (decode_response my (pending w))"
    using keyed_response_run [OF assms(1)] by blast
  with assms(2,3) decode_shortens [of my "pending w"] decode_ends [of my "pending w"]
  show ?thesis by (cases "fst (decode_response my (pending w))") (auto simp: wp_def)
qed

text \<open>A round leaves the loop, raises or shortens the stream.\<close>

definition advances :: "('w \<Rightarrow> string) \<Rightarrow> ('w \<times> 'd, bool) prog \<Rightarrow> bool" where
  "advances pending test \<longleftrightarrow> (\<forall>n s. length (pending (fst s)) \<le> n \<longrightarrow>
     wp False test (at_seq (\<lambda>c s'. if c then finite_outcome (Ret ()) else 0 < n \<and> length (pending (fst s')) \<le> n - 1)
       (\<lambda>r s'. finite_outcome (r :: unit outcome))) s)"

lemma loop_ends:
  fixes pending :: "'w \<Rightarrow> string" and test :: "('w \<times> 'd, bool) prog"
  assumes "advances pending test"
  shows "\<exists>r s'. until test (ret ()) (w, rv) = Some (r, s') \<and> finite_outcome r"
proof -
  have "wp False (until test (ret ())) (\<lambda>r s'. finite_outcome r) (w, rv)"
  proof (rule wp_until_total [where I = "\<lambda>n s. length (pending (fst s)) \<le> n"
        and J = "\<lambda>n s. length (pending (fst s)) \<le> n" and n = "length (pending w)"])
    fix n :: nat and s :: "'w \<times> 'd"
    assume "length (pending (fst s)) \<le> n"
    with assms show "wp False test (at_seq (\<lambda>c s'. if c then finite_outcome (Ret ()) else 0 < n \<and> length (pending (fst s')) \<le> n - 1)
       (\<lambda>r s'. finite_outcome (r :: unit outcome))) s"
      unfolding advances_def by blast
  qed (simp_all add: wp_simps)
  then show ?thesis by (rule wp_total)
qed

lemma parse_get_keeps: "\<exists>v. parseGet d w = Some (v, w) \<and> finite_outcome v"
  by (cases d) (auto simp: parseGet_def unpacked_def unpack_def bnd_def throw_def ret_def)

lemma get_round_advances:
  fixes pending :: "'w \<Rightarrow> string"
  assumes "streams S pending"
  shows "advances pending (get_round S keys terminal)"
  unfolding advances_def
proof (intro allI impI)
  fix n and s :: "'w \<times> (string \<rightharpoonup> int \<times> int \<times> string)"
  assume "length (pending (fst s)) \<le> n"
  moreover obtain w rv where s: "s = (w, rv)" by (cases s)
  ultimately have len: "length (pending w) \<le> n" by simp
  obtain w' where w': "handleSingleResponse S None w = Some (single (fst (decode_response None (pending w))), w')"
    "pending w' = snd (decode_response None (pending w))"
    using single_response_run [OF assms] by blast
  show "wp False (get_round S keys terminal) (at_seq (\<lambda>c s'. if c then finite_outcome (Ret ()) else 0 < n \<and> length (pending (fst s')) \<le> n - 1)
       (\<lambda>r s'. finite_outcome (r :: unit outcome))) s"
  proof (cases "fst (decode_response None (pending w))")
    case (Ret r)
    have "length (pending w') < length (pending w)" using decode_shortens [OF Ret] w'(2) by simp
    moreover obtain v where v: "parseGet (r_opaque r, r_cas r, r_data r) w' = Some (v, w')" "finite_outcome v"
      using parse_get_keeps [of "(r_opaque r, r_cas r, r_data r)" w'] by blast
    ultimately show ?thesis
      using w'(1) Ret len s by (cases v) (auto simp: wp_def get_round_def bnd_def throw_def ret_def)
  qed (use s w'(1) decode_ends [of None "pending w"] in \<open>simp_all add: wp_def get_round_def bnd_def\<close>)
qed

lemma stats_round_advances:
  fixes pending :: "'w \<Rightarrow> string"
  assumes "streams S pending"
  shows "advances pending (stats_round S)"
  unfolding advances_def
proof (intro allI impI)
  fix n and s :: "'w \<times> (string \<rightharpoonup> string)"
  assume "length (pending (fst s)) \<le> n"
  moreover obtain w rv where s: "s = (w, rv)" by (cases s)
  ultimately have len: "length (pending w) \<le> n" by simp
  obtain w' where w': "handleKeyedResponse S None w = Some (fst (decode_response None (pending w)), w')"
    "pending w' = snd (decode_response None (pending w))"
    using keyed_response_run [OF assms] by blast
  show "wp False (stats_round S) (at_seq (\<lambda>c s'. if c then finite_outcome (Ret ()) else 0 < n \<and> length (pending (fst s')) \<le> n - 1)
       (\<lambda>r s'. finite_outcome (r :: unit outcome))) s"
  proof (cases "fst (decode_response None (pending w))")
    case (Ret r)
    have "length (pending w') < length (pending w)" using decode_shortens [OF Ret] w'(2) by simp
    with w'(1) Ret len s show ?thesis by (auto simp: wp_def stats_round_def)
  qed (use s w'(1) decode_ends [of None "pending w"] in \<open>simp_all add: wp_def stats_round_def\<close>)
qed

lemma wp_with_dict:
  assumes "\<exists>r s'. m (w, Map.empty) = Some (r, s') \<and> finite_outcome r"
  shows "wp False (with_dict m) (\<lambda>r s'. finite_outcome r) w"
proof -
  obtain r s' where r: "m (w, Map.empty) = Some (r, s')" "finite_outcome r" using assms by blast
  then show ?thesis by (cases r; cases s') (simp_all add: wp_def with_dict_def)
qed

lemma wp_dict_loop:
  fixes pending :: "'w \<Rightarrow> string" and test :: "('w \<times> (string \<rightharpoonup> 'v), bool) prog"
  assumes "advances pending test"
  shows "wp False (with_dict (until test (ret ()))) (\<lambda>r s'. finite_outcome r) w"
  by (rule wp_with_dict) (rule loop_ends [OF assms])

lemma wp_sendCmd:
  "(\<And>w'. Q (Ret ()) w') \<Longrightarrow> (\<And>e w'. Q (Raise e) w') \<Longrightarrow> wp False (sendCmd S cmd key val opaque extra cas) Q w"
  by (simp add: wp_def sendCmd_run split: option.splits prod.splits sum.splits)

lemma wp_send_keys:
  assumes "\<And>w'. Q (Ret ()) w'" and "\<And>e w'. Q (Raise e) w'"
  shows "wp False (for_each xs (\<lambda>(k, v). sendCmd S cmd v [] (int k) [] 0)) Q w"
proof (induction xs arbitrary: w)
  case (Cons p xs)
  then show ?case
    by (cases p) (auto simp: wp_simps intro!: wp_sendCmd assms)
qed (simp add: wp_simps assms)

section \<open>A concrete connection\<close>

text \<open>The world is what the server has still to send; it comes in pieces of seven bytes.\<close>

definition piecewise :: "(string \<Rightarrow> string) \<Rightarrow> int \<Rightarrow> string socket" where
  "piecewise answer r = \<lparr>
     sock_connect_ex = (\<lambda>h p w. (0, w)),
     sock_send = (\<lambda>msg w. (Inr (length msg), w @ answer msg)),
     sock_recv = (\<lambda>n w. (Inr (take (min n 7) w), drop (min n 7) w)),
     sock_close = (\<lambda>w. w),
     rand_int = (\<lambda>a b w. (r, w)),
     hex_hmac = (\<lambda>k c. k @ c)\<rparr>"

lemma piecewise_streams: "streams (piecewise answer r) id"
  by (auto simp: streams_def piecewise_def)

lemma piecewise_serves: "serves (piecewise (serve st) r) id (\<lambda>_. st) (\<lambda>x. x)"
proof -
  have "opcode CMD_NOOP \<noteq> opcode CMD_GETQ" by simp
  then show ?thesis
    unfolding serves_def answers_def using piecewise_streams
    by (auto simp: piecewise_def serve_request simp del: opcode.simps)
qed

definition accepted :: string where
  "accepted = case_option [] id (reply 0x21 0 5 [] [] ''ok'' 0)"

definition two_values :: store where
  "two_values = [''a'' \<mapsto> (7, 300, ''xyz''), ''b'' \<mapsto> (0, 1, [])]"

section \<open>The properties\<close>


text \<open>
  C35: However a response is cut into pieces on the way, \<open>_handleKeyedResponse\<close> returns or raises what its bytes
  mean, and leaves on the stream what follows it; a stream that ends too early is \<open>EOFError\<close>.
\<close>
theorem response_read:
  assumes "streams S pending"
  shows "\<exists>w'. handleKeyedResponse S my w = Some (fst (decode_response my (pending w)), w')
    \<and> pending w' = snd (decode_response my (pending w))"
  by (rule keyed_response_run [OF assms])

theorem response_read_witness:
  "\<exists>w'. handleKeyedResponse (piecewise (\<lambda>_. []) 5) (Some 5) (get_answer two_values 5 ''a'' @ ''rest'')
      = Some (Ret \<lparr>r_cmd = 9, r_opaque = 5, r_cas = 300, r_keylen = 0, r_extralen = 4,
          r_data = [CHR 0x00, CHR 0x00, CHR 0x00, CHR 0x07] @ ''xyz''\<rparr>, w') \<and> w' = ''rest''"
proof -
  have "decode_response (Some 5) (get_answer two_values 5 ''a'' @ ''rest'')
     = (Ret \<lparr>r_cmd = 9, r_opaque = 5, r_cas = 300, r_keylen = 0, r_extralen = 4,
          r_data = [CHR 0x00, CHR 0x00, CHR 0x00, CHR 0x07] @ ''xyz''\<rparr>, ''rest'')"
    by code_simp
  with response_read [OF piecewise_streams [of "\<lambda>_. []" 5], of "Some 5" "get_answer two_values 5 ''a'' @ ''rest''"]
  show ?thesis by simp
qed

text \<open>
  C36: \<open>getMulti\<close> returns the server's store restricted to the keys asked, missing keys left out, keys asked twice or
  not, reads every byte of the answers, and leaves the server's state as it was.
\<close>
theorem get_multi_store:
  assumes "serves S pending st view" and "askable (view (st w)) keys" and "pending w = []"
  shows "\<exists>w'. getMulti S keys w = Some (Ret (view (st w) |` set keys), w') \<and> pending w' = [] \<and> st w' = st w"
  by (rule get_multi_run [OF assms])

theorem get_multi_store_witness:
  "\<exists>w'. getMulti (piecewise (serve two_values) 5) [''b'', ''none'', ''a'', ''b''] [] = Some (Ret two_values, w') \<and> id w' = []"
proof -
  have "askable two_values [''b'', ''none'', ''a'', ''b'']" by (simp add: askable_def two_values_def)
  with get_multi_store [OF piecewise_serves [of two_values 5], where w = "[]"]
  have "\<exists>w'. getMulti (piecewise (serve two_values) 5) [''b'', ''none'', ''a'', ''b''] []
    = Some (Ret (two_values |` set [''b'', ''none'', ''a'', ''b'']), w') \<and> id w' = []" by simp
  moreover have "two_values |` set [''b'', ''none'', ''a'', ''b''] = two_values"
    by (auto simp: two_values_def restrict_map_def fun_eq_iff)
  ultimately show ?thesis by (simp only:)
qed



text \<open>
  C39: CRAM-MD5: the refusal \<open>ERR_AUTH_CONTINUE\<close> of the first step gives the challenge for the second; another refusal
  is raised; a server that accepts at once makes the client raise \<open>UnboundLocalError\<close>.
\<close>
theorem cram_md5_steps:
  assumes "streams S pending" and "rand_int S 0 (2 ^ 32) w = (mine, w1)" and "0 \<le> mine" and "mine < 2 ^ 32"
    and "sock_send S (request_bytes (opcode CMD_SASL_AUTH) ''CRAM-MD5'' [] mine [] 0) w1 = (Inr n, w2)"
    and "reply rcmd err mine [] [] body rcas = Some s" and "pending w2 = s @ rest"
  shows "\<exists>w'. pending w' = rest \<and> sasl_auth_cram_md5 S user password w =
     (if err = 0 then Some (Raise (UnboundLocalError ''challenge''), w')
      else if err = ERR_AUTH_CONTINUE
        then doCmd S CMD_SASL_STEP ''CRAM-MD5'' (user @ '' '' @ hex_hmac S password body) [] 0 w'
      else Some (Raise (MemcachedError err body), w'))"
proof -
  have "request_ok (opcode CMD_SASL_AUTH) ''CRAM-MD5'' [] mine [] 0" using assms(3,4) by (simp add: request_ok_def)
  from command_reply [OF assms(1,2) this assms(5-7)] obtain w' where
    "sasl_auth_start S ''CRAM-MD5'' [] w = Some (answered mine err mine rcas body, w')" "pending w' = rest"
    unfolding sasl_auth_start_def by auto
  then show ?thesis
    unfolding sasl_auth_cram_md5_def
    by (intro exI [of _ w']) (auto simp: answered_def challenge_of_def bnd_def throw_def ret_def)
qed

theorem cram_md5_steps_witness:
  "\<exists>w'. id w' = [] \<and> sasl_auth_cram_md5 (piecewise (\<lambda>_. accepted) 5) ''user'' ''pw'' []
     = Some (Raise (UnboundLocalError ''challenge''), w')"
proof -
  let ?S = "piecewise (\<lambda>_. accepted) 5"
  have r: "reply 0x21 0 5 [] [] ''ok'' 0 = Some accepted" by code_simp
  have "rand_int ?S 0 (2 ^ 32) [] = (5, [])" by (simp add: piecewise_def)
  moreover have "sock_send ?S (request_bytes (opcode CMD_SASL_AUTH) ''CRAM-MD5'' [] 5 [] 0) []
      = (Inr (length (request_bytes (opcode CMD_SASL_AUTH) ''CRAM-MD5'' [] 5 [] 0)), accepted @ [])"
    by (simp add: piecewise_def)
  ultimately show ?thesis
    using cram_md5_steps [OF piecewise_streams _ _ _ _ r, of _ 5 "[]" "[]" _ "accepted @ []" "[]" "''user''" "''pw''"] by fastforce
qed

end
