(* ===== verification/MemcacheTests.thy ===== *)
theory MemcacheTests
  imports MemcacheClient
begin

text \<open>
  \<open>memcached-1.4.25/trigger/scripts/testClient.py\<close>: the compliance test that drives a memcached server through the
  client, a definition per method. A failed assertion raises \<open>AssertionError\<close>, its text shortened; \<open>sleep\<close> is the
  clock's, in milliseconds.
\<close>

section \<open>Assertions\<close>

definition assertEquals :: "'a \<Rightarrow> 'a \<Rightarrow> ('w, unit) prog" where
  "assertEquals x y = assertion (x = y) ''not equal''"

definition fail :: "string \<Rightarrow> ('w, 'a) prog" where
  "fail msg = throw (AssertionError msg)"

text \<open>\<open>except MemcachedError, e:\<close> with what is done with \<open>e.status\<close>.\<close>

definition except_memcached :: "('w, 'a) prog \<Rightarrow> (int \<Rightarrow> ('w, 'a) prog) \<Rightarrow> ('w, 'a) prog" where
  "except_memcached m h w = (case m w of
     Some (Raise (MemcachedError status msg), w') \<Rightarrow> h status w' | r \<Rightarrow> r)"

definition refused :: "int \<Rightarrow> string \<Rightarrow> ('w, 'a) prog \<Rightarrow> ('w, unit) prog" where
  "refused err msg m = except_memcached (bnd m (\<lambda>_. fail msg)) (\<lambda>status. assertEquals err status)"

definition ERR_NOT_FOUND :: int where "ERR_NOT_FOUND = 0x1"
definition ERR_EXISTS :: int where "ERR_EXISTS = 0x2"

definition setUp :: "'w socket \<Rightarrow> ('w, unit) prog" where
  "setUp S = block [mc_init S ''127.0.0.1'' 11211, bnd (mc_flush S 0) (\<lambda>_. ret ())]"

definition tearDown :: "'w socket \<Rightarrow> ('w, unit) prog" where
  "tearDown S = block [bnd (mc_flush S 0) (\<lambda>_. ret ()), mc_close S]"

definition assertNotExists :: "'w socket \<Rightarrow> string \<Rightarrow> ('w, unit) prog" where
  "assertNotExists S key = refused ERR_NOT_FOUND ''Expected an exception'' (mc_get S key)"

definition assertGet :: "int \<times> string \<Rightarrow> int \<times> int \<times> string \<Rightarrow> ('w, unit) prog" where
  "assertGet exp gv = (case gv of (flags, cas, val) \<Rightarrow> assertEquals (flags, val) exp)"

definition assertValidCas :: "'w socket \<Rightarrow> string \<Rightarrow> int \<Rightarrow> ('w, unit) prog" where
  "assertValidCas S key cas = bnd (mc_get S key) (\<lambda>(flags, currentcas, val). assertEquals currentcas cas)"

text \<open>A call for its effect, and \<open>self.assertGet(exp, self.mc.get(key))\<close>.\<close>

definition just :: "('w, 'a) prog \<Rightarrow> ('w, unit) prog" where
  "just m = bnd m (\<lambda>_. ret ())"

definition get_is :: "'w socket \<Rightarrow> string \<Rightarrow> int \<times> string \<Rightarrow> ('w, unit) prog" where
  "get_is S key exp = bnd (mc_get S key) (assertGet exp)"

section \<open>The tests\<close>

text \<open>\<open>len(v)\<close> is the length of the triple the command returns, not of the version in it.\<close>

definition testVersion :: "'w socket \<Rightarrow> ('w, unit) prog" where
  "testVersion S = bnd (mc_version S) (\<lambda>(opaque, cas, data). let len = 3 :: nat in assertion (0 < len) ''Bad version:'')"

definition testSimpleSetGet :: "'w socket \<Rightarrow> ('w, unit) prog" where
  "testSimpleSetGet S = block [
     just (mc_set S ''x'' 5 19 ''somevalue''),
     get_is S ''x'' (19, ''somevalue'')]"

definition testZeroExpiration :: "'w socket \<Rightarrow> (int \<Rightarrow> 'w \<Rightarrow> 'w) \<Rightarrow> ('w, unit) prog" where
  "testZeroExpiration S sl = block [
     just (mc_set S ''x'' 0 19 ''somevalue''),
     modify (sl 1100),
     get_is S ''x'' (19, ''somevalue'')]"

definition testDelete :: "'w socket \<Rightarrow> ('w, unit) prog" where
  "testDelete S = block [
     just (mc_set S ''x'' 5 19 ''somevalue''),
     get_is S ''x'' (19, ''somevalue''),
     just (mc_delete S ''x'' 0),
     assertNotExists S ''x'']"

definition testFlush :: "'w socket \<Rightarrow> ('w, unit) prog" where
  "testFlush S = block [
     just (mc_set S ''x'' 5 19 ''somevaluex''),
     just (mc_set S ''y'' 5 17 ''somevaluey''),
     get_is S ''x'' (19, ''somevaluex''),
     get_is S ''y'' (17, ''somevaluey''),
     just (mc_flush S 0),
     assertNotExists S ''x'',
     assertNotExists S ''y'']"

definition testNoop :: "'w socket \<Rightarrow> ('w, unit) prog" where
  "testNoop S = just (mc_noop S)"

definition testAdd :: "'w socket \<Rightarrow> ('w, unit) prog" where
  "testAdd S = block [
     assertNotExists S ''x'',
     just (mc_add S ''x'' 5 19 ''ex''),
     get_is S ''x'' (19, ''ex''),
     refused ERR_EXISTS ''Expected failure to add existing key'' (mc_add S ''x'' 5 19 ''ex2''),
     get_is S ''x'' (19, ''ex'')]"

definition testReplace :: "'w socket \<Rightarrow> ('w, unit) prog" where
  "testReplace S = block [
     assertNotExists S ''x'',
     refused ERR_NOT_FOUND ''Expected failure to replace missing key'' (mc_replace S ''x'' 5 19 ''ex''),
     just (mc_add S ''x'' 5 19 ''ex''),
     get_is S ''x'' (19, ''ex''),
     just (mc_replace S ''x'' 5 19 ''ex2''),
     get_is S ''x'' (19, ''ex2'')]"

text \<open>\<open>vals[key]\<close> of a missing key raises \<open>KeyError\<close>.\<close>

definition item_is :: "(string \<rightharpoonup> int \<times> int \<times> string) \<Rightarrow> string \<Rightarrow> int \<times> string \<Rightarrow> ('w, unit) prog" where
  "item_is vals key exp = (case vals key of None \<Rightarrow> throw (OtherError ''KeyError'') | Some v \<Rightarrow> assertGet exp v)"

definition testMultiGet :: "'w socket \<Rightarrow> ('w, unit) prog" where
  "testMultiGet S = block [
     just (mc_add S ''x'' 5 1 ''ex''),
     just (mc_add S ''y'' 5 2 ''why''),
     bnd (getMulti S [''x'', ''y'', ''z'']) (\<lambda>vals. block [
       item_is vals ''x'' (1, ''ex''),
       item_is vals ''y'' (2, ''why''),
       assertEquals 2 (card (dom vals))])]"

definition testIncrDoesntExistNoCreate :: "'w socket \<Rightarrow> ('w, unit) prog" where
  "testIncrDoesntExistNoCreate S = block [
     refused ERR_NOT_FOUND ''Expected failure to increment non-existent key'' (mc_incr S ''x'' 1 0 INCRDECR_SPECIAL),
     assertNotExists S ''x'']"

definition testIncrDoesntExistCreate :: "'w socket \<Rightarrow> ('w, unit) prog" where
  "testIncrDoesntExistCreate S = block [
     assertNotExists S ''x'',
     bnd (mc_incr S ''x'' 1 19 0) (\<lambda>(val, cas). assertEquals 19 val)]"

definition testDecrDoesntExistNoCreate :: "'w socket \<Rightarrow> ('w, unit) prog" where
  "testDecrDoesntExistNoCreate S = block [
     refused ERR_NOT_FOUND ''Expected failiure to decrement non-existent key.'' (mc_decr S ''x'' 1 0 INCRDECR_SPECIAL),
     assertNotExists S ''x'']"

definition testDecrDoesntExistCreate :: "'w socket \<Rightarrow> ('w, unit) prog" where
  "testDecrDoesntExistCreate S = block [
     assertNotExists S ''x'',
     bnd (mc_decr S ''x'' 1 19 0) (\<lambda>(val, cas). assertEquals 19 val)]"

definition testIncr :: "'w socket \<Rightarrow> ('w, unit) prog" where
  "testIncr S = block [
     bnd (mc_incr S ''x'' 1 0 0) (\<lambda>(val, cas). assertEquals 0 val),
     bnd (mc_incr S ''x'' 1 0 0) (\<lambda>(val, cas). assertEquals 1 val),
     bnd (mc_incr S ''x'' 211 0 0) (\<lambda>(val, cas). assertEquals 212 val),
     bnd (mc_incr S ''x'' (2 ^ 33) 0 0) (\<lambda>(val, cas). assertEquals 8589934804 val)]"

definition testDecr :: "'w socket \<Rightarrow> ('w, unit) prog" where
  "testDecr S = block [
     bnd (mc_incr S ''x'' 1 5 0) (\<lambda>(val, cas). assertEquals 5 val),
     bnd (mc_decr S ''x'' 1 0 0) (\<lambda>(val, cas). assertEquals 4 val),
     bnd (mc_decr S ''x'' 211 0 0) (\<lambda>(val, cas). assertEquals 0 val)]"

text \<open>\<open>flags, i, val = get(key)\<close> and the assertion on the value, going on with \<open>i\<close>.\<close>

definition value_is :: "'w socket \<Rightarrow> string \<Rightarrow> string \<Rightarrow> ('w, int) prog" where
  "value_is S key exp = bnd (mc_get S key) (\<lambda>(flags, i, val). bnd (assertEquals exp val) (\<lambda>_. ret i))"

definition testCas :: "'w socket \<Rightarrow> ('w, unit) prog" where
  "testCas S = block [
     refused ERR_NOT_FOUND ''Expected error CASing with no existing value'' (mc_cas S ''x'' 5 19 0x7fffffffff ''bad value''),
     just (mc_add S ''x'' 5 19 ''original value''),
     bnd (value_is S ''x'' ''original value'') (\<lambda>i. block [
       refused ERR_EXISTS ''Expected error CASing with invalid id'' (mc_cas S ''x'' 5 19 (i + 1) ''broken value''),
       mc_cas S ''x'' 5 19 i ''new value'',
       just (value_is S ''x'' ''new value''),
       refused ERR_EXISTS ''Expected error CASing with invalid id'' (mc_cas S ''x'' 5 19 i ''crap value''),
       just (value_is S ''x'' ''new value'')])]"

definition testSetReturnsCas :: "'w socket \<Rightarrow> ('w, unit) prog" where
  "testSetReturnsCas S = bnd (mc_set S ''x'' 5 19 ''some val'') (\<lambda>(opq, cas, body). assertValidCas S ''x'' cas)"

definition testAddReturnsCas :: "'w socket \<Rightarrow> ('w, unit) prog" where
  "testAddReturnsCas S = bnd (mc_add S ''x'' 5 19 ''some val'') (\<lambda>(opq, cas, body). assertValidCas S ''x'' cas)"

definition testReplaceReturnsCas :: "'w socket \<Rightarrow> ('w, unit) prog" where
  "testReplaceReturnsCas S = block [
     just (mc_add S ''x'' 5 19 ''some val''),
     bnd (mc_replace S ''x'' 5 19 ''other val'') (\<lambda>(opq, cas, body). assertValidCas S ''x'' cas)]"

definition testIncrReturnsCAS :: "'w socket \<Rightarrow> ('w, unit) prog" where
  "testIncrReturnsCAS S = block [
     just (mc_set S ''x'' 5 19 ''4''),
     bnd (mc_incr S ''x'' 1 5 0) (\<lambda>(val, cas). block [assertEquals 5 val, assertValidCas S ''x'' cas])]"

definition testDecrReturnsCAS :: "'w socket \<Rightarrow> ('w, unit) prog" where
  "testDecrReturnsCAS S = block [
     just (mc_set S ''x'' 5 19 ''4''),
     bnd (mc_decr S ''x'' 1 5 0) (\<lambda>(val, cas). block [assertEquals 3 val, assertValidCas S ''x'' cas])]"

definition testDeletionCAS :: "'w socket \<Rightarrow> ('w, unit) prog" where
  "testDeletionCAS S = block [
     except_memcached (just (mc_delete S ''x'' 0)) (\<lambda>status. assertEquals ERR_NOT_FOUND status),
     bnd (mc_set S ''x'' 5 19 ''4'') (\<lambda>(val, cas, something). block [
       refused ERR_EXISTS ''Deletion should've failed.'' (mc_delete S ''x'' (cas + 1)),
       get_is S ''x'' (19, ''4''),
       just (mc_delete S ''x'' cas),
       assertNotExists S ''x''])]"

definition testAppend :: "'w socket \<Rightarrow> ('w, unit) prog" where
  "testAppend S = block [
     just (mc_set S ''x'' 5 19 ''some''),
     just (mc_append S ''x'' ''thing'' 0),
     get_is S ''x'' (19, ''something'')]"

definition testAppendCAS :: "'w socket \<Rightarrow> ('w, unit) prog" where
  "testAppendCAS S = block [
     bnd (mc_set S ''x'' 5 19 ''some'') (\<lambda>(val, cas, something).
       refused ERR_EXISTS ''expected CAS failure.'' (mc_append S ''x'' ''thing'' (cas + 1))),
     get_is S ''x'' (19, ''some'')]"

definition testPrepend :: "'w socket \<Rightarrow> ('w, unit) prog" where
  "testPrepend S = block [
     just (mc_set S ''x'' 5 19 ''some''),
     just (mc_prepend S ''x'' ''thing'' 0),
     get_is S ''x'' (19, ''thingsome'')]"

definition testPrependCAS :: "'w socket \<Rightarrow> ('w, unit) prog" where
  "testPrependCAS S = block [
     bnd (mc_set S ''x'' 5 19 ''some'') (\<lambda>(val, cas, something).
       refused ERR_EXISTS ''expected CAS failure.'' (mc_prepend S ''x'' ''thing'' (cas + 1))),
     get_is S ''x'' (19, ''some'')]"

definition testTimeBombedFlush :: "'w socket \<Rightarrow> (int \<Rightarrow> 'w \<Rightarrow> 'w) \<Rightarrow> ('w, unit) prog" where
  "testTimeBombedFlush S sl = block [
     just (mc_set S ''x'' 5 19 ''some''),
     just (mc_flush S 2),
     get_is S ''x'' (19, ''some''),
     modify (sl 2100),
     assertNotExists S ''x'']"

section \<open>Running them\<close>

definition compliance_tests :: "'w socket \<Rightarrow> (int \<Rightarrow> 'w \<Rightarrow> 'w) \<Rightarrow> ('w, unit) prog list" where
  "compliance_tests S sl = [
     testVersion S, testSimpleSetGet S, testZeroExpiration S sl, testDelete S, testFlush S, testNoop S, testAdd S,
     testReplace S, testMultiGet S, testIncrDoesntExistNoCreate S, testIncrDoesntExistCreate S,
     testDecrDoesntExistNoCreate S, testDecrDoesntExistCreate S, testIncr S, testDecr S, testCas S,
     testSetReturnsCas S, testAddReturnsCas S, testReplaceReturnsCas S, testIncrReturnsCAS S, testDecrReturnsCAS S,
     testDeletionCAS S, testAppend S, testAppendCAS S, testPrepend S, testPrependCAS S, testTimeBombedFlush S sl]"

text \<open>\<open>unittest\<close> runs \<open>tearDown\<close> after a test whether it failed or not.\<close>

definition run_test :: "'w socket \<Rightarrow> ('w, unit) prog \<Rightarrow> ('w, unit) prog" where
  "run_test S test = bnd (setUp S) (\<lambda>_ w. case test w of
     None \<Rightarrow> None | Some (r, w') \<Rightarrow> bnd (tearDown S) (\<lambda>_ w2. Some (r, w2)) w')"

end
