(* ===== verification/MemcacheModel.thy ===== *)
theory MemcacheModel
  imports MemcacheServer
begin

text \<open>
  The server of memcached's binary protocol as its documentation describes it, for the commands the client's test
  uses: \<open>execute\<close> is a request's effect on the items and its answer, \<open>memcached\<close> says that a socket's other end is such a
  server. It is a hypothesis of the test's property; the program does not contain it. Times are in milliseconds.
\<close>

section \<open>The server's state\<close>

record item =
  i_flags :: int
  i_cas :: int
  i_value :: string
  i_until :: "int option"

record server =
  items :: "string \<rightharpoonup> item"
  last_cas :: int
  clock :: int
  bomb :: "int option"

definition live :: "server \<Rightarrow> string \<Rightarrow> item option" where
  "live s key = (case items s key of
     None \<Rightarrow> None
   | Some i \<Rightarrow> if (case i_until i of None \<Rightarrow> True | Some t \<Rightarrow> clock s < t) then Some i else None)"

text \<open>An expiration of 0 is never, up to thirty days it counts from now, beyond that it is a date.\<close>

definition until_time :: "server \<Rightarrow> int \<Rightarrow> int option" where
  "until_time s exp =
     (if exp = 0 then None else if exp \<le> 2592000 then Some (clock s + 1000 * exp) else Some (1000 * exp))"

text \<open>Time passes; a delayed flush takes everything stored before it.\<close>

definition later :: "int \<Rightarrow> server \<Rightarrow> server" where
  "later ms s = (case bomb s of
     Some t \<Rightarrow> if t \<le> clock s + ms then s\<lparr>items := Map.empty, bomb := None, clock := clock s + ms\<rparr>
             else s\<lparr>clock := clock s + ms\<rparr>
   | None \<Rightarrow> s\<lparr>clock := clock s + ms\<rparr>)"

section \<open>Requests\<close>

text \<open>Error code, extra header, body and version; \<open>None\<close> is silence.\<close>

type_synonym answer = "(int \<times> string \<times> string \<times> int) option"

definition failed :: "int \<Rightarrow> string \<Rightarrow> answer" where
  "failed err msg = Some (err, [], msg, 0)"

definition not_found :: answer where "not_found = failed 1 ''Not found''"
definition exists :: answer where "exists = failed 2 ''Data exists for key.''"
definition not_stored :: answer where "not_stored = failed 5 ''Not stored.''"
definition bad_delta :: answer where "bad_delta = failed 6 ''Non-numeric server-side value for incr or decr''"
definition bad_request :: answer where "bad_request = failed 4 ''Invalid arguments''"

definition put :: "server \<Rightarrow> string \<Rightarrow> int \<Rightarrow> int option \<Rightarrow> string \<Rightarrow> server" where
  "put s key flags til val = s\<lparr>
     items := (items s)(key \<mapsto> \<lparr>i_flags = flags, i_cas = last_cas s + 1, i_value = val, i_until = til\<rparr>),
     last_cas := last_cas s + 1\<rparr>"

definition done_put :: "server \<Rightarrow> string \<Rightarrow> server \<times> answer" where
  "done_put s body = (s, Some (0, [], body, last_cas s))"

text \<open>A version of 0 in a request fits every item.\<close>

definition version_ok :: "int \<Rightarrow> item \<Rightarrow> bool" where
  "version_ok cas i \<longleftrightarrow> cas = 0 \<or> cas = i_cas i"

definition get_reply :: "item \<Rightarrow> answer" where
  "get_reply i = (case pack GET_RES_FMT [i_flags i] of
     None \<Rightarrow> None | Some extra \<Rightarrow> Some (0, extra, i_value i, i_cas i))"

definition set_item :: "string \<Rightarrow> string \<Rightarrow> int \<Rightarrow> int \<Rightarrow> int \<Rightarrow> server \<Rightarrow> server \<times> answer" where
  "set_item key val flags exp cas s = (case live s key of
     None \<Rightarrow> if cas = 0 then done_put (put s key flags (until_time s exp) val) [] else (s, not_found)
   | Some i \<Rightarrow> if version_ok cas i then done_put (put s key flags (until_time s exp) val) [] else (s, exists))"

definition add_item :: "string \<Rightarrow> string \<Rightarrow> int \<Rightarrow> int \<Rightarrow> server \<Rightarrow> server \<times> answer" where
  "add_item key val flags exp s =
     (if live s key = None then done_put (put s key flags (until_time s exp) val) [] else (s, exists))"

definition replace_item :: "string \<Rightarrow> string \<Rightarrow> int \<Rightarrow> int \<Rightarrow> int \<Rightarrow> server \<Rightarrow> server \<times> answer" where
  "replace_item key val flags exp cas s = (case live s key of
     None \<Rightarrow> (s, not_found)
   | Some i \<Rightarrow> if version_ok cas i then done_put (put s key flags (until_time s exp) val) [] else (s, exists))"

definition delete_item :: "string \<Rightarrow> int \<Rightarrow> server \<Rightarrow> server \<times> answer" where
  "delete_item key cas s = (case live s key of
     None \<Rightarrow> (s, not_found)
   | Some i \<Rightarrow> if version_ok cas i then (s\<lparr>items := (items s)(key := None)\<rparr>, Some (0, [], [], 0)) else (s, exists))"

text \<open>Counters are decimal texts of 64 bits; counting up wraps around, counting down stops at 0.\<close>

definition counter_reply :: "server \<Rightarrow> string \<Rightarrow> int \<Rightarrow> int option \<Rightarrow> nat \<Rightarrow> server \<times> answer" where
  "counter_reply s key flags til n = done_put (put s key flags til (str_nat n)) (be_bytes 8 n)"

definition count_item :: "(nat \<Rightarrow> nat) \<Rightarrow> string \<Rightarrow> nat \<Rightarrow> int \<Rightarrow> server \<Rightarrow> server \<times> answer" where
  "count_item change key init exp s = (case live s key of
     None \<Rightarrow> if exp = INCRDECR_SPECIAL then (s, not_found) else counter_reply s key 0 (until_time s exp) init
   | Some i \<Rightarrow> if i_value i \<noteq> [] \<and> list_all is_digit (i_value i)
             then counter_reply s key (i_flags i) (i_until i) (change (nat_of_digits (i_value i)))
             else (s, bad_delta))"

definition join_item :: "(string \<Rightarrow> string) \<Rightarrow> string \<Rightarrow> int \<Rightarrow> server \<Rightarrow> server \<times> answer" where
  "join_item change key cas s = (case live s key of
     None \<Rightarrow> (s, not_stored)
   | Some i \<Rightarrow> if version_ok cas i
             then done_put (put s key (i_flags i) (i_until i) (change (i_value i))) [] else (s, exists))"

definition flush_items :: "int \<Rightarrow> server \<Rightarrow> server \<times> answer" where
  "flush_items delay s =
     ((if delay = 0 then s\<lparr>items := Map.empty, bomb := None\<rparr> else s\<lparr>bomb := Some (clock s + 1000 * delay)\<rparr>),
      Some (0, [], [], 0))"

fun execute :: "command \<Rightarrow> string \<Rightarrow> string \<Rightarrow> string \<Rightarrow> int \<Rightarrow> server \<Rightarrow> server \<times> answer" where
  "execute CMD_GET key val extra cas s = (s, case live s key of None \<Rightarrow> not_found | Some i \<Rightarrow> get_reply i)"
| "execute CMD_GETQ key val extra cas s = (s, case live s key of None \<Rightarrow> None | Some i \<Rightarrow> get_reply i)"
| "execute CMD_SET key val extra cas s = (case unpack SET_PKT_FMT extra of
     Some [flags, exp] \<Rightarrow> set_item key val flags exp cas s | _ \<Rightarrow> (s, bad_request))"
| "execute CMD_ADD key val extra cas s = (case unpack SET_PKT_FMT extra of
     Some [flags, exp] \<Rightarrow> add_item key val flags exp s | _ \<Rightarrow> (s, bad_request))"
| "execute CMD_REPLACE key val extra cas s = (case unpack SET_PKT_FMT extra of
     Some [flags, exp] \<Rightarrow> replace_item key val flags exp cas s | _ \<Rightarrow> (s, bad_request))"
| "execute CMD_DELETE key val extra cas s = delete_item key cas s"
| "execute CMD_INCR key val extra cas s = (case unpack INCRDECR_PKT_FMT extra of
     Some [amt, init, exp] \<Rightarrow> count_item (\<lambda>n. (n + nat amt) mod 2 ^ 64) key (nat init) exp s | _ \<Rightarrow> (s, bad_request))"
| "execute CMD_DECR key val extra cas s = (case unpack INCRDECR_PKT_FMT extra of
     Some [amt, init, exp] \<Rightarrow> count_item (\<lambda>n. n - nat amt) key (nat init) exp s | _ \<Rightarrow> (s, bad_request))"
| "execute CMD_APPEND key val extra cas s = join_item (\<lambda>old. old @ val) key cas s"
| "execute CMD_PREPEND key val extra cas s = join_item (\<lambda>old. val @ old) key cas s"
| "execute CMD_FLUSH key val extra cas s = (case unpack FLUSH_PKT_FMT extra of
     Some [delay] \<Rightarrow> flush_items delay s | _ \<Rightarrow> (s, bad_request))"
| "execute CMD_NOOP key val extra cas s = (s, Some (0, [], [], 0))"
| "execute CMD_VERSION key val extra cas s = (s, Some (0, [], ''1.4.25'', 0))"
| "execute _ key val extra cas s = (s, failed 0x81 ''Unknown command'')"

text \<open>The commands whose effect this describes.\<close>

definition documented :: "command \<Rightarrow> bool" where
  "documented cmd \<longleftrightarrow> cmd \<in> set [CMD_GET, CMD_GETQ, CMD_SET, CMD_ADD, CMD_REPLACE, CMD_DELETE, CMD_INCR, CMD_DECR,
     CMD_APPEND, CMD_PREPEND, CMD_FLUSH, CMD_NOOP, CMD_VERSION]"

end
