(* ===== verification/MemcacheCommands.thy ===== *)
theory MemcacheCommands
  imports MemcacheModel
begin

text \<open>
  The client's commands against such a server, as claims on the server's state alone: \<open>does H m P s\<close> says that \<open>m\<close>,
  started when the server is in state \<open>s\<close> and nothing is left to receive, ends in an outcome and a state of the
  server that satisfy \<open>P\<close>, again with nothing left to receive.
\<close>

section \<open>A connection to a server\<close>

record 'w host =
  sock :: "'w socket"
  incoming :: "'w \<Rightarrow> string"
  serv :: "'w \<Rightarrow> server"
  sleep :: "int \<Rightarrow> 'w \<Rightarrow> 'w"

definition answer_bytes :: "command \<Rightarrow> int \<Rightarrow> answer \<Rightarrow> string" where
  "answer_bytes cmd opq a = (case a of
     None \<Rightarrow> []
   | Some (err, extra, body, cas) \<Rightarrow> case_option [] id (reply (opcode cmd) err opq extra [] body cas))"

text \<open>
  What the socket, the clock and the random numbers promise; the server takes no time for a request, and the
  draw is not the one that does not fit a request.
\<close>

definition executes :: "'w host \<Rightarrow> command \<Rightarrow> string \<Rightarrow> string \<Rightarrow> int \<Rightarrow> string \<Rightarrow> int \<Rightarrow> 'w \<Rightarrow> bool" where
  "executes H cmd key val opq extra cas w \<longleftrightarrow>
     (\<exists>n w'. sock_send (sock H) (request_bytes (opcode cmd) key val opq extra cas) w = (Inr n, w')
        \<and> serv H w' = fst (execute cmd key val extra cas (serv H w))
        \<and> incoming H w' = incoming H w @ answer_bytes cmd opq (snd (execute cmd key val extra cas (serv H w))))"

definition memcached :: "'w host \<Rightarrow> bool" where
  "memcached H \<longleftrightarrow> streams (sock H) (incoming H)
     \<and> (\<forall>n w. serv H (snd (sock_recv (sock H) n w)) = serv H w)
     \<and> (\<forall>h p w. incoming H (snd (sock_connect_ex (sock H) h p w)) = [] \<and> serv H (snd (sock_connect_ex (sock H) h p w)) = serv H w)
     \<and> (\<forall>w. incoming H (sock_close (sock H) w) = incoming H w \<and> serv H (sock_close (sock H) w) = serv H w)
     \<and> (\<forall>w. \<exists>r w'. rand_int (sock H) 0 (2 ^ 32) w = (r, w') \<and> 0 \<le> r \<and> r < 2 ^ 32
            \<and> incoming H w' = incoming H w \<and> serv H w' = serv H w)
     \<and> (\<forall>ms w. incoming H (sleep H ms w) = incoming H w \<and> serv H (sleep H ms w) = later ms (serv H w))
     \<and> (\<forall>cmd key val opq extra cas w. documented cmd \<and> request_ok (opcode cmd) key val opq extra cas \<longrightarrow> executes H cmd key val opq extra cas w)"

section \<open>Claims on the server's state\<close>

definition does :: "'w host \<Rightarrow> ('w, 'a) prog \<Rightarrow> ('a outcome \<Rightarrow> server \<Rightarrow> bool) \<Rightarrow> server \<Rightarrow> bool" where
  "does H m P s \<longleftrightarrow> (\<forall>w. serv H w = s \<and> incoming H w = [] \<longrightarrow>
     wp False m (\<lambda>r w'. incoming H w' = [] \<and> P r (serv H w')) w)"

lemma doesI:
  "(\<And>w. serv H w = s \<Longrightarrow> incoming H w = [] \<Longrightarrow> \<exists>r w'. m w = Some (r, w') \<and> incoming H w' = [] \<and> P r (serv H w'))
    \<Longrightarrow> does H m P s"
  by (fastforce simp: does_def wp_def)

lemma doesD:
  assumes "does H m P s" and "serv H w = s" and "incoming H w = []"
  obtains r w' where "m w = Some (r, w')" "incoming H w' = []" "P r (serv H w')"
proof -
  have "wp False m (\<lambda>r w'. incoming H w' = [] \<and> P r (serv H w')) w" using assms unfolding does_def by blast
  from wp_total [OF this] that show ?thesis by blast
qed

lemma does_mono: "does H m P s \<Longrightarrow> (\<And>r s'. P r s' \<Longrightarrow> Q r s') \<Longrightarrow> does H m Q s"
  unfolding does_def by (blast intro: wp_mono)

lemma does_ret: "P (Ret x) s \<Longrightarrow> does H (ret x) P s"
  by (simp add: does_def wp_simps)

lemma does_throw: "P (Raise e) s \<Longrightarrow> does H (throw e) P s"
  by (simp add: does_def wp_simps)

lemma does_bnd:
  assumes "does H m (at_seq (\<lambda>x. does H (k x) P) P) s"
  shows "does H (bnd m k) P s"
proof (rule doesI)
  fix w
  assume w: "serv H w = s" "incoming H w = []"
  obtain r w1 where m: "m w = Some (r, w1)" "incoming H w1 = []" "at_seq (\<lambda>x. does H (k x) P) P r (serv H w1)"
    by (rule doesD [OF assms w])
  show "\<exists>r w'. bnd m k w = Some (r, w') \<and> incoming H w' = [] \<and> P r (serv H w')"
  proof (cases r)
    case (Ret x)
    with m have "does H (k x) P (serv H w1)" by simp
    then obtain r2 w2 where "k x w1 = Some (r2, w2)" "incoming H w2 = []" "P r2 (serv H w2)"
      by (rule doesD [OF _ refl m(2)])
    with m(1) Ret show ?thesis by (simp add: bnd_def)
  qed (use m in \<open>simp_all add: bnd_def\<close>)
qed

text \<open>A command: the request is executed, and its answer is what the client returns or raises.\<close>

definition outcome_of :: "int \<Rightarrow> int \<times> string \<times> string \<times> int \<Rightarrow> (int \<times> int \<times> string) outcome" where
  "outcome_of opq a = (case a of (err, extra, body, cas) \<Rightarrow> answered opq err opq cas (extra @ body))"

definition fits :: "int \<times> string \<times> string \<times> int \<Rightarrow> bool" where
  "fits a = (case a of (err, extra, body, cas) \<Rightarrow> 0 \<le> err \<and> err < 2 ^ 16 \<and> length extra < 2 ^ 8
     \<and> length extra + length body < 2 ^ 32 \<and> 0 \<le> cas \<and> cas < 2 ^ 64)"

lemma does_doCmd:
  assumes H: "memcached H" and cmd: "documented cmd" and small: "request_ok (opcode cmd) key val 0 extra cas"
    and run: "execute cmd key val extra cas s = (s', Some a)" and fits: "fits a"
    and P: "\<And>opq. P (outcome_of opq a) s'"
  shows "does H (doCmd (sock H) cmd key val extra cas) P s"
proof (rule doesI)
  fix w
  assume w: "serv H w = s" "incoming H w = []"
  obtain opq w1 where draw: "rand_int (sock H) 0 (2 ^ 32) w = (opq, w1)" "0 \<le> opq" "opq < 2 ^ 32"
    "incoming H w1 = []" "serv H w1 = s"
    using H w unfolding memcached_def by metis
  have ok: "request_ok (opcode cmd) key val opq extra cas" using small draw(2,3) by (simp add: request_ok_def)
  then have "executes H cmd key val opq extra cas w1" using H cmd unfolding memcached_def by blast
  then obtain n w2 where sent: "sock_send (sock H) (request_bytes (opcode cmd) key val opq extra cas) w1 = (Inr n, w2)"
    "serv H w2 = s'" "incoming H w2 = answer_bytes cmd opq (Some a)"
    unfolding executes_def using draw run by auto
  obtain err ex body c where a: "a = (err, ex, body, c)" by (cases a)
  have "reply (opcode cmd) err opq ex [] body c \<noteq> None"
    unfolding reply_defined using small draw(2,3) fits by (simp add: fits_def a request_ok_def)
  then obtain b where b: "reply (opcode cmd) err opq ex [] body c = Some b" by blast
  have bytes: "incoming H w2 = b @ []" unfolding sent(3) answer_bytes_def a by (simp only: option.case prod.case b id_apply append_Nil2)
  have S: "streams (sock H) (incoming H)" and recv: "serv H (snd (sock_recv (sock H) n w)) = serv H w" for n w
    using H unfolding memcached_def by blast+
  obtain w' where w': "doCmd (sock H) cmd key val extra cas w = Some (answered opq err opq c (ex @ [] @ body), w')" "incoming H w' = []"
    using command_reply [OF S draw(1) ok sent(1) b bytes] by blast
  have "doCmd (sock H) cmd key val extra cas w = handleSingleResponse (sock H) (Some opq) w2"
    using draw(1) sent_request [OF ok sent(1)] by (simp add: doCmd_def call_def bnd_def)
  with w'(1) have "serv H w' = s'" using keepsD [OF keeps_single [OF recv]] sent(2) by metis
  with w' P [of opq] show "\<exists>r w'. doCmd (sock H) cmd key val extra cas w = Some (r, w') \<and> incoming H w' = [] \<and> P r (serv H w')"
    by (simp add: outcome_of_def a)
qed

section \<open>The commands\<close>

named_theorems does_intros

declare does_ret [does_intros] does_throw [does_intros] does_bnd [does_intros]

definition obeys :: "((int \<times> int \<times> string) outcome \<Rightarrow> server \<Rightarrow> bool) \<Rightarrow> server \<times> answer \<Rightarrow> bool" where
  "obeys P r = (case r of (s', None) \<Rightarrow> False | (s', Some a) \<Rightarrow> fits a \<and> (\<forall>opq. P (outcome_of opq a) s'))"

lemma does_command:
  assumes "memcached H" and "documented cmd" and "request_ok (opcode cmd) key val 0 extra cas" and "obeys P (execute cmd key val extra cas s)"
  shows "does H (doCmd (sock H) cmd key val extra cas) P s"
proof -
  obtain s' a where r: "execute cmd key val extra cas s = (s', a)" by (cases "execute cmd key val extra cas s")
  with assms(4) obtain x where "a = Some x" "fits x" "\<And>opq. P (outcome_of opq x) s'"
    by (auto simp: obeys_def split: option.splits)
  with does_doCmd [OF assms(1-3)] r show ?thesis by blast
qed

lemma does_fixed: "(\<And>w. m w = Some (r, w)) \<Longrightarrow> P r s \<Longrightarrow> does H m P s"
  by (rule doesI) auto

text \<open>Extra headers.\<close>

lemma does_packed:
  assumes "list_all2 in_range fs vs"
    and "\<And>b. length b = calcsize (Big fs) \<Longrightarrow> unpack fs b = Some vs \<Longrightarrow> does H (k b) P s"
  shows "does H (bnd (packed fs vs) k) P s"
proof -
  obtain b where b: "pack fs vs = Some b" using assms(1) pack_defined [of fs vs] by blast
  have len: "length b = calcsize (Big fs)" "unpack_fields fs b = vs" using pack_some [OF b, of "[]"] by simp_all
  then have "does H (k b) P s" by (intro assms(2)) (simp_all add: unpack_def)
  then show ?thesis by (intro does_bnd) (simp add: packed_def b does_ret)
qed

definition words32 :: "int list \<Rightarrow> bool" where
  "words32 vs = list_all (\<lambda>v. 0 \<le> v \<and> v < 2 ^ 32) vs"

definition message_ok :: "string \<Rightarrow> string \<Rightarrow> int \<Rightarrow> bool" where
  "message_ok key val cas \<longleftrightarrow> length key < 2 ^ 16 \<and> length key + length val < 2 ^ 32 - 20 \<and> 0 \<le> cas \<and> cas < 2 ^ 64"

lemma documented_opcode: "documented cmd \<Longrightarrow> 0 \<le> opcode cmd \<and> opcode cmd < 2 ^ 8"
  by (auto simp: documented_def)

lemma does_mutate:
  assumes "memcached H" and "words32 [flags, exp]" and "message_ok key val cas" and "documented cmd"
    and "\<And>b. unpack SET_PKT_FMT b = Some [flags, exp] \<Longrightarrow> obeys P (execute cmd key val b cas s)"
  shows "does H (mutate (sock H) cmd key exp flags cas val) P s"
  unfolding mutate_def
proof (rule does_packed)
  show "list_all2 in_range SET_PKT_FMT [flags, exp]"
    using assms(2) by (simp add: SET_PKT_FMT_def in_range_def words32_def)
next
  fix b
  assume b: "length b = calcsize (Big SET_PKT_FMT)" "unpack SET_PKT_FMT b = Some [flags, exp]"
  have "length b = 8" using b(1) by (simp add: SET_PKT_FMT_def)
  then have "request_ok (opcode cmd) key val 0 b cas"
    using assms(3,4) documented_opcode [of cmd] by (simp add: request_ok_def message_ok_def)
  then show "does H (doCmd (sock H) cmd key val b cas) P s"
    using assms(1,4,5) b(2) by (blast intro: does_command)
qed

lemma does_set [does_intros]:
  assumes "memcached H" and "words32 [flags, exp]" and "message_ok key val 0" and "obeys P (set_item key val flags exp 0 s)"
  shows "does H (mc_set (sock H) key exp flags val) P s"
  unfolding mc_set_def using assms by (intro does_mutate) (simp_all add: documented_def)

lemma does_add [does_intros]:
  assumes "memcached H" and "words32 [flags, exp]" and "message_ok key val 0" and "obeys P (add_item key val flags exp s)"
  shows "does H (mc_add (sock H) key exp flags val) P s"
  unfolding mc_add_def using assms by (intro does_mutate) (simp_all add: documented_def)

lemma does_replace [does_intros]:
  assumes "memcached H" and "words32 [flags, exp]" and "message_ok key val 0" and "obeys P (replace_item key val flags exp 0 s)"
  shows "does H (mc_replace (sock H) key exp flags val) P s"
  unfolding mc_replace_def using assms by (intro does_mutate) (simp_all add: documented_def)

lemma does_cas [does_intros]:
  assumes "memcached H" and "words32 [flags, exp]" and "message_ok key val cas"
    and "obeys (at_seq (\<lambda>_. P (Ret ())) P) (set_item key val flags exp cas s)"
  shows "does H (mc_cas (sock H) key exp flags cas val) P s"
  unfolding mc_cas_def using assms
  by (intro does_bnd does_mutate)
    (auto simp: documented_def obeys_def outcome_of_def answered_def does_ret split: option.splits prod.splits)

lemma does_delete [does_intros]:
  assumes "memcached H" and "message_ok key [] cas" and "obeys P (delete_item key cas s)"
  shows "does H (mc_delete (sock H) key cas) P s"
  unfolding mc_delete_def using assms by (intro does_command) (simp_all add: documented_def request_ok_def message_ok_def)

lemma does_append [does_intros]:
  assumes "memcached H" and "message_ok key val cas" and "obeys P (join_item (\<lambda>old. old @ val) key cas s)"
  shows "does H (mc_append (sock H) key val cas) P s"
  unfolding mc_append_def cat_def using assms by (intro does_command) (simp_all add: documented_def request_ok_def message_ok_def)

lemma does_prepend [does_intros]:
  assumes "memcached H" and "message_ok key val cas" and "obeys P (join_item (\<lambda>old. val @ old) key cas s)"
  shows "does H (mc_prepend (sock H) key val cas) P s"
  unfolding mc_prepend_def cat_def using assms by (intro does_command) (simp_all add: documented_def request_ok_def message_ok_def)

lemma does_noop [does_intros]:
  assumes "memcached H" and "\<And>opq. P (Ret (opq, 0, [])) s"
  shows "does H (mc_noop (sock H)) P s"
  unfolding mc_noop_def using assms
  by (intro does_command) (simp_all add: documented_def request_ok_def obeys_def fits_def outcome_of_def answered_def)

lemma does_version [does_intros]:
  assumes "memcached H" and "\<And>opq. P (Ret (opq, 0, ''1.4.25'')) s"
  shows "does H (mc_version (sock H)) P s"
  unfolding mc_version_def using assms
  by (intro does_command) (simp_all add: documented_def request_ok_def obeys_def fits_def outcome_of_def answered_def)

lemma does_flush [does_intros]:
  assumes "memcached H" and "words32 [delay]" and "obeys P (flush_items delay s)"
  shows "does H (mc_flush (sock H) delay) P s"
  unfolding mc_flush_def
proof (rule does_packed)
  show "list_all2 in_range FLUSH_PKT_FMT [delay]"
    using assms(2) by (simp add: FLUSH_PKT_FMT_def in_range_def words32_def)
next
  fix b
  assume "length b = calcsize (Big FLUSH_PKT_FMT)" "unpack FLUSH_PKT_FMT b = Some [delay]"
  with assms show "does H (doCmd (sock H) CMD_FLUSH [] [] b 0) P s"
    by (intro does_command) (simp_all add: documented_def request_ok_def FLUSH_PKT_FMT_def)
qed

text \<open>\<open>get\<close>: the item's flags, version and value.\<close>

definition item_ok :: "item \<Rightarrow> bool" where
  "item_ok i \<longleftrightarrow> words32 [i_flags i] \<and> 0 \<le> i_cas i \<and> i_cas i < 2 ^ 64 \<and> length (i_value i) < 2 ^ 32 - 4"

lemma does_get [does_intros]:
  assumes H: "memcached H" and key: "message_ok key [] 0"
    and P: "case live s key of None \<Rightarrow> P (Raise (MemcachedError 1 ''Not found'')) s
       | Some i \<Rightarrow> item_ok i \<and> P (Ret (i_flags i, i_cas i, i_value i)) s"
  shows "does H (mc_get (sock H) key) P s"
  unfolding mc_get_def
proof (intro does_bnd does_command)
  show "documented CMD_GET" by (simp add: documented_def)
  show "request_ok (opcode CMD_GET) key [] 0 [] 0" using key by (simp add: request_ok_def message_ok_def)
  show "obeys (at_seq (\<lambda>x. does H (parseGet x) P) P) (execute CMD_GET key [] [] 0 s)"
  proof (cases "live s key")
    case None
    with P show ?thesis by (simp add: obeys_def not_found_def failed_def fits_def outcome_of_def answered_def)
  next
    case (Some i)
    then have i: "item_ok i" "P (Ret (i_flags i, i_cas i, i_value i)) s" using P by simp_all
    have "pack GET_RES_FMT [i_flags i] \<noteq> None"
      unfolding pack_defined using i(1) by (simp add: GET_RES_FMT_def in_range_def item_ok_def words32_def)
    then obtain extra where extra: "pack GET_RES_FMT [i_flags i] = Some extra" by blast
    have len: "length extra = 4" using pack_some [OF extra, of "[]"] by (simp add: GET_RES_FMT_def)
    have "does H (parseGet (opq, i_cas i, extra @ i_value i)) P s" for opq
      by (rule does_fixed [OF parse_get [OF extra]]) (rule i(2))
    with Some i(1) len show ?thesis
      by (simp add: obeys_def get_reply_def extra fits_def outcome_of_def answered_def item_ok_def)
  qed
qed (fact H)

text \<open>\<open>incr\<close> and \<open>decr\<close>: the counter's new value as a number.\<close>

definition counted :: "(nat \<Rightarrow> nat) \<Rightarrow> string \<Rightarrow> nat \<Rightarrow> int \<Rightarrow> ((int \<times> int) outcome \<Rightarrow> server \<Rightarrow> bool) \<Rightarrow> server \<Rightarrow> bool" where
  "counted change key init exp P s \<longleftrightarrow> (case live s key of
     None \<Rightarrow> if exp = INCRDECR_SPECIAL then P (Raise (MemcachedError 1 ''Not found'')) s
             else P (Ret (int init, last_cas s + 1)) (put s key 0 (until_time s exp) (str_nat init))
   | Some i \<Rightarrow> i_value i \<noteq> [] \<and> list_all is_digit (i_value i) \<and> change (nat_of_digits (i_value i)) < 2 ^ 64
       \<and> P (Ret (int (change (nat_of_digits (i_value i))), last_cas s + 1))
            (put s key (i_flags i) (i_until i) (str_nat (change (nat_of_digits (i_value i))))))"

lemma does_counter_reply:
  assumes "n < 2 ^ 64" and "0 \<le> last_cas s" and "last_cas s + 1 < 2 ^ 64"
    and "P (Ret (int n, last_cas s + 1)) (put s key flags til (str_nat n))"
  shows "obeys (at_seq (\<lambda>x. does H (case x of (something, cas, val) \<Rightarrow> bnd (unpacked INCRDECR_RES_FMT val) (\<lambda>vs. ret (hd vs, cas))) P) P) (counter_reply s key flags til n)"
proof -
  have "unpack INCRDECR_RES_FMT (be_bytes 8 n) = Some [int n]"
    using assms(1) by (simp add: INCRDECR_RES_FMT_def unpack_def be_value_bytes)
  then have "does H (bnd (unpacked INCRDECR_RES_FMT (be_bytes 8 n)) (\<lambda>vs. ret (hd vs, last_cas s + 1))) P
      (put s key flags til (str_nat n))"
    using assms(4) by (intro does_bnd) (simp add: unpacked_def does_ret)
  then show ?thesis
    using assms(2,3) by (simp add: obeys_def counter_reply_def done_put_def put_def fits_def outcome_of_def answered_def)
qed

lemma does_incrdecr:
  assumes H: "memcached H" and small: "message_ok key [] 0" "0 \<le> amt" "amt < 2 ^ 64" "0 \<le> init" "init < 2 ^ 64" "words32 [exp]"
    and cas: "0 \<le> last_cas s" "last_cas s + 1 < 2 ^ 64" and cmd: "documented cmd"
    and run: "\<And>b. unpack INCRDECR_PKT_FMT b = Some [amt, init, exp] \<Longrightarrow>
      execute cmd key [] b 0 s = count_item change key (nat init) exp s"
    and P: "counted change key (nat init) exp P s"
  shows "does H (incrdecr (sock H) cmd key amt init exp) P s"
  unfolding incrdecr_def
proof (rule does_packed)
  show "list_all2 in_range INCRDECR_PKT_FMT [amt, init, exp]"
    using small by (simp add: INCRDECR_PKT_FMT_def in_range_def words32_def)
next
  fix b
  assume b: "length b = calcsize (Big INCRDECR_PKT_FMT)" "unpack INCRDECR_PKT_FMT b = Some [amt, init, exp]"
  let ?K = "at_seq (\<lambda>x. does H (case x of (something, cas, val) \<Rightarrow> bnd (unpacked INCRDECR_RES_FMT val) (\<lambda>vs. ret (hd vs, cas))) P) P"
  have init: "nat init < 2 ^ 64" "int (nat init) = init" using small(4,5) by (simp_all add: nat_less_iff)
  have "obeys ?K (count_item change key (nat init) exp s)"
  proof (cases "live s key")
    case None
    then show ?thesis
      using P init cas unfolding count_item_def counted_def
      by (cases "exp = INCRDECR_SPECIAL")
        (simp_all add: does_counter_reply, simp add: obeys_def not_found_def failed_def fits_def outcome_of_def answered_def)
  next
    case (Some i)
    then show ?thesis using P cas unfolding count_item_def counted_def by (simp add: does_counter_reply)
  qed
  then show "does H (bnd (doCmd (sock H) cmd key [] b 0) (\<lambda>(something, cas, val).
      bnd (unpacked INCRDECR_RES_FMT val) (\<lambda>vs. ret (hd vs, cas)))) P s"
    using H small(1) cmd documented_opcode [OF cmd] b run
    by (intro does_bnd does_command)
      (simp_all add: request_ok_def message_ok_def INCRDECR_PKT_FMT_def)
qed

lemma does_incr [does_intros]:
  assumes "memcached H" and "message_ok key [] 0" and "0 \<le> amt \<and> amt < 2 ^ 64 \<and> 0 \<le> init \<and> init < 2 ^ 64 \<and> words32 [exp]"
    and "0 \<le> last_cas s \<and> last_cas s + 1 < 2 ^ 64" and "counted (\<lambda>n. (n + nat amt) mod 2 ^ 64) key (nat init) exp P s"
  shows "does H (mc_incr (sock H) key amt init exp) P s"
  unfolding mc_incr_def using assms by (intro does_incrdecr) (simp_all add: documented_def)

lemma does_decr [does_intros]:
  assumes "memcached H" and "message_ok key [] 0" and "0 \<le> amt \<and> amt < 2 ^ 64 \<and> 0 \<le> init \<and> init < 2 ^ 64 \<and> words32 [exp]"
    and "0 \<le> last_cas s \<and> last_cas s + 1 < 2 ^ 64" and "counted (\<lambda>n. n - nat amt) key (nat init) exp P s"
  shows "does H (mc_decr (sock H) key amt init exp) P s"
  unfolding mc_decr_def using assms by (intro does_incrdecr) (simp_all add: documented_def)

text \<open>\<open>getMulti\<close> sees the live items.\<close>

definition visible :: "server \<Rightarrow> store" where
  "visible s key = map_option (\<lambda>i. (i_flags i, i_cas i, i_value i)) (live s key)"

lemma memcached_serves:
  assumes "memcached H"
  shows "serves (sock H) (incoming H) (serv H) visible"
  unfolding serves_def
proof (intro conjI allI impI)
  show "streams (sock H) (incoming H)" using assms unfolding memcached_def by blast
next
  fix n w
  show "serv H (snd (sock_recv (sock H) n w)) = serv H w" using assms unfolding memcached_def by blast
next
  fix key opq w
  assume "request_ok (opcode CMD_GETQ) key [] opq [] 0"
  then have ex: "executes H CMD_GETQ key [] opq [] 0 w" using assms unfolding memcached_def documented_def by auto
  have "answer_bytes CMD_GETQ opq (snd (execute CMD_GETQ key [] [] 0 (serv H w))) = get_answer (visible (serv H w)) opq key"
    by (auto simp: answer_bytes_def get_answer_def visible_def get_reply_def split: option.splits)
  with ex show "answers (sock H) (incoming H) (serv H) (request_bytes (opcode CMD_GETQ) key [] opq [] 0)
      (get_answer (visible (serv H w)) opq key) w"
    unfolding executes_def answers_def by auto
next
  fix opq w
  assume "request_ok (opcode CMD_NOOP) [] [] opq [] 0"
  then have ex: "executes H CMD_NOOP [] [] opq [] 0 w" using assms unfolding memcached_def documented_def by auto
  have "answer_bytes CMD_NOOP opq (snd (execute CMD_NOOP [] [] [] 0 (serv H w))) = noop_answer opq"
    by (simp add: answer_bytes_def noop_answer_def)
  with ex show "answers (sock H) (incoming H) (serv H) (request_bytes (opcode CMD_NOOP) [] [] opq [] 0) (noop_answer opq) w"
    unfolding executes_def answers_def by auto
qed

lemma does_getMulti [does_intros]:
  assumes "memcached H" and "askable (visible s) keys" and "P (Ret (visible s |` set keys)) s"
  shows "does H (getMulti (sock H) keys) P s"
proof (rule doesI)
  fix w
  assume w: "serv H w = s" "incoming H w = []"
  with get_multi_run [OF memcached_serves [OF assms(1)], of w keys] assms(2,3)
  show "\<exists>r w'. getMulti (sock H) keys w = Some (r, w') \<and> incoming H w' = [] \<and> P r (serv H w')" by auto
qed

end
