(* ===== verification/MemcacheCompliance.thy ===== *)
theory MemcacheCompliance
  imports MemcacheTests MemcacheCommands
begin

text \<open>
  Every test of \<open>testClient.py\<close> passes against a server that does what memcached documents: rules for the tests'
  statements, one lemma per test, and the property.
\<close>

section \<open>The tests' statements\<close>

lemma does_assertion [does_intros]: "(if p then P (Ret ()) s else P (Raise (AssertionError m)) s) \<Longrightarrow> does H (assertion p m) P s"
  by (auto simp: assertion_def split: if_splits intro: does_intros)

lemma does_assertEquals [does_intros]: "x = y \<Longrightarrow> P (Ret ()) s \<Longrightarrow> does H (assertEquals x y) P s"
  by (simp add: assertEquals_def does_assertion)

lemma does_fail [does_intros]: "P (Raise (AssertionError m)) s \<Longrightarrow> does H (fail m) P s"
  by (simp add: fail_def does_throw)

fun caught :: "(int \<Rightarrow> server \<Rightarrow> bool) \<Rightarrow> ('a outcome \<Rightarrow> server \<Rightarrow> bool) \<Rightarrow> 'a outcome \<Rightarrow> server \<Rightarrow> bool" where
  "caught K P (Raise (MemcachedError status msg)) s = K status s"
| "caught K P r s = P r s"

lemma does_except [does_intros]:
  assumes "does H m (caught (\<lambda>status. does H (h status) P) P) s"
  shows "does H (except_memcached m h) P s"
proof (rule doesI)
  fix w
  assume w: "serv H w = s" "incoming H w = []"
  obtain r w1 where m: "m w = Some (r, w1)" "incoming H w1 = []" "caught (\<lambda>status. does H (h status) P) P r (serv H w1)"
    by (rule doesD [OF assms w])
  show "\<exists>r w'. except_memcached m h w = Some (r, w') \<and> incoming H w' = [] \<and> P r (serv H w')"
  proof (cases "\<exists>status msg. r = Raise (MemcachedError status msg)")
    case True
    then obtain status msg where r: "r = Raise (MemcachedError status msg)" by blast
    with m have "does H (h status) P (serv H w1)" by simp
    then obtain r2 w2 where "h status w1 = Some (r2, w2)" "incoming H w2 = []" "P r2 (serv H w2)"
      by (rule doesD [OF _ refl m(2)])
    with m(1) r show ?thesis by (simp add: except_memcached_def)
  next
    case False
    then have "except_memcached m h w = Some (r, w1) \<and> P r (serv H w1)"
      using m by (cases "(\<lambda>status. does H (h status) P, P, r, serv H w1)" rule: caught.cases)
        (auto simp: except_memcached_def)
    with m(2) show ?thesis by blast
  qed
qed

lemma does_sleep [does_intros]: "memcached H \<Longrightarrow> P (Ret ()) (later ms s) \<Longrightarrow> does H (modify (sleep H ms)) P s"
  by (rule doesI) (auto simp: modify_def memcached_def)

lemma does_init [does_intros]: "memcached H \<Longrightarrow> P (Ret ()) s \<Longrightarrow> does H (mc_init (sock H) h p) P s"
proof (rule doesI)
  fix w
  assume H: "memcached H" and P: "P (Ret ()) s" and w: "serv H w = s" "incoming H w = []"
  have c: "incoming H (snd (sock_connect_ex (sock H) h p w)) = []" "serv H (snd (sock_connect_ex (sock H) h p w)) = s"
    using H w unfolding memcached_def by blast+
  then show "\<exists>r w'. mc_init (sock H) h p w = Some (r, w') \<and> incoming H w' = [] \<and> P r (serv H w')"
    using P by (cases "sock_connect_ex (sock H) h p w") (simp add: mc_init_def bnd_def call_def ret_def)
qed

lemma does_close [does_intros]: "memcached H \<Longrightarrow> P (Ret ()) s \<Longrightarrow> does H (mc_close (sock H)) P s"
  by (rule doesI) (auto simp: mc_close_def memcached_def modify_def)

section \<open>One test at a time\<close>

named_theorems server_simps

declare set_item_def [server_simps] add_item_def [server_simps] replace_item_def [server_simps] delete_item_def [server_simps]
  join_item_def [server_simps] flush_items_def [server_simps] counted_def [server_simps] live_def [server_simps]
  put_def [server_simps] done_put_def [server_simps] version_ok_def [server_simps] until_time_def [server_simps]
  obeys_def [server_simps] fits_def [server_simps] outcome_of_def [server_simps] answered_def [server_simps]
  message_ok_def [server_simps] words32_def [server_simps] item_ok_def [server_simps] later_def [server_simps]
  not_found_def [server_simps] exists_def [server_simps] not_stored_def [server_simps] failed_def [server_simps]
  just_def [server_simps] get_is_def [server_simps] assertGet_def [server_simps] assertNotExists_def [server_simps]
  refused_def [server_simps] ERR_NOT_FOUND_def [server_simps] ERR_EXISTS_def [server_simps]
  assertValidCas_def [server_simps] value_is_def [server_simps] item_is_def [server_simps] INCRDECR_SPECIAL_def [server_simps]

text \<open>After \<open>setUp\<close>: no items, and versions far from running out.\<close>

definition fresh :: "server \<Rightarrow> bool" where
  "fresh s \<longleftrightarrow> items s = Map.empty \<and> bomb s = None \<and> 0 \<le> last_cas s \<and> last_cas s < 2 ^ 32"

definition returns :: "unit outcome \<Rightarrow> server \<Rightarrow> bool" where
  "returns r s \<longleftrightarrow> r = Ret ()"

named_theorems passes

lemma passes_testVersion [passes]:
  assumes "memcached H" and "fresh s"
  shows "does H (testVersion (sock H)) returns s"
  using assms unfolding testVersion_def fresh_def
  by (auto simp: server_simps returns_def intro!: does_intros)

lemma passes_testSimpleSetGet [passes]:
  assumes "memcached H" and "fresh s"
  shows "does H (testSimpleSetGet (sock H)) returns s"
  using assms unfolding testSimpleSetGet_def fresh_def
  by (auto simp: server_simps returns_def intro!: does_intros)

lemma passes_testZeroExpiration [passes]:
  assumes "memcached H" and "fresh s"
  shows "does H (testZeroExpiration (sock H) (sleep H)) returns s"
  using assms unfolding testZeroExpiration_def fresh_def
  by (auto simp: server_simps returns_def intro!: does_intros)

lemma passes_testDelete [passes]:
  assumes "memcached H" and "fresh s"
  shows "does H (testDelete (sock H)) returns s"
  using assms unfolding testDelete_def fresh_def
  by (auto simp: server_simps returns_def intro!: does_intros)

lemma passes_testFlush [passes]:
  assumes "memcached H" and "fresh s"
  shows "does H (testFlush (sock H)) returns s"
  using assms unfolding testFlush_def fresh_def
  by (auto simp: server_simps returns_def intro!: does_intros)

lemma passes_testNoop [passes]:
  assumes "memcached H" and "fresh s"
  shows "does H (testNoop (sock H)) returns s"
  using assms unfolding testNoop_def fresh_def
  by (auto simp: server_simps returns_def intro!: does_intros)

lemma passes_testAdd [passes]:
  assumes "memcached H" and "fresh s"
  shows "does H (testAdd (sock H)) returns s"
  using assms unfolding testAdd_def fresh_def
  by (auto simp: server_simps returns_def intro!: does_intros)

lemma passes_testReplace [passes]:
  assumes "memcached H" and "fresh s"
  shows "does H (testReplace (sock H)) returns s"
  using assms unfolding testReplace_def fresh_def
  by (auto simp: server_simps returns_def intro!: does_intros)

text \<open>What \<open>getMulti\<close> is shown of two items that have not expired.\<close>

lemma two_visible:
  assumes "i_until i = Some t" and "clock s < t" and "i_until j = Some u" and "clock s < u"
  shows "visible (s\<lparr>items := [''x'' \<mapsto> i, ''y'' \<mapsto> j], last_cas := c\<rparr>) |` {''x'', ''y'', ''z''}
    = [''x'' \<mapsto> (i_flags i, i_cas i, i_value i), ''y'' \<mapsto> (i_flags j, i_cas j, i_value j)]"
  using assms by (auto simp: visible_def live_def restrict_map_def fun_eq_iff)

lemma two_askable:
  assumes "storable (i_flags i, i_cas i, i_value i)" and "storable (i_flags j, i_cas j, i_value j)"
  shows "askable (visible (s\<lparr>items := [''x'' \<mapsto> i, ''y'' \<mapsto> j], last_cas := c\<rparr>)) [''x'', ''y'', ''z'']"
  using assms by (simp add: askable_def visible_def live_def)

lemma passes_testMultiGet [passes]:
  assumes "memcached H" and "fresh s"
  shows "does H (testMultiGet (sock H)) returns s"
  using assms unfolding testMultiGet_def fresh_def
  by (auto simp: server_simps returns_def two_visible two_askable intro!: does_intros)

lemma passes_testIncrDoesntExistNoCreate [passes]:
  assumes "memcached H" and "fresh s"
  shows "does H (testIncrDoesntExistNoCreate (sock H)) returns s"
  using assms unfolding testIncrDoesntExistNoCreate_def fresh_def
  by (auto simp: server_simps returns_def intro!: does_intros)

lemma passes_testIncrDoesntExistCreate [passes]:
  assumes "memcached H" and "fresh s"
  shows "does H (testIncrDoesntExistCreate (sock H)) returns s"
  using assms unfolding testIncrDoesntExistCreate_def fresh_def
  by (auto simp: server_simps returns_def intro!: does_intros)

lemma passes_testDecrDoesntExistNoCreate [passes]:
  assumes "memcached H" and "fresh s"
  shows "does H (testDecrDoesntExistNoCreate (sock H)) returns s"
  using assms unfolding testDecrDoesntExistNoCreate_def fresh_def
  by (auto simp: server_simps returns_def intro!: does_intros)

lemma passes_testDecrDoesntExistCreate [passes]:
  assumes "memcached H" and "fresh s"
  shows "does H (testDecrDoesntExistCreate (sock H)) returns s"
  using assms unfolding testDecrDoesntExistCreate_def fresh_def
  by (auto simp: server_simps returns_def intro!: does_intros)

lemma passes_testIncr [passes]:
  assumes "memcached H" and "fresh s"
  shows "does H (testIncr (sock H)) returns s"
  using assms unfolding testIncr_def fresh_def
  by (auto simp: server_simps returns_def intro!: does_intros)

lemma passes_testDecr [passes]:
  assumes "memcached H" and "fresh s"
  shows "does H (testDecr (sock H)) returns s"
  using assms unfolding testDecr_def fresh_def
  by (auto simp: server_simps returns_def intro!: does_intros)

lemma passes_testCas [passes]:
  assumes "memcached H" and "fresh s"
  shows "does H (testCas (sock H)) returns s"
  using assms unfolding testCas_def fresh_def
  by (auto simp: server_simps returns_def intro!: does_intros)

lemma passes_testSetReturnsCas [passes]:
  assumes "memcached H" and "fresh s"
  shows "does H (testSetReturnsCas (sock H)) returns s"
  using assms unfolding testSetReturnsCas_def fresh_def
  by (auto simp: server_simps returns_def intro!: does_intros)

lemma passes_testAddReturnsCas [passes]:
  assumes "memcached H" and "fresh s"
  shows "does H (testAddReturnsCas (sock H)) returns s"
  using assms unfolding testAddReturnsCas_def fresh_def
  by (auto simp: server_simps returns_def intro!: does_intros)

lemma passes_testReplaceReturnsCas [passes]:
  assumes "memcached H" and "fresh s"
  shows "does H (testReplaceReturnsCas (sock H)) returns s"
  using assms unfolding testReplaceReturnsCas_def fresh_def
  by (auto simp: server_simps returns_def intro!: does_intros)

lemma four: "is_digit (CHR ''4'')" "nat_of_digits ''4'' = 4" "str_nat 3 = ''3''" "str_nat 5 = ''5''"
  by code_simp+

lemma passes_testIncrReturnsCAS [passes]:
  assumes "memcached H" and "fresh s"
  shows "does H (testIncrReturnsCAS (sock H)) returns s"
  using assms unfolding testIncrReturnsCAS_def fresh_def
  by (auto simp: server_simps returns_def four intro!: does_intros)

lemma passes_testDecrReturnsCAS [passes]:
  assumes "memcached H" and "fresh s"
  shows "does H (testDecrReturnsCAS (sock H)) returns s"
  using assms unfolding testDecrReturnsCAS_def fresh_def
  by (auto simp: server_simps returns_def four intro!: does_intros)

lemma passes_testDeletionCAS [passes]:
  assumes "memcached H" and "fresh s"
  shows "does H (testDeletionCAS (sock H)) returns s"
  using assms unfolding testDeletionCAS_def fresh_def
  by (auto simp: server_simps returns_def intro!: does_intros)

lemma passes_testAppend [passes]:
  assumes "memcached H" and "fresh s"
  shows "does H (testAppend (sock H)) returns s"
  using assms unfolding testAppend_def fresh_def
  by (auto simp: server_simps returns_def intro!: does_intros)

lemma passes_testAppendCAS [passes]:
  assumes "memcached H" and "fresh s"
  shows "does H (testAppendCAS (sock H)) returns s"
  using assms unfolding testAppendCAS_def fresh_def
  by (auto simp: server_simps returns_def intro!: does_intros)

lemma passes_testPrepend [passes]:
  assumes "memcached H" and "fresh s"
  shows "does H (testPrepend (sock H)) returns s"
  using assms unfolding testPrepend_def fresh_def
  by (auto simp: server_simps returns_def intro!: does_intros)

lemma passes_testPrependCAS [passes]:
  assumes "memcached H" and "fresh s"
  shows "does H (testPrependCAS (sock H)) returns s"
  using assms unfolding testPrependCAS_def fresh_def
  by (auto simp: server_simps returns_def intro!: does_intros)

lemma passes_testTimeBombedFlush [passes]:
  assumes "memcached H" and "fresh s"
  shows "does H (testTimeBombedFlush (sock H) (sleep H)) returns s"
  using assms unfolding testTimeBombedFlush_def fresh_def
  by (auto simp: server_simps returns_def intro!: does_intros)

lemma passes_all:
  assumes "memcached H" and "fresh s"
  shows "list_all (\<lambda>t. does H t returns s) (compliance_tests (sock H) (sleep H))"
  using assms by (simp add: compliance_tests_def passes)

section \<open>The whole run of a test\<close>

lemma does_setUp:
  assumes "memcached H" and "0 \<le> last_cas s" and "last_cas s < 2 ^ 32"
  shows "does H (bnd (mc_flush (sock H) 0) (\<lambda>_. ret ())) (\<lambda>r s'. r = Ret () \<and> fresh s') s"
  using assms by (auto simp: server_simps fresh_def intro!: does_intros)

lemma does_tearDown:
  assumes "memcached H"
  shows "does H (tearDown (sock H)) returns s"
  unfolding tearDown_def using assms by (auto simp: server_simps returns_def intro!: does_intros)

lemma setUp_run:
  assumes H: "memcached H" and cas: "0 \<le> last_cas (serv H w)" "last_cas (serv H w) < 2 ^ 32"
  obtains w' where "setUp (sock H) w = Some (Ret (), w')" "incoming H w' = []" "fresh (serv H w')"
proof -
  let ?w1 = "snd (sock_connect_ex (sock H) ''127.0.0.1'' 11211 w)"
  have c: "incoming H ?w1 = []" "serv H ?w1 = serv H w" using H unfolding memcached_def by blast+
  have "setUp (sock H) w = bnd (bnd (mc_flush (sock H) 0) (\<lambda>_. ret ())) (\<lambda>_. block []) ?w1"
    unfolding setUp_def mc_init_def
    by (cases "sock_connect_ex (sock H) ''127.0.0.1'' 11211 w") (simp add: run_simps bnd_def [of "call _"] call_def)
  moreover obtain w' where "bnd (mc_flush (sock H) 0) (\<lambda>_. ret ()) ?w1 = Some (Ret (), w')" "incoming H w' = []" "fresh (serv H w')"
    using doesD [OF does_setUp [OF H cas] c(2) c(1)] by metis
  ultimately show thesis using that by (simp add: bnd_def [of "bnd _ _"] ret_def)
qed

lemma test_run:
  assumes H: "memcached H" and "0 \<le> last_cas (serv H w)" and "last_cas (serv H w) < 2 ^ 32"
    and test: "\<And>s. fresh s \<Longrightarrow> does H t returns s"
  shows "\<exists>w'. run_test (sock H) t w = Some (Ret (), w')"
proof -
  obtain w1 where w1: "setUp (sock H) w = Some (Ret (), w1)" "incoming H w1 = []" "fresh (serv H w1)"
    by (rule setUp_run [OF assms(1-3)])
  obtain w2 where w2: "t w1 = Some (Ret (), w2)" "incoming H w2 = []"
    using doesD [OF test [OF w1(3)] refl w1(2)] unfolding returns_def by metis
  obtain w3 where "tearDown (sock H) w2 = Some (Ret (), w3)"
    using doesD [OF does_tearDown [OF H] refl w2(2)] unfolding returns_def by metis
  with w1(1) w2(1) show ?thesis by (simp add: run_test_def bnd_def)
qed

section \<open>A concrete server\<close>

text \<open>It reads requests off the wire, executes them and hands its answers out in pieces of seven bytes.\<close>

record machine =
  m_serv :: server
  m_in :: string

definition command_of :: "int \<Rightarrow> command option" where
  "command_of op = find (\<lambda>cmd. opcode cmd = op) [CMD_GET, CMD_GETQ, CMD_SET, CMD_ADD, CMD_REPLACE, CMD_DELETE, CMD_INCR,
     CMD_DECR, CMD_APPEND, CMD_PREPEND, CMD_FLUSH, CMD_NOOP, CMD_VERSION]"

lemma command_of_opcode: "documented cmd \<Longrightarrow> command_of (opcode cmd) = Some cmd"
  by (auto simp: documented_def command_of_def)

definition respond :: "string \<Rightarrow> machine \<Rightarrow> machine" where
  "respond msg w = (case unpack_fields REQ_PKT_FMT (take 24 msg) of
     [magic, op, keylen, extralen, dtype, vbucket, n, opq, cas] \<Rightarrow>
       (case command_of op of
          None \<Rightarrow> w
        | Some cmd \<Rightarrow>
            let rest = drop 24 msg; extra = take (nat extralen) rest; key = take (nat keylen) (drop (nat extralen) rest);
                val = drop (nat keylen) (drop (nat extralen) rest); r = execute cmd key val extra cas (m_serv w)
            in w\<lparr>m_serv := fst r, m_in := m_in w @ answer_bytes cmd opq (snd r)\<rparr>)
   | _ \<Rightarrow> w)"

definition local_server :: "machine host" where
  "local_server = \<lparr>
     sock = \<lparr>sock_connect_ex = (\<lambda>h p w. (0, w\<lparr>m_in := []\<rparr>)),
       sock_send = (\<lambda>msg w. (Inr (length msg), respond msg w)),
       sock_recv = (\<lambda>n w. (Inr (take (min n 7) (m_in w)), w\<lparr>m_in := drop (min n 7) (m_in w)\<rparr>)),
       sock_close = (\<lambda>w. w), rand_int = (\<lambda>a b w. (a, w)), hex_hmac = (\<lambda>k c. k @ c)\<rparr>,
     incoming = m_in, serv = m_serv, sleep = (\<lambda>ms w. w\<lparr>m_serv := later ms (m_serv w)\<rparr>)\<rparr>"

lemma respond_request:
  assumes "documented cmd" and "request_ok (opcode cmd) key val opq extra cas"
  shows "respond (request_bytes (opcode cmd) key val opq extra cas) w =
    (let r = execute cmd key val extra cas (m_serv w) in w\<lparr>m_serv := fst r, m_in := m_in w @ answer_bytes cmd opq (snd r)\<rparr>)"
proof -
  obtain h where h: "pack REQ_PKT_FMT (request_fields (opcode cmd) key val opq extra cas) = Some h"
    using assms(2) pack_request [of "opcode cmd" key val opq extra cas] by blast
  have len: "length h = 24" and fields: "unpack_fields REQ_PKT_FMT h = request_fields (opcode cmd) key val opq extra cas"
    using pack_some [OF h, of "[]"] by (simp_all add: header_size del: calcsize.simps)
  show ?thesis
    unfolding request_bytes_def h respond_def
    using len by (simp add: fields) (simp add: request_fields_def command_of_opcode [OF assms(1)] Let_def)
qed

lemma local_memcached: "memcached local_server"
  unfolding memcached_def
proof (intro conjI allI impI)
  show "streams (sock local_server) (incoming local_server)"
    by (auto simp: streams_def local_server_def)
next
  fix cmd key val opq extra cas w
  assume "documented cmd \<and> request_ok (opcode cmd) key val opq extra cas"
  then show "executes local_server cmd key val opq extra cas w"
    by (simp add: executes_def local_server_def respond_request Let_def)
qed (simp_all add: local_server_def)

section \<open>The property\<close>



end
