(* ===== verification/SanityCheck.thy ===== *)
theory SanityCheck
  imports Debugger
begin

text \<open>
  The three scripts of \<open>scripts/conbreak/llvm-sanity-check\<close> that try what the trigger scripts rely on: \<open>trig1.py\<close> suspends
  writers until the twentieth read, \<open>trig2.py\<close> keeps a list of suspended threads, \<open>multi.py\<close> suspends under a lock and
  resumes from a timer. The state is a script's output, globals and the debugger's world.
\<close>

section \<open>Statements\<close>

record 'w script =
  stdout :: "string list"
  debuggee :: 'w

definition say :: "string \<Rightarrow> (('w, 'm) script_scheme, unit) prog" where
  "say msg = modify (\<lambda>s. s\<lparr>stdout := stdout s @ [msg]\<rparr>)"

definition api :: "('w \<Rightarrow> 'a \<times> 'w) \<Rightarrow> (('w, 'm) script_scheme, 'a) prog" where
  "api f = call (\<lambda>s. case f (debuggee s) of (x, w) \<Rightarrow> (x, s\<lparr>debuggee := w\<rparr>))"

definition tell :: "('w \<Rightarrow> 'w) \<Rightarrow> (('w, 'm) script_scheme, unit) prog" where
  "tell f = modify (\<lambda>s. s\<lparr>debuggee := f (debuggee s)\<rparr>)"

definition query :: "('w \<Rightarrow> 'a) \<Rightarrow> (('w, 'm) script_scheme, 'a) prog" where
  "query f = get (\<lambda>s. f (debuggee s))"

definition unused :: "('s, 'a) prog \<Rightarrow> ('s, unit) prog" where
  "unused m = bnd m (\<lambda>_. ret ())"

text \<open>\<open>for t in process\<close>.\<close>

definition for_threads :: "('w, 't, 'f, 'a) lldb_api_scheme \<Rightarrow> ('t \<Rightarrow> (('w, 'm) script_scheme, unit) prog) \<Rightarrow> (('w, 'm) script_scheme, unit) prog" where
  "for_threads A body = bnd (query (ProcessThreads A)) (\<lambda>ts. for_each ts body)"

text \<open>A breakpoint by function name, which only these scripts use.\<close>

record ('w, 't, 'f) named_api = "('w, 't, 'f) lldb_api" +
  BreakpointCreateByName :: "string \<Rightarrow> 'w \<Rightarrow> nat \<times> 'w"

section \<open>\<open>trig1.py\<close>\<close>

record 'w trig1 = "'w script" +
  counter :: nat

definition trig1_set_trigger :: "('w, 't, 'f) named_api \<Rightarrow> ('w trig1, unit) prog" where
  "trig1_set_trigger A = block [
     say ''Setting breakpoints in mod_mem_cache.c at lines 354 and 653...'',
     bnd (api (BreakpointCreateByLocation A ''test.c'' 12)) (\<lambda>bp_read.
     bnd (api (BreakpointCreateByName A ''set_status'')) (\<lambda>bp_write. block [
       tell (SetScriptCallbackFunction A bp_read ''trig1.read_callback''),
       tell (SetScriptCallbackFunction A bp_write ''trig1.write_callback'')])),
     say ''Configuration done!'']"

definition trig1_f :: "('w, 't, 'f, 'm) lldb_api_scheme \<Rightarrow> ('w trig1, unit) prog" where
  "trig1_f A = block [
     say ''RESUMING ALL THREADS'',
     for_threads A (\<lambda>t. unused (api (Resume A t))),
     unused (api (Continue A))]"

definition trig1_read_callback :: "('w, 't, 'f, 'm) lldb_api_scheme \<Rightarrow> 'f \<Rightarrow> ('w trig1, unit) prog" where
  "trig1_read_callback A frame = (let thread = GetThread A frame in block [
     modify (\<lambda>s. s\<lparr>counter := counter s + 1\<rparr>),
     bnd (get counter) (\<lambda>n. whenever (n = 20)
       (for_threads A (\<lambda>t. unused (api (Resume A t))))),
     unused (api (Resume A thread)),
     unused (api (Continue A))])"

definition trig1_write_callback :: "('w, 't, 'f, 'm) lldb_api_scheme \<Rightarrow> 'f \<Rightarrow> ('w trig1, unit) prog" where
  "trig1_write_callback A frame = (let thread = GetThread A frame in block [
     say ''>>>>>>>>>> SUSPENDING WRITE THREAD'',
     unused (api (Suspend A thread)),
     unused (api (Continue A))])"

definition trig1_load :: "('w, 't, 'f) named_api \<Rightarrow> ('w trig1, unit) prog" where
  "trig1_load A = block [
     say ''Setting trigger...'', trig1_set_trigger A, say ''Starting server...'', tell (HandleCommand A ''run'')]"

section \<open>\<open>trig2.py\<close>\<close>

record 'w trig2 = "'w script" +
  THREAD_ARR :: "nat list"

definition trig2_set_trigger :: "('w, 't, 'f) named_api \<Rightarrow> ('w trig2, unit) prog" where
  "trig2_set_trigger A = block [
     say ''Setting breakpoints in mod_mem_cache.c at lines 354 and 653...'',
     bnd (api (BreakpointCreateByLocation A ''test.c'' 12)) (\<lambda>bp_read.
     bnd (api (BreakpointCreateByName A ''set_status'')) (\<lambda>bp_write. block [
       tell (SetScriptCallbackFunction A bp_read ''trig2.read_callback''),
       tell (SetScriptCallbackFunction A bp_write ''trig2.write_callback'')])),
     say ''Configuration done!'']"

definition trig2_read_callback :: "('w, 't, 'f, 'm) lldb_api_scheme \<Rightarrow> 'f \<Rightarrow> ('w trig2, unit) prog" where
  "trig2_read_callback A frame = (let thread = GetThread A frame in block [
     unused (api (Resume A thread)),
     unused (api (Continue A))])"

definition suspending_msg :: "nat \<Rightarrow> string" where
  "suspending_msg n = ''Suspening '' @ str_nat n @ ''...''"

definition trig2_write_callback :: "('w, 't, 'f, 'm) lldb_api_scheme \<Rightarrow> 'f \<Rightarrow> ('w trig2, unit) prog" where
  "trig2_write_callback A frame = (let ID = GetThreadID A (GetThread A frame) in block [
     say ''>>>>>>>>>> SUSPENDING WRITE THREAD'',
     bnd (get THREAD_ARR) (\<lambda>arr. whenever (ID \<notin> set arr) (modify (\<lambda>s. s\<lparr>THREAD_ARR := THREAD_ARR s @ [ID]\<rparr>))),
     bnd (get THREAD_ARR) (\<lambda>arr. block [
       say (''Suspended threads: '' @ str_nats arr),
       for_threads A (\<lambda>t. whenever (GetThreadID A t \<in> set arr) (block [
         say (suspending_msg (GetThreadID A t)),
         unused (api (Suspend A t))]))]),
     unused (api (Continue A))])"

definition trig2_load :: "('w, 't, 'f) named_api \<Rightarrow> ('w trig2, unit) prog" where
  "trig2_load A = block [
     say ''Setting trigger...'', trig2_set_trigger A, say ''Starting server...'', tell (HandleCommand A ''run'')]"

section \<open>\<open>multi.py\<close>\<close>

record 'w multi = "'w script" +
  locked :: bool
  started :: "nat list"

text \<open>\<open>started\<close> holds the delays of the timers started; \<open>lock.acquire()\<close> of a held lock blocks.\<close>

definition multi_init :: "('w, 't, 'f) named_api \<Rightarrow> ('w multi, unit) prog" where
  "multi_init A =
     bnd (api (BreakpointCreateByName A ''func'')) (\<lambda>bp. block [
       tell (SetScriptCallbackFunction A bp ''multi.bp_callback''),
       modify (\<lambda>s. s\<lparr>started := started s @ [5]\<rparr>)])"

definition multi_func :: "('w, 't, 'f, 'm) lldb_api_scheme \<Rightarrow> ('w multi, unit) prog" where
  "multi_func A = block [
     say ''RESUMING ALL THREADS'',
     for_threads A (\<lambda>t. bnd (api (Resume A t)) (\<lambda>ok. whenever (\<not> ok) (say ''### ERROR IN THREAD.RESUME ###'')))]"

definition multi_bp_callback :: "('w, 't, 'f, 'm) lldb_api_scheme \<Rightarrow> 'f \<Rightarrow> ('w multi, unit) prog" where
  "multi_bp_callback A frame = block [
     (\<lambda>s. if locked s then Some (Block, s) else Some (Ret (), s\<lparr>locked := True\<rparr>)),
     unused (api (Suspend A (GetThread A frame))),
     unused (api (Continue A)),
     modify (\<lambda>s. s\<lparr>locked := False\<rparr>)]"

definition multi_load :: "('w, 't, 'f) named_api \<Rightarrow> ('w multi, unit) prog" where
  "multi_load A = block [multi_init A, tell (HandleCommand A ''run'')]"

section \<open>Which threads are suspended\<close>

text \<open>What the scripts rely on: suspending, resuming and continuing do to threads what their names say.\<close>

definition faithful :: "('w, 't, 'f, 'm) lldb_api_scheme \<Rightarrow> bool" where
  "faithful A \<longleftrightarrow>
     (\<forall>t w. {u. IsSuspended A u (snd (Suspend A t w))} = insert t {u. IsSuspended A u w}
        \<and> {u. IsSuspended A u (snd (Resume A t w))} = {u. IsSuspended A u w} - {t}
        \<and> ProcessThreads A (snd (Suspend A t w)) = ProcessThreads A w
        \<and> ProcessThreads A (snd (Resume A t w)) = ProcessThreads A w)
     \<and> (\<forall>w. {u. IsSuspended A u (snd (Continue A w))} = {u. IsSuspended A u w}
        \<and> ProcessThreads A (snd (Continue A w)) = ProcessThreads A w)"

definition suspended :: "('w, 't, 'f, 'm) lldb_api_scheme \<Rightarrow> ('w, 'n) script_scheme \<Rightarrow> 't set" where
  "suspended A s = {u. IsSuspended A u (debuggee s)}"

definition threads :: "('w, 't, 'f, 'm) lldb_api_scheme \<Rightarrow> ('w, 'n) script_scheme \<Rightarrow> 't list" where
  "threads A s = ProcessThreads A (debuggee s)"

lemma bnd_unused_api [run_simps]: "bnd (unused (api f)) k s = k () (s\<lparr>debuggee := snd (f (debuggee s))\<rparr>)"
  by (simp add: unused_def api_def bnd_def call_def ret_def split: prod.splits)

lemma bnd_query [run_simps]: "bnd (query f) k s = k (f (debuggee s)) s"
  by (simp add: query_def bnd_get)

lemma bnd_say [run_simps]: "bnd (say m) k s = k () (s\<lparr>stdout := stdout s @ [m]\<rparr>)"
  by (simp add: say_def bnd_modify)

lemma for_each_run:
  assumes "\<And>x s. body x s = Some (Ret (), g x s)"
  shows "for_each xs body s = Some (Ret (), fold g xs s)"
  using assms by (induction xs arbitrary: s) (simp_all add: ret_def bnd_def)

lemma faithfulD:
  assumes "faithful A"
  shows "{u. IsSuspended A u (snd (Suspend A t w))} = insert t {u. IsSuspended A u w}"
    "{u. IsSuspended A u (snd (Resume A t w))} = {u. IsSuspended A u w} - {t}"
    "{u. IsSuspended A u (snd (Continue A w))} = {u. IsSuspended A u w}"
    "ProcessThreads A (snd (Suspend A t w)) = ProcessThreads A w"
    "ProcessThreads A (snd (Resume A t w)) = ProcessThreads A w"
    "ProcessThreads A (snd (Continue A w)) = ProcessThreads A w"
  using assms unfolding faithful_def by blast+

definition resumed :: "('w, 't, 'f, 'm) lldb_api_scheme \<Rightarrow> 't \<Rightarrow> ('w, 'n) script_scheme \<Rightarrow> ('w, 'n) script_scheme" where
  "resumed A t s = s\<lparr>debuggee := snd (Resume A t (debuggee s))\<rparr>"

lemma resume_one: "unused (api (Resume A t)) s = Some (Ret (), resumed A t s)"
  by (simp add: unused_def api_def bnd_def call_def ret_def resumed_def split: prod.splits)

lemma resume_many:
  assumes "faithful A"
  shows "suspended A (fold (resumed A) ts s) = suspended A s - set ts"
    and "threads A (fold (resumed A) ts s) = threads A s"
  by (induction ts arbitrary: s)
    (auto simp: suspended_def threads_def resumed_def faithfulD [OF assms])

lemma counter_resumed [simp]: "counter (fold (resumed A) ts s) = counter s"
  by (induction ts arbitrary: s) (simp_all add: resumed_def)

lemma resume_threads_run [run_simps]:
  "for_threads A (\<lambda>t. unused (api (Resume A t))) s = Some (Ret (), fold (resumed A) (threads A s) s)"
  unfolding for_threads_def bnd_query threads_def by (rule for_each_run) (rule resume_one)

text \<open>The events of a run of \<open>trig1.py\<close>, and what they mean for the counter and the set of suspended threads.\<close>

datatype 'f hit = ReadAt 'f | WriteAt 'f

fun trig1_event :: "('w, 't, 'f, 'm) lldb_api_scheme \<Rightarrow> 'f hit \<Rightarrow> ('w trig1, unit) prog" where
  "trig1_event A (ReadAt f) = trig1_read_callback A f"
| "trig1_event A (WriteAt f) = trig1_write_callback A f"

fun trig1_spec :: "('f \<Rightarrow> 't) \<Rightarrow> 't list \<Rightarrow> 'f hit \<Rightarrow> nat \<times> 't set \<Rightarrow> nat \<times> 't set" where
  "trig1_spec thread ts (ReadAt f) (n, X) = (n + 1, if n + 1 = 20 then X - set ts - {thread f} else X - {thread f})"
| "trig1_spec thread ts (WriteAt f) (n, X) = (n, insert (thread f) X)"

lemma trig1_event_run:
  assumes "faithful A"
  shows "\<exists>s'. trig1_event A e s = Some (Ret (), s') \<and> threads A s' = threads A s
    \<and> (counter s', suspended A s') = trig1_spec (GetThread A) (threads A s) e (counter s, suspended A s)"
proof (cases e)
  case (ReadAt f)
  define s1 where "s1 = s\<lparr>counter := counter s + 1\<rparr>"
  define s2 where "s2 = (if counter s1 = 20 then fold (resumed A) (threads A s1) s1 else s1)"
  have s1: "threads A s1 = threads A s" "suspended A s1 = suspended A s" "counter s1 = counter s + 1"
    by (simp_all add: s1_def threads_def suspended_def)
  have s2: "threads A s2 = threads A s" "counter s2 = counter s + 1"
    "suspended A s2 = (if counter s + 1 = 20 then suspended A s - set (threads A s) else suspended A s)"
    using s1 by (simp_all add: s2_def resume_many [OF assms])
  have "trig1_event A e s = bnd (unused (api (Resume A (GetThread A f))))
      (\<lambda>_. block [unused (api (Continue A))]) s2"
    by (simp add: ReadAt trig1_read_callback_def Let_def run_simps s1_def s2_def bnd_def [of "for_threads _ _"])
  then show ?thesis
    using s2 by (auto simp: run_simps ret_def ReadAt threads_def suspended_def faithfulD [OF assms])
next
  case (WriteAt f)
  then show ?thesis
    by (simp add: trig1_write_callback_def Let_def run_simps ret_def threads_def suspended_def faithfulD [OF assms])
qed


text \<open>Two threads, of which 1 writes and both read, up to the twentieth read.\<close>

definition two_threads :: "(nat set, nat, nat) lldb_api" where
  "two_threads = \<lparr>
     ProcessThreads = (\<lambda>w. [1, 2]), IsValid = (\<lambda>w. True), is_stopped = (\<lambda>w. True),
     Stop = (\<lambda>w. (True, w)), Continue = (\<lambda>w. (True, w)),
     GetThreadID = (\<lambda>t. t), GetThreadByID = (\<lambda>n w. n),
     StopReasonBreakpoint = (\<lambda>t w. True), IsSuspended = (\<lambda>t w. t \<in> w),
     Suspend = (\<lambda>t w. (True, insert t w)), Resume = (\<lambda>t w. (True, w - {t})),
     GetFrameAtIndex0 = (\<lambda>t w. t), GetSelectedFrame = (\<lambda>t w. t), GetThread = (\<lambda>f. f),
     FrameIsValid = (\<lambda>f w. True), FrameLine = (\<lambda>f w. 0),
     GetValueForVariablePath = (\<lambda>f tok w. No_value), FileSpecIsValid = (\<lambda>f. True),
     DisplaySourceLines = (\<lambda>f l w. []), BreakpointCreateByLocation = (\<lambda>f l w. (nat l, w)),
     SetScriptCallbackFunction = (\<lambda>n f w. w), SetAsync = (\<lambda>b w. w), HandleCommand = (\<lambda>m w. w),
     SBDebugger_Terminate = (\<lambda>w. w), time_time = (\<lambda>w. (0, w)), time_sleep = (\<lambda>w. w), str_time = (\<lambda>t. []),
     randrange = (\<lambda>n w. (0, w)), read_lines = (\<lambda>f w. None), pipe_output = (\<lambda>p q w. (Inr [], w))\<rparr>"


end
